(* ===== verification/Prelude.thy ===== *)
theory Prelude
  imports Main "HOL-Library.Sublist"
begin

text \<open>
  Shared vocabulary of the development: Python exceptions as values, the error
  monad every fallible operation returns, values as they arrive from the wire,
  and the generic list lemmas the components use.
  An operation that can raise has type \<open>exc + 'a\<close>: \<open>Inl\<close> is the exception that
  escapes the call, \<open>Inr\<close> the returned value.
\<close>

named_theorems res_simps

section \<open>Exceptions\<close>

text \<open>
  Errors the database reports for the statements the source sends, and the Python
  exception classes the source raises, catches or tests by name.
  \<open>Foreign n\<close> is any exception of a third-party class named \<open>n\<close> (ccxt, botocore).
\<close>

datatype db_error =
    UndefinedTable string
  | UndefinedColumn string
  | NotNullViolation string
  | CheckViolation string
  | NumericOutOfRange string
  | DatatypeMismatch string
  | BadRecordLength
  | NoConflictTarget "string list"
  | UniqueViolation string

datatype exc =
    ValidationError
  | ValueError
  | TypeError
  | KeyError string
  | IndexError
  | InvalidOperation
  | AssertionError
  | RuntimeError string
  | NotImplementedError
  | HTTPStatusError int
  | TransportError
  | TimeoutError
  | CancelledError
  | JSONDecodeError
  | DbError db_error
  | Foreign string

fun db_error_name :: "db_error \<Rightarrow> string" where
  "db_error_name (UndefinedTable _) = ''UndefinedTableError''"
| "db_error_name (UndefinedColumn _) = ''UndefinedColumnError''"
| "db_error_name (NotNullViolation _) = ''NotNullViolationError''"
| "db_error_name (CheckViolation _) = ''CheckViolationError''"
| "db_error_name (NumericOutOfRange _) = ''NumericValueOutOfRangeError''"
| "db_error_name (DatatypeMismatch _) = ''DataError''"
| "db_error_name BadRecordLength = ''DataError''"
| "db_error_name (NoConflictTarget _) = ''InvalidColumnReferenceError''"
| "db_error_name (UniqueViolation _) = ''UniqueViolationError''"

text \<open>The value of \<open>type(exc).__name__\<close>.\<close>

fun exc_name :: "exc \<Rightarrow> string" where
  "exc_name ValidationError = ''ValidationError''"
| "exc_name ValueError = ''ValueError''"
| "exc_name TypeError = ''TypeError''"
| "exc_name (KeyError _) = ''KeyError''"
| "exc_name IndexError = ''IndexError''"
| "exc_name InvalidOperation = ''InvalidOperation''"
| "exc_name AssertionError = ''AssertionError''"
| "exc_name (RuntimeError _) = ''RuntimeError''"
| "exc_name NotImplementedError = ''NotImplementedError''"
| "exc_name (HTTPStatusError _) = ''HTTPStatusError''"
| "exc_name TransportError = ''TransportError''"
| "exc_name TimeoutError = ''TimeoutError''"
| "exc_name CancelledError = ''CancelledError''"
| "exc_name JSONDecodeError = ''JSONDecodeError''"
| "exc_name (DbError e) = db_error_name e"
| "exc_name (Foreign n) = n"

text \<open>
  \<open>except Exception\<close> does not catch \<open>asyncio.CancelledError\<close>, which derives from
  \<open>BaseException\<close>.
\<close>

definition is_Exception :: "exc \<Rightarrow> bool" where
  "is_Exception e \<longleftrightarrow> e \<noteq> CancelledError"

type_synonym 'a res = "exc + 'a"

section \<open>The error monad\<close>

fun bindE :: "'e + 'a \<Rightarrow> ('a \<Rightarrow> 'e + 'b) \<Rightarrow> 'e + 'b" where
  "bindE (Inl e) f = Inl e"
| "bindE (Inr x) f = f x"

definition guardE :: "bool \<Rightarrow> 'e \<Rightarrow> 'e + unit" where
  "guardE b e = (if b then Inr () else Inl e)"

fun mapE :: "('a \<Rightarrow> 'e + 'b) \<Rightarrow> 'a list \<Rightarrow> 'e + 'b list" where
  "mapE f [] = Inr []"
| "mapE f (x # xs) = bindE (f x) (\<lambda>y. bindE (mapE f xs) (\<lambda>ys. Inr (y # ys)))"

fun foldE :: "('s \<Rightarrow> 'a \<Rightarrow> 'e + 's) \<Rightarrow> 's \<Rightarrow> 'a list \<Rightarrow> 'e + 's" where
  "foldE f s [] = Inr s"
| "foldE f s (x # xs) = bindE (f s x) (\<lambda>s'. foldE f s' xs)"

lemma bindE_eq_Inr [res_simps]: "bindE m f = Inr y \<longleftrightarrow> (\<exists>x. m = Inr x \<and> f x = Inr y)"
  by (cases m) auto

lemma bindE_eq_Inl [res_simps]:
  "bindE m f = Inl e \<longleftrightarrow> m = Inl e \<or> (\<exists>x. m = Inr x \<and> f x = Inl e)"
  by (cases m) auto

lemma guardE_eq_Inr [res_simps]: "guardE b e = Inr u \<longleftrightarrow> b"
  by (simp add: guardE_def)

lemma guardE_eq_Inl [res_simps]: "guardE b e = Inl e' \<longleftrightarrow> \<not> b \<and> e = e'"
  by (auto simp: guardE_def)

lemma mapE_Inr_length: "mapE f xs = Inr ys \<Longrightarrow> length ys = length xs"
  by (induction xs arbitrary: ys) (auto simp: res_simps)

lemma mapE_eq_Inr_iff:
  "mapE f xs = Inr ys \<longleftrightarrow> list_all2 (\<lambda>x y. f x = Inr y) xs ys"
proof (induction xs arbitrary: ys)
  case Nil
  then show ?case by auto
next
  case (Cons x xs)
  then show ?case by (cases ys) (auto simp: res_simps)
qed

lemma mapE_Inr_set:
  "mapE f xs = Inr ys \<Longrightarrow> y \<in> set ys \<Longrightarrow> \<exists>x\<in>set xs. f x = Inr y"
  by (induction xs arbitrary: ys) (auto simp: res_simps)

lemma mapE_Inl_witness: "mapE f xs = Inl e \<Longrightarrow> \<exists>x\<in>set xs. f x = Inl e"
  by (induction xs) (auto simp: res_simps)

lemma mapE_total: "(\<And>x. x \<in> set xs \<Longrightarrow> f x = Inr (g x)) \<Longrightarrow> mapE f xs = Inr (map g xs)"
  by (induction xs) auto

lemma mapE_append:
  "mapE f (xs @ ys) = bindE (mapE f xs) (\<lambda>us. bindE (mapE f ys) (\<lambda>vs. Inr (us @ vs)))"
proof (induction xs)
  case Nil
  then show ?case by (cases "mapE f ys") auto
next
  case (Cons x xs)
  then show ?case by (cases "f x"; cases "mapE f xs"; cases "mapE f ys") auto
qed

lemma mapE_fails: "x \<in> set xs \<Longrightarrow> f x = Inl e \<Longrightarrow> \<exists>e'. mapE f xs = Inl e'"
proof (induction xs)
  case Nil
  then show ?case by simp
next
  case (Cons y ys)
  then show ?case by (cases "f y"; cases "mapE f ys") auto
qed

lemma mapE_cong: "(\<And>x. x \<in> set xs \<Longrightarrow> f x = g x) \<Longrightarrow> mapE f xs = mapE g xs"
  by (induction xs) auto

lemma mapE_exists:
  assumes "\<And>x. x \<in> set xs \<Longrightarrow> \<exists>y. f x = Inr y"
  shows "\<exists>ys. mapE f xs = Inr ys"
proof (cases "mapE f xs")
  case (Inl e)
  then obtain x where x: "x \<in> set xs" "f x = Inl e" using mapE_Inl_witness [OF Inl] by blast
  obtain y where "f x = Inr y" using assms [OF x(1)] by blast
  with x(2) show ?thesis by (metis Inl_Inr_False)
next
  case (Inr ys)
  then show ?thesis by blast
qed

lemma foldE_append:
  "foldE f s (xs @ ys) = bindE (foldE f s xs) (\<lambda>s'. foldE f s' ys)"
proof (induction xs arbitrary: s)
  case Nil
  then show ?case by simp
next
  case (Cons x xs)
  then show ?case by (cases "f s x") auto
qed

lemma foldE_invariant:
  assumes "foldE f s xs = Inr s'" and "P s"
    and "\<And>s x s'. x \<in> set xs \<Longrightarrow> P s \<Longrightarrow> f s x = Inr s' \<Longrightarrow> P s'"
  shows "P s'"
  using assms
proof (induction xs arbitrary: s)
  case Nil
  then show ?case by simp
next
  case (Cons x xs)
  from Cons.prems(1) obtain s1 where s1: "f s x = Inr s1" "foldE f s1 xs = Inr s'"
    by (auto simp: res_simps)
  have "P s1" using Cons.prems(2,3) s1(1) by (meson list.set_intros(1))
  then show ?case
    using Cons.IH [OF s1(2)] Cons.prems(3) by (meson list.set_intros(2))
qed

section \<open>Wire values\<close>

text \<open>
  A decoded JSON or ccxt value. A Python float is carried by the decimal numeral
  that \<open>str\<close> prints for it, \<open>coefficient * 10 ^ exponent\<close>, or as one of the
  non-finite values; dictionaries are association lists in insertion order.
\<close>

datatype decimal = Fin int int | NaN | Infinity bool

datatype wire =
    WNone
  | WBool bool
  | WInt int
  | WFloat decimal
  | WStr string
  | WList "wire list"
  | WDict "(string \<times> wire) list"

type_synonym wdict = "(string \<times> wire) list"

text \<open>\<open>d[k]\<close>, \<open>d.get(k)\<close> and \<open>d.get(k, default)\<close>.\<close>

definition dget :: "wdict \<Rightarrow> string \<Rightarrow> wire res" where
  "dget d k = (case map_of d k of None \<Rightarrow> Inl (KeyError k) | Some v \<Rightarrow> Inr v)"

definition dget_or :: "wdict \<Rightarrow> string \<Rightarrow> wire \<Rightarrow> wire" where
  "dget_or d k v = (case map_of d k of None \<Rightarrow> v | Some u \<Rightarrow> u)"

text \<open>Python truth value of a wire value (\<open>a or b\<close>, \<open>if a\<close>).\<close>

fun truthy :: "wire \<Rightarrow> bool" where
  "truthy WNone = False"
| "truthy (WBool b) = b"
| "truthy (WInt i) = (i \<noteq> 0)"
| "truthy (WFloat (Fin c _)) = (c \<noteq> 0)"
| "truthy (WFloat _) = True"
| "truthy (WStr s) = (s \<noteq> [])"
| "truthy (WList xs) = (xs \<noteq> [])"
| "truthy (WDict xs) = (xs \<noteq> [])"

definition w_or :: "wire \<Rightarrow> wire \<Rightarrow> wire" where
  "w_or a b = (if truthy a then a else b)"

section \<open>Lists\<close>

lemma take_drop_slice:
  "a \<le> b \<Longrightarrow> b \<le> c \<Longrightarrow>
   take (b - a) (drop a xs) @ take (c - b) (drop b xs) = take (c - a) (drop a xs)"
proof -
  assume ab: "a \<le> b" and bc: "b \<le> c"
  have "take (c - a) (drop a xs) = take ((b - a) + (c - b)) (drop a xs)"
    using ab bc by simp
  also have "\<dots> = take (b - a) (drop a xs) @ take (c - b) (drop (b - a) (drop a xs))"
    by (rule take_add)
  finally show ?thesis using ab by simp
qed

lemma map_filter_append: "List.map_filter f (xs @ ys) = List.map_filter f xs @ List.map_filter f ys"
  by (simp add: List.map_filter_def)

lemma map_filter_none: "(\<And>x. x \<in> set xs \<Longrightarrow> f x = None) \<Longrightarrow> List.map_filter f xs = []"
  by (simp add: List.map_filter_def filter_empty_conv)

lemma distinct_map_filter_set:
  "distinct (map f xs) \<Longrightarrow> x \<in> set xs \<Longrightarrow> y \<in> set xs \<Longrightarrow> f x = f y \<Longrightarrow> x = y"
  by (auto simp: distinct_map inj_on_def)

lemma prefix_nthD: "prefix xs ys \<Longrightarrow> i < length xs \<Longrightarrow> ys ! i = xs ! i"
  by (auto simp: prefix_def nth_append)

end
