(* ===== verification/PyDecimal.thy ===== *)
theory PyDecimal
  imports Prelude "HOL-Library.Log_Nat" Complex_Main
begin

text \<open>
  The parts of Python's \<open>decimal\<close> module the source uses: the constructor
  \<open>Decimal(str(v))\<close>, the ordering comparisons, \<open>+\<close>, \<open>-\<close> and \<open>abs\<close> under the default
  context (28 significant digits, ROUND_HALF_EVEN, InvalidOperation trapped; the quotient is in Divergence), and
  the quantisation PostgreSQL applies when it stores a NUMERIC(p, s).
  \<open>Fin c e\<close> is the finite number \<open>c * 10 ^ e\<close>; the sign of zero is not kept and a
  signalling NaN is identified with the quiet one.
\<close>

section \<open>Value and order\<close>

definition pow10 :: "int \<Rightarrow> rat" where
  "pow10 e = (if 0 \<le> e then 10 ^ nat e else 1 / 10 ^ nat (- e))"

fun dval :: "decimal \<Rightarrow> rat" where
  "dval (Fin c e) = of_int c * pow10 e"
| "dval _ = 0"

fun is_finite :: "decimal \<Rightarrow> bool" where
  "is_finite (Fin _ _) = True"
| "is_finite _ = False"

text \<open>Coefficient of a finite number at a common lower exponent.\<close>

definition scale_to :: "int \<Rightarrow> int \<Rightarrow> int \<Rightarrow> int" where
  "scale_to c e f = c * 10 ^ nat (e - f)"

fun dec_lt :: "decimal \<Rightarrow> decimal \<Rightarrow> bool res" where
  "dec_lt (Fin c e) (Fin d f) =
     Inr (scale_to c e (min e f) < scale_to d f (min e f))"
| "dec_lt NaN _ = Inl InvalidOperation"
| "dec_lt _ NaN = Inl InvalidOperation"
| "dec_lt (Infinity n) (Infinity m) = Inr (n \<and> \<not> m)"
| "dec_lt (Infinity n) (Fin _ _) = Inr n"
| "dec_lt (Fin _ _) (Infinity m) = Inr (\<not> m)"

definition dec_gt :: "decimal \<Rightarrow> decimal \<Rightarrow> bool res" where
  "dec_gt a b = dec_lt b a"

text \<open>\<open>==\<close> never raises: a NaN is unequal to everything.\<close>

fun dec_eq :: "decimal \<Rightarrow> decimal \<Rightarrow> bool" where
  "dec_eq (Fin c e) (Fin d f) = (scale_to c e (min e f) = scale_to d f (min e f))"
| "dec_eq (Infinity n) (Infinity m) = (n = m)"
| "dec_eq _ _ = False"

definition dec_zero :: decimal where
  "dec_zero = Fin 0 0"

lemma pow10_pos [simp]: "0 < pow10 e"
  by (simp add: pow10_def)

lemma pow10_nonzero [simp]: "pow10 e \<noteq> 0"
  using pow10_pos [of e] by linarith

lemma pow10_nonneg [simp]: "0 \<le> pow10 e"
  using pow10_pos [of e] by (rule less_imp_le)

lemma pow10_not_neg [simp]: "\<not> pow10 e \<le> 0"
  by (simp add: not_le)

lemma pow10_add_nat: "pow10 (f + int n) = pow10 f * 10 ^ n"
proof (cases "0 \<le> f")
  case True
  then show ?thesis by (simp add: pow10_def nat_add_distrib power_add)
next
  case False
  show ?thesis
  proof (cases "0 \<le> f + int n")
    case True
    have "n = nat (f + int n) + nat (- f)" using False True by linarith
    then have "(10::rat) ^ n = 10 ^ nat (f + int n) * 10 ^ nat (- f)"
      by (metis power_add)
    then show ?thesis using False True by (simp add: pow10_def)
  next
    case neg: False
    have "nat (- f) = nat (- (f + int n)) + n" using False neg by linarith
    then have "(10::rat) ^ nat (- f) = 10 ^ nat (- (f + int n)) * 10 ^ n"
      by (metis power_add)
    then show ?thesis using False neg by (simp add: pow10_def)
  qed
qed

lemma scale_to_val: "f \<le> e \<Longrightarrow> of_int (scale_to c e f) * pow10 f = of_int c * pow10 e"
  using pow10_add_nat [of f "nat (e - f)"] by (simp add: scale_to_def)

lemma dec_lt_finite [simp]: "dec_lt (Fin c e) (Fin d f) = Inr (dval (Fin c e) < dval (Fin d f))"
proof -
  let ?m = "min e f"
  have "scale_to c e ?m < scale_to d f ?m \<longleftrightarrow>
      of_int (scale_to c e ?m) * pow10 ?m < of_int (scale_to d f ?m) * pow10 ?m"
    by (simp add: mult_less_cancel_right_pos)
  then show ?thesis by (simp add: scale_to_val)
qed

declare dec_lt.simps(1) [simp del]

lemma dec_eq_finite [simp]: "dec_eq (Fin c e) (Fin d f) \<longleftrightarrow> dval (Fin c e) = dval (Fin d f)"
proof -
  let ?m = "min e f"
  have "scale_to c e ?m = scale_to d f ?m \<longleftrightarrow>
      of_int (scale_to c e ?m) * pow10 ?m = of_int (scale_to d f ?m) * pow10 ?m"
    by simp
  then show ?thesis by (simp add: scale_to_val)
qed

declare dec_eq.simps(1) [simp del]

lemma dec_lt_is_finite:
  "is_finite a \<Longrightarrow> is_finite b \<Longrightarrow> dec_lt a b = Inr (dval a < dval b)"
  by (cases a; cases b) auto

lemma dec_eq_is_finite:
  "is_finite a \<Longrightarrow> is_finite b \<Longrightarrow> dec_eq a b \<longleftrightarrow> dval a = dval b"
  by (cases a; cases b) auto

lemma dec_zero_simps [simp]: "is_finite dec_zero" "dval dec_zero = 0"
  by (simp_all add: dec_zero_def)

section \<open>Rounding to the context precision\<close>

definition ndigits :: "int \<Rightarrow> nat" where
  "ndigits c = floorlog 10 (nat \<bar>c\<bar>)"

text \<open>Integer division rounded half to even, for a positive divisor.\<close>

definition div_half_even :: "int \<Rightarrow> int \<Rightarrow> int" where
  "div_half_even a b =
     (let q = a div b; r = a mod b
      in if 2 * r < b then q
         else if b < 2 * r then q + 1
         else if even q then q else q + 1)"

definition prec :: nat where
  "prec = 28"

definition fix28 :: "int \<Rightarrow> int \<Rightarrow> decimal" where
  "fix28 c e =
     (if ndigits c \<le> prec then Fin c e
      else let k = ndigits c - prec; c' = div_half_even c (10 ^ k)
           in if ndigits c' \<le> prec then Fin c' (e + int k)
              else Fin (c' div 10) (e + int k + 1))"

fun dec_add :: "decimal \<Rightarrow> decimal \<Rightarrow> decimal res" where
  "dec_add (Fin c e) (Fin d f) =
     (let m = min e f in Inr (fix28 (scale_to c e m + scale_to d f m) m))"
| "dec_add NaN _ = Inr NaN"
| "dec_add _ NaN = Inr NaN"
| "dec_add (Infinity n) (Infinity m) = (if n = m then Inr (Infinity n) else Inl InvalidOperation)"
| "dec_add (Infinity n) (Fin _ _) = Inr (Infinity n)"
| "dec_add (Fin _ _) (Infinity m) = Inr (Infinity m)"

fun dec_neg :: "decimal \<Rightarrow> decimal" where
  "dec_neg (Fin c e) = Fin (- c) e"
| "dec_neg NaN = NaN"
| "dec_neg (Infinity n) = Infinity (\<not> n)"

definition dec_sub :: "decimal \<Rightarrow> decimal \<Rightarrow> decimal res" where
  "dec_sub a b = dec_add a (dec_neg b)"

fun dec_abs :: "decimal \<Rightarrow> decimal" where
  "dec_abs (Fin c e) = fix28 \<bar>c\<bar> e"
| "dec_abs NaN = NaN"
| "dec_abs (Infinity _) = Infinity False"

text \<open>
  Both operands hold at most \<open>prec\<close> digits once aligned: the addition is then exact.
\<close>

lemma fix28_exact [simp]: "ndigits c \<le> prec \<Longrightarrow> fix28 c e = Fin c e"
  by (simp add: fix28_def)

lemma is_finite_fix28 [simp]: "is_finite (fix28 c e)"
  by (simp add: fix28_def Let_def)

lemma dec_add_finite: "is_finite a \<Longrightarrow> is_finite b \<Longrightarrow> \<exists>r. dec_add a b = Inr r \<and> is_finite r"
  by (cases a; cases b) (auto simp: Let_def)

lemma dec_add_exact:
  assumes "ndigits (scale_to c e (min e f) + scale_to d f (min e f)) \<le> prec"
  shows "\<exists>r. dec_add (Fin c e) (Fin d f) = Inr r \<and> dval r = dval (Fin c e) + dval (Fin d f)"
proof -
  let ?m = "min e f"
  have "dval (Fin (scale_to c e ?m + scale_to d f ?m) ?m) = dval (Fin c e) + dval (Fin d f)"
    by (simp add: distrib_right scale_to_val)
  then show ?thesis using assms by (simp add: Let_def)
qed

lemma div_half_even_nonneg: "0 < b \<Longrightarrow> 0 \<le> a \<Longrightarrow> 0 \<le> div_half_even a b"
  by (simp add: div_half_even_def Let_def pos_imp_zdiv_nonneg_iff)

lemma fix28_nonneg: "0 \<le> c \<Longrightarrow> 0 \<le> dval (fix28 c e)"
  by (auto simp: fix28_def Let_def zero_le_mult_iff div_half_even_nonneg pos_imp_zdiv_nonneg_iff)

lemma scale_to_nonneg: "0 \<le> c \<Longrightarrow> 0 \<le> scale_to c e f"
  by (simp add: scale_to_def)

lemma dval_nonneg_iff: "0 \<le> dval (Fin c e) \<longleftrightarrow> 0 \<le> c"
  by (simp add: zero_le_mult_iff)

lemma dec_add_nonneg:
  assumes "is_finite a" "is_finite b" "0 \<le> dval a" "0 \<le> dval b" "dec_add a b = Inr r"
  shows "is_finite r \<and> 0 \<le> dval r"
proof -
  obtain c e d f where ab: "a = Fin c e" "b = Fin d f"
    using assms(1,2) by (cases a; cases b) auto
  then have "0 \<le> c" "0 \<le> d" using assms(3,4) by (simp_all only: dval_nonneg_iff)
  then show ?thesis
    using assms(5) ab by (auto simp: Let_def intro!: fix28_nonneg add_nonneg_nonneg scale_to_nonneg)
qed

text \<open>Half-even rounding is off by at most half a unit.\<close>

lemma div_half_even_error:
  assumes "0 < b"
  shows "2 * \<bar>a - div_half_even a b * b\<bar> \<le> b"
proof -
  have r: "0 \<le> a mod b" "a mod b < b" using assms by simp_all
  have d: "a - a div b * b = a mod b" by (simp add: minus_div_mult_eq_mod)
  have d1: "a - (a div b + 1) * b = a mod b - b" using d by (simp add: algebra_simps)
  show ?thesis
    unfolding div_half_even_def Let_def
    using r d d1 by (auto split: if_splits)
qed

section \<open>Stored NUMERIC columns\<close>

text \<open>
  PostgreSQL rounds a value to the column's scale, halves away from zero, and
  rejects it when more than \<open>p - s\<close> digits remain before the point. NaN is a legal
  NUMERIC value; an infinity is rejected by a column with a declared precision.
\<close>

definition div_half_away :: "int \<Rightarrow> int \<Rightarrow> int" where
  "div_half_away a b =
     (let q = \<bar>a\<bar> div b; r = \<bar>a\<bar> mod b; m = (if b \<le> 2 * r then q + 1 else q)
      in if a < 0 then - m else m)"

fun to_numeric :: "nat \<Rightarrow> nat \<Rightarrow> decimal \<Rightarrow> decimal option" where
  "to_numeric p s (Fin c e) =
     (let n = (if - int s \<le> e then scale_to c e (- int s)
               else div_half_away c (10 ^ nat (- int s - e)))
      in if \<bar>n\<bar> < 10 ^ p then Some (Fin n (- int s)) else None)"
| "to_numeric p s NaN = Some NaN"
| "to_numeric p s (Infinity _) = None"

text \<open>A stored value is stored again unchanged.\<close>

lemma to_numeric_idem: "to_numeric p s d = Some d' \<Longrightarrow> to_numeric p s d' = Some d'"
  by (cases d) (auto simp: Let_def scale_to_def split: if_splits)

lemma to_numeric_exact:
  assumes "to_numeric p s (Fin c e) = Some d'" and "- int s \<le> e"
  shows "dval d' = dval (Fin c e)"
  using assms scale_to_val [of "- int s" e c] by (auto simp: Let_def split: if_splits)

end
