(* ===== verification/PyTime.thy ===== *)
theory PyTime
  imports PyDecimal
begin

text \<open>
  Instants as the source computes them. A tz-aware datetime is the number of
  microseconds since the Unix epoch; a naive one carries its local reading and is
  only ever rejected. Conversions between milliseconds and datetimes go through
  IEEE double arithmetic in Python (\<open>ms / 1000\<close>, \<open>dt.timestamp() * 1000\<close>), so doubles
  are modelled: \<open>fl\<close> rounds a rational to 53 significant bits, half to even.
  Subnormals and overflow are not modelled; they are out of reach of any instant.
\<close>

section \<open>IEEE doubles\<close>

definition pow2 :: "int \<Rightarrow> rat" where
  "pow2 e = (if 0 \<le> e then 2 ^ nat e else 1 / 2 ^ nat (- e))"

definition round_half_even :: "rat \<Rightarrow> int" where
  "round_half_even x =
     (let n = \<lfloor>x\<rfloor>; r = x - of_int n
      in if r < 1 / 2 then n else if 1 / 2 < r then n + 1 else if even n then n else n + 1)"

text \<open>Position of the leading bit of a positive rational.\<close>

definition lead_bit :: "rat \<Rightarrow> int" where
  "lead_bit x =
     (let (p, q) = quotient_of x;
          k = int (floorlog 2 (nat p)) - int (floorlog 2 (nat q))
      in if pow2 k \<le> x then k else k - 1)"

definition fl :: "rat \<Rightarrow> rat" where
  "fl x =
     (if x = 0 then 0
      else let u = pow2 (lead_bit \<bar>x\<bar> - 52) in of_int (round_half_even (x / u)) * u)"

text \<open>\<open>int(x)\<close> on a float truncates towards zero.\<close>

definition py_int :: "rat \<Rightarrow> int" where
  "py_int x = (if 0 \<le> x then \<lfloor>x\<rfloor> else \<lceil>x\<rceil>)"

lemma pow2_pos [simp]: "0 < pow2 e"
  by (simp add: pow2_def)

lemma pow2_nonzero [simp]: "pow2 e \<noteq> 0"
  using pow2_pos [of e] by linarith

lemma pow2_eq_powi: "pow2 e = 2 powi e"
  by (simp add: pow2_def power_int_def field_simps)

lemma pow2_add: "pow2 (a + b) = pow2 a * pow2 b"
  by (simp add: pow2_eq_powi power_int_add)

lemma round_half_even_error: "\<bar>of_int (round_half_even x) - x\<bar> \<le> 1 / 2"
proof -
  let ?n = "\<lfloor>x\<rfloor>"
  have b: "of_int ?n \<le> x" "x < of_int ?n + 1"
    using floor_correct [of x] by simp_all
  show ?thesis
    using b by (auto simp: round_half_even_def Let_def)
qed

lemma round_half_even_near:
  assumes "\<bar>x - of_int n\<bar> < 1 / 2"
  shows "round_half_even x = n"
proof -
  have "\<bar>of_int (round_half_even x) - x\<bar> \<le> 1 / 2" by (rule round_half_even_error)
  with assms have "\<bar>rat_of_int (round_half_even x) - of_int n\<bar> < 1" by linarith
  then have "\<bar>round_half_even x - n\<bar> < 1" by linarith
  then show ?thesis by simp
qed

lemma lead_bit_le:
  assumes "0 < x"
  shows "pow2 (lead_bit x) \<le> x"
proof -
  obtain p q where pq: "quotient_of x = (p, q)" by fastforce
  have q: "0 < q" using quotient_of_denom_pos [OF pq] .
  have x: "x = of_int p / of_int q" using quotient_of_div [OF pq] .
  have p: "0 < p" using assms x q by (simp add: zero_less_divide_iff)
  let ?a = "floorlog 2 (nat p)" and ?b = "floorlog 2 (nat q)"
  have lo: "(2::rat) ^ ?a \<le> 2 * of_int p"
  proof -
    have "2 ^ (?a - 1) \<le> nat p" using floorlog_bounds [of "nat p" 2] p by simp
    then have "int (2 ^ (?a - 1)) \<le> int (nat p)" by (simp only: of_nat_le_iff)
    then have "(2::int) ^ (?a - 1) \<le> p" using p by simp
    then have "(2::int) ^ ?a \<le> 2 * p" by (cases ?a) (use p in auto)
    then show ?thesis by (metis of_int_le_iff of_int_mult of_int_numeral of_int_power)
  qed
  have hi: "of_int q \<le> (2::rat) ^ ?b"
  proof -
    have "nat q < 2 ^ ?b" using floorlog_bounds [of "nat q" 2] q by simp
    then have "int (nat q) < int (2 ^ ?b)" by (simp only: of_nat_less_iff)
    then have "q \<le> (2::int) ^ ?b" using q by simp
    then show ?thesis by (metis of_int_le_iff of_int_numeral of_int_power)
  qed
  have "pow2 (int ?a - int ?b - 1) = (2 ^ ?a / 2) / 2 ^ ?b"
    by (simp add: pow2_eq_powi power_int_diff)
  also have "\<dots> \<le> of_int p / of_int q"
    using lo hi p q by (intro frac_le) auto
  finally have "pow2 (int ?a - int ?b - 1) \<le> x" using x by simp
  then show ?thesis by (auto simp: lead_bit_def pq Let_def)
qed

lemma lead_bit_gt:
  assumes "0 < x"
  shows "x < pow2 (lead_bit x + 1)"
proof -
  obtain p q where pq: "quotient_of x = (p, q)" by fastforce
  have q: "0 < q" using quotient_of_denom_pos [OF pq] .
  have x: "x = of_int p / of_int q" using quotient_of_div [OF pq] .
  have p: "0 < p" using assms x q by (simp add: zero_less_divide_iff)
  let ?a = "floorlog 2 (nat p)" and ?b = "floorlog 2 (nat q)"
  have hi: "of_int p < (2::rat) ^ ?a"
  proof -
    have "nat p < 2 ^ ?a" using floorlog_bounds [of "nat p" 2] p by simp
    then have "int (nat p) < int (2 ^ ?a)" by (simp only: of_nat_less_iff)
    then have "p < (2::int) ^ ?a" using p by simp
    then show ?thesis by (metis of_int_less_iff of_int_numeral of_int_power)
  qed
  have lo: "(2::rat) ^ ?b / 2 \<le> of_int q"
  proof -
    have "2 ^ (?b - 1) \<le> nat q" using floorlog_bounds [of "nat q" 2] q by simp
    then have "int (2 ^ (?b - 1)) \<le> int (nat q)" by (simp only: of_nat_le_iff)
    then have "(2::int) ^ (?b - 1) \<le> q" using q by simp
    then have "(2::int) ^ ?b \<le> 2 * q" by (cases ?b) (use q in auto)
    then have "(2::rat) ^ ?b \<le> 2 * of_int q"
      by (metis of_int_le_iff of_int_mult of_int_numeral of_int_power)
    then show ?thesis by simp
  qed
  have "of_int p / of_int q < (2::rat) ^ ?a / (2 ^ ?b / 2)"
    using lo hi p q by (intro frac_less) auto
  also have "\<dots> = pow2 (int ?a - int ?b + 1)"
    by (simp add: pow2_eq_powi power_int_diff power_int_add)
  finally have "x < pow2 (int ?a - int ?b + 1)" using x by simp
  then show ?thesis by (auto simp: lead_bit_def pq Let_def)
qed

lemma pow2_less_iff [simp]: "pow2 a < pow2 b \<longleftrightarrow> a < b"
proof
  show "a < b \<Longrightarrow> pow2 a < pow2 b"
    by (simp add: pow2_eq_powi power_int_strict_increasing)
  assume "pow2 a < pow2 b"
  then show "a < b"
    using power_int_increasing [of b a "2::rat"] by (simp add: pow2_eq_powi not_less [symmetric])
       (meson not_less)
qed

lemma lead_bit_unique:
  assumes "pow2 k \<le> x" "x < pow2 (k + 1)"
  shows "lead_bit x = k"
proof -
  have "0 < x" using assms(1) pow2_pos [of k] by linarith
  then have "pow2 (lead_bit x) < pow2 (k + 1)" "pow2 k < pow2 (lead_bit x + 1)"
    using lead_bit_le [of x] lead_bit_gt [of x] assms by linarith+
  then show ?thesis by simp
qed

text \<open>The relative error of one rounding is at most \<open>2 ^ -53\<close>.\<close>

lemma fl_error: "\<bar>fl x - x\<bar> \<le> \<bar>x\<bar> / 2 ^ 53"
proof (cases "x = 0")
  case True
  then show ?thesis by (simp add: fl_def)
next
  case False
  let ?u = "pow2 (lead_bit \<bar>x\<bar> - 52)"
  have fl: "fl x = of_int (round_half_even (x / ?u)) * ?u"
    using False by (simp add: fl_def Let_def)
  have "\<bar>of_int (round_half_even (x / ?u)) - x / ?u\<bar> * ?u \<le> 1 / 2 * ?u"
    by (intro mult_right_mono round_half_even_error) (simp add: less_imp_le)
  moreover have "\<bar>of_int (round_half_even (x / ?u)) - x / ?u\<bar> * ?u = \<bar>fl x - x\<bar>"
  proof -
    have "(of_int (round_half_even (x / ?u)) - x / ?u) * ?u = fl x - x"
      by (simp add: fl left_diff_distrib)
    then show ?thesis using abs_mult [of "of_int (round_half_even (x / ?u)) - x / ?u" ?u]
      by (simp add: less_imp_le)
  qed
  moreover have "?u * 2 ^ 52 = pow2 (lead_bit \<bar>x\<bar>)"
    by (simp add: pow2_eq_powi power_int_diff)
  moreover have "pow2 (lead_bit \<bar>x\<bar>) \<le> \<bar>x\<bar>" using False by (intro lead_bit_le) simp
  ultimately show ?thesis by simp
qed

lemma fl_error_num: "\<bar>fl x - x\<bar> \<le> \<bar>x\<bar> / 9007199254740992"
  using fl_error [of x] by simp

lemma fl_nonneg: "0 \<le> x \<Longrightarrow> 0 \<le> fl x"
  using fl_error_num [of x] by linarith

text \<open>Inside one binade a number close to a representable one rounds to it.\<close>

lemma fl_near:
  assumes "pow2 k \<le> y" "y < pow2 (k + 1)" "k \<le> 52"
    and "\<bar>y - of_int n\<bar> * pow2 (52 - k) < 1 / 2"
  shows "fl y = of_int n"
proof -
  have y: "0 < y" using assms(1) pow2_pos [of k] by linarith
  have lb: "lead_bit \<bar>y\<bar> = k" using y assms by (simp add: lead_bit_unique)
  let ?u = "pow2 (k - 52)" and ?v = "pow2 (52 - k)"
  have uv: "?u * ?v = 1" by (simp add: pow2_add [symmetric]) (simp add: pow2_def)
  have v: "?v = of_int (2 ^ nat (52 - k))" using assms(3) by (simp add: pow2_def)
  have "y / ?u = y * ?v" using uv by (simp add: field_simps)
  moreover have "(y - of_int n) * ?v = y * ?v - of_int (n * 2 ^ nat (52 - k))"
    using v by (simp add: left_diff_distrib)
  ultimately have "\<bar>y / ?u - of_int (n * 2 ^ nat (52 - k))\<bar> < 1 / 2"
    using assms(4) by (metis abs_mult abs_of_pos pow2_pos)
  then have "round_half_even (y / ?u) = n * 2 ^ nat (52 - k)"
    by (rule round_half_even_near)
  moreover have "of_int (n * 2 ^ nat (52 - k)) * ?u = of_int n"
    using uv v by (simp add: mult.assoc mult.commute [of ?u])
  ultimately show ?thesis using y lb by (simp add: fl_def Let_def)
qed

lemma round_half_even_of_int [simp]: "round_half_even (of_int n) = n"
  by (rule round_half_even_near) simp

text \<open>Integers of at most 53 bits are doubles.\<close>

lemma fl_of_int:
  assumes "\<bar>n\<bar> < 2 ^ 53"
  shows "fl (of_int n) = of_int n"
proof (cases "n = 0")
  case True
  then show ?thesis by (simp add: fl_def)
next
  case False
  let ?b = "lead_bit \<bar>of_int n\<bar>" and ?u = "pow2 (lead_bit \<bar>of_int n\<bar> - 52)"
  have "pow2 ?b \<le> \<bar>of_int n\<bar>" using False by (intro lead_bit_le) simp
  moreover have "\<bar>of_int n :: rat\<bar> < 2 ^ 53"
    using assms by (metis of_int_abs of_int_less_iff of_int_numeral of_int_power)
  ultimately have "pow2 ?b < pow2 53" by (simp add: pow2_def)
  then have "?b < 53" by (simp only: pow2_less_iff)
  then have "1 / ?u = of_int (2 ^ nat (52 - ?b))"
    by (simp add: pow2_def power_int_def)
  then have "of_int n / ?u = of_int (n * 2 ^ nat (52 - ?b))"
    by (metis divide_inverse inverse_eq_divide of_int_mult)
  then have "round_half_even (of_int n / ?u) = n * 2 ^ nat (52 - ?b)"
    by (metis round_half_even_of_int)
  with \<open>of_int n / ?u = of_int (n * 2 ^ nat (52 - ?b))\<close>
  have "of_int (round_half_even (of_int n / ?u)) * ?u = of_int n"
    by (metis nonzero_divide_eq_eq pow2_nonzero)
  then show ?thesis using False by (simp add: fl_def Let_def)
qed

section \<open>Milliseconds and instants\<close>

text \<open>
  \<open>datetime.fromtimestamp(t, tz=UTC)\<close>: the integral part is split off, the fraction
  becomes microseconds rounded half to even; years outside 1..9999 are rejected.
\<close>

definition min_instant :: int where
  "min_instant = - 62135596800000000"

definition max_instant :: int where
  "max_instant = 253402300799999999"

definition from_timestamp :: "rat \<Rightarrow> int res" where
  "from_timestamp t =
     (let sec = py_int t;
          us = sec * 1000000 + round_half_even (fl ((t - of_int sec) * 1000000))
      in if min_instant \<le> us \<and> us \<le> max_instant then Inr us else Inl ValueError)"

definition ts_from_ms :: "int \<Rightarrow> int res" where
  "ts_from_ms ms = from_timestamp (fl (of_int ms / 1000))"

text \<open>\<open>dt.timestamp()\<close> and \<open>int(dt.timestamp() * 1000)\<close>.\<close>

definition timestamp :: "int \<Rightarrow> rat" where
  "timestamp us = fl (of_int us / 1000000)"

definition ms_of_ts :: "int \<Rightarrow> int" where
  "ms_of_ts us = py_int (fl (timestamp us * 1000))"

lemma abs_diff_leD: "\<bar>a - b\<bar> \<le> c \<Longrightarrow> a - b \<le> c \<and> b - a \<le> c" for a :: rat
  by (auto dest: abs_le_D1 abs_le_D2)

lemma abs_diff_lessD: "\<bar>a - b\<bar> < c \<Longrightarrow> a - b < c \<and> b - a < c" for a :: rat
  by (auto simp: abs_less_iff)

lemma ts_from_ms_exact:
  assumes "0 \<le> ms" "ms \<le> 4000000000000"
  shows "ts_from_ms ms = Inr (1000 * ms)"
proof -
  define t where "t = fl (of_int ms / 1000)"
  define s where "s = \<lfloor>t\<rfloor>"
  define x where "x = (t - of_int s) * 1000000"
  have m: "0 \<le> rat_of_int ms" "rat_of_int ms \<le> 4000000000000" using assms by linarith+
  have e1: "\<bar>t - of_int ms / 1000\<bar> \<le> of_int ms / 1000 / 9007199254740992"
    unfolding t_def using fl_error_num [of "of_int ms / 1000"] m(1) by linarith
  have t0: "0 \<le> t" unfolding t_def using m(1) by (intro fl_nonneg) simp
  have fr: "0 \<le> t - of_int s" "t - of_int s \<le> 1"
    using floor_correct [of t] by (simp_all add: s_def less_imp_le)
  have "0 \<le> x" "x \<le> 1000000" using fr by (simp_all add: x_def)
  then have e2: "\<bar>fl x - x\<bar> \<le> 1000000 / 9007199254740992"
    using fl_error_num [of x] by linarith
  have "\<bar>fl x - (1000 * of_int ms - of_int s * 1000000)\<bar> < 1 / 2"
  proof -
    define f where "f = fl x"
    have "f - x \<le> 1 / 1000000000" "x - f \<le> 1 / 1000000000"
      using abs_diff_leD [OF e2] unfolding f_def [symmetric] by simp_all
    moreover have "t - of_int ms / 1000 \<le> 4445 / 10000000000" "of_int ms / 1000 - t \<le> 4445 / 10000000000"
      using abs_diff_leD [OF e1] m by simp_all
    moreover have "x = t * 1000000 - of_int s * 1000000" by (simp add: x_def)
    ultimately show ?thesis unfolding f_def [symmetric] abs_less_iff by linarith
  qed
  then have "round_half_even (fl x) = 1000 * ms - s * 1000000"
    by (intro round_half_even_near) simp
  then have eq: "s * 1000000 + round_half_even (fl x) = 1000 * ms" by simp
  have py: "py_int t = s" using t0 by (simp add: py_int_def s_def)
  show ?thesis
    unfolding ts_from_ms_def t_def [symmetric] from_timestamp_def Let_def py x_def [symmetric] eq
    using assms by (simp add: min_instant_def max_instant_def)
qed

lemma ms_of_ts_whole_seconds:
  assumes "0 \<le> s" "s \<le> 4000000000000"
  shows "ms_of_ts (1000000 * s) = 1000 * s"
proof -
  have "timestamp (1000000 * s) = of_int s"
    using assms fl_of_int [of s] by (simp add: timestamp_def)
  moreover have "fl (of_int (s * 1000)) = of_int (s * 1000)"
    using assms by (intro fl_of_int) simp
  then have "fl (of_int s * 1000) = of_int (s * 1000)" by simp
  ultimately have "ms_of_ts (1000000 * s) = py_int (of_int (s * 1000))"
    by (simp only: ms_of_ts_def)
  then show ?thesis using assms by (simp only: py_int_def floor_of_int ceiling_of_int) simp
qed

text \<open>
  Truncation after two roundings loses at most the last millisecond, and only for an
  instant that is a whole number of milliseconds.
\<close>

lemma ms_of_ts_bounds:
  assumes "0 \<le> us" "us \<le> 4000000000000000"
  shows "us div 1000 - 1 \<le> ms_of_ts us \<and> ms_of_ts us \<le> us div 1000"
    and "us mod 1000 \<noteq> 0 \<Longrightarrow> ms_of_ts us = us div 1000"
proof -
  let ?t = "timestamp us" and ?y = "fl (timestamp us * 1000)"
  have u: "0 \<le> rat_of_int us" "rat_of_int us \<le> 4000000000000000" using assms by linarith+
  have e1: "\<bar>?t - of_int us / 1000000\<bar> \<le> of_int us / 1000000 / 9007199254740992"
    unfolding timestamp_def using fl_error_num [of "of_int us / 1000000"] u(1) by linarith
  have t0: "0 \<le> ?t" using u(1) by (simp add: timestamp_def fl_nonneg)
  have e2: "\<bar>?y - ?t * 1000\<bar> \<le> ?t * 1000 / 9007199254740992"
    using fl_error_num [of "?t * 1000"] t0 by linarith
  have e: "\<bar>?y - of_int us / 1000\<bar> < 1 / 1000"
    using e1 e2 u by linarith
  have y0: "0 \<le> ?y" using t0 by (simp add: fl_nonneg)
  have ms: "ms_of_ts us = \<lfloor>?y\<rfloor>" using y0 by (simp add: ms_of_ts_def py_int_def)
  define q r where "q = us div 1000" and "r = us mod 1000"
  have "us = 1000 * q + r" by (simp add: q_def r_def)
  then have d: "rat_of_int us = 1000 * of_int q + of_int r"
    by (metis of_int_add of_int_mult of_int_numeral)
  have r: "0 \<le> r" "r \<le> 999" by (simp_all add: r_def)
  then have r': "0 \<le> rat_of_int r" "rat_of_int r \<le> 999" by linarith+
  have lo: "of_int q - 1 \<le> ?y" and hi: "?y < of_int q + 1"
    using e d r' by linarith+
  then show "us div 1000 - 1 \<le> ms_of_ts us \<and> ms_of_ts us \<le> us div 1000"
    unfolding ms q_def [symmetric] by (simp add: le_floor_iff floor_le_iff)
  assume "us mod 1000 \<noteq> 0"
  then have "1 \<le> r" using r(1) unfolding r_def by linarith
  then have "1 \<le> rat_of_int r" by linarith
  then have "of_int q \<le> ?y" using e d by linarith
  with hi show "ms_of_ts us = us div 1000" unfolding ms q_def [symmetric] by (simp add: floor_eq_iff)
qed

text \<open>
  Between 2004 and January 2038 the loss never happens: an instant read back from
  the milliseconds it was made of gives the same milliseconds.
\<close>

lemma ms_of_ts_exact:
  assumes "1100000000000 \<le> ms" "ms < 2147483648000"
  shows "ms_of_ts (1000 * ms) = ms"
proof -
  let ?x = "of_int (1000 * ms) / 1000000 :: rat" and ?t = "timestamp (1000 * ms)"
  have m: "1100000000000 \<le> rat_of_int ms" "rat_of_int ms \<le> 2147483647999"
    using assms by linarith+
  have x: "?x = of_int ms / 1000" by simp
  have lb: "lead_bit \<bar>?x\<bar> = 30"
    unfolding x by (rule lead_bit_unique) (use m in \<open>simp_all add: pow2_def\<close>)
  define z where "z = round_half_even (?x / pow2 (- 22))"
  have nz: "?x \<noteq> 0" using m by simp
  have "?t = of_int (round_half_even (?x / pow2 (30 - 52))) * pow2 (30 - 52)"
    by (simp only: timestamp_def fl_def Let_def lb nz if_False)
  then have t: "?t = of_int z / 4194304" by (simp add: z_def) (simp add: pow2_def)
  have "\<bar>of_int z - ?x / pow2 (- 22)\<bar> \<le> 1 / 2" unfolding z_def by (rule round_half_even_error)
  then have z: "\<bar>rat_of_int z - of_int ms / 1000 * 4194304\<bar> \<le> 1 / 2" by (simp add: pow2_def)
  have e: "\<bar>?t * 1000 - of_int ms\<bar> * 4096 < 1 / 2" 
    using z unfolding t by (simp add: abs_le_iff) (auto simp: abs_if split: if_splits)
  then have "\<bar>?t * 1000 - of_int ms\<bar> \<le> 1" by simp
  note e' = abs_diff_leD [OF this]
  have "fl (?t * 1000) = of_int ms"
  proof (rule fl_near [where k = 40])
    show "pow2 40 \<le> ?t * 1000" using e' m by (simp add: pow2_def)
    show "?t * 1000 < pow2 (40 + 1)" using e' m by (simp add: pow2_def)
    show "\<bar>?t * 1000 - of_int ms\<bar> * pow2 (52 - 40) < 1 / 2" using e by (simp add: pow2_def)
  qed simp
  then show ?thesis using assms by (simp add: ms_of_ts_def py_int_def)
qed

text \<open>The bound is sharp: 1.001 s after the epoch reads back one millisecond early.\<close>

lemma ms_of_ts_loss: "ms_of_ts 1001000 = 1000"
proof -
  have l1: "lead_bit \<bar>1001 / 1000\<bar> = 0" by (rule lead_bit_unique) (simp_all add: pow2_def)
  have "timestamp 1001000 = of_int (round_half_even (1001 / 1000 / pow2 (0 - 52))) * pow2 (0 - 52)"
    using l1 by (simp add: timestamp_def fl_def Let_def)
  also have "round_half_even (1001 / 1000 / pow2 (0 - 52)) = 4508103226997866"
    by (rule round_half_even_near) (simp add: pow2_def)
  finally have t: "timestamp 1001000 * 1000 = 563512903374733250 / 562949953421312"
    by (simp add: pow2_def)
  have l2: "lead_bit \<bar>563512903374733250 / 562949953421312\<bar> = 9"
    by (rule lead_bit_unique) (simp_all add: pow2_def)
  have "round_half_even (563512903374733250 / 562949953421312 / pow2 (9 - 52)) = 8804889115230207"
    by (rule round_half_even_near) (simp add: pow2_def)
  then have "fl (timestamp 1001000 * 1000) = 8804889115230207 * pow2 (9 - 52)"
    unfolding t using l2 by (simp add: fl_def Let_def)
  then show ?thesis by (simp add: ms_of_ts_def py_int_def pow2_def floor_divide_of_int_eq floor_eq_iff)
qed

section \<open>Datetimes\<close>

text \<open>
  A datetime with or without tzinfo. Everything the source keeps is aware and UTC, so
  the minute of an instant is a floor to sixty million microseconds, which is what
  \<open>ts.replace(second=0, microsecond=0)\<close> computes.
\<close>

datatype dt = Naive int | Aware int

fun is_aware :: "dt \<Rightarrow> bool" where
  "is_aware (Aware _) = True"
| "is_aware (Naive _) = False"

fun instant :: "dt \<Rightarrow> int" where
  "instant (Aware us) = us"
| "instant (Naive us) = us"

text \<open>Ordering an aware against a naive datetime raises.\<close>

fun dt_gt :: "dt \<Rightarrow> dt \<Rightarrow> bool res" where
  "dt_gt (Aware a) (Aware b) = Inr (b < a)"
| "dt_gt (Naive a) (Naive b) = Inr (b < a)"
| "dt_gt _ _ = Inl TypeError"

definition minute_us :: int where
  "minute_us = 60000000"

definition floor_minute :: "int \<Rightarrow> int" where
  "floor_minute us = us - us mod minute_us"

lemma floor_minute_le: "floor_minute us \<le> us"
  by (simp add: floor_minute_def minute_us_def)

lemma floor_minute_gt: "us < floor_minute us + minute_us"
  using pos_mod_bound [of minute_us us] by (simp add: floor_minute_def minute_us_def)

lemma floor_minute_dvd: "minute_us dvd floor_minute us"
  by (simp add: floor_minute_def minus_mod_eq_mult_div)

lemma floor_minute_idem [simp]: "floor_minute (floor_minute us) = floor_minute us"
  using floor_minute_dvd [of us]
  unfolding floor_minute_def [of "floor_minute us"] by (simp add: dvd_eq_mod_eq_0)

lemma floor_minute_mono: "a \<le> b \<Longrightarrow> floor_minute a \<le> floor_minute b"
  by (simp add: floor_minute_def minus_mod_eq_mult_div zdiv_mono1 minute_us_def)

section \<open>Milliseconds survive the round trip\<close>

text \<open>For every millisecond timestamp between November 2004 and January 2038 the conversion to a
  datetime is exact and converting back with int(ts.timestamp() * 1000) returns it, although
  both go through double precision; outside that range a millisecond can be lost.\<close>

lemma ms_round_trip:
  "(\<forall>ms. 1100000000000 \<le> ms \<and> ms < 2147483648000 \<longrightarrow>
      ts_from_ms ms = Inr (1000 * ms) \<and> ms_of_ts (1000 * ms) = ms) \<and>
   (\<exists>ms. 0 \<le> ms \<and> ms < 1100000000000 \<and> ts_from_ms ms = Inr (1000 * ms) \<and> ms_of_ts (1000 * ms) = ms - 1)"
proof (intro conjI)
  show "\<forall>ms. 1100000000000 \<le> ms \<and> ms < 2147483648000 \<longrightarrow>
      ts_from_ms ms = Inr (1000 * ms) \<and> ms_of_ts (1000 * ms) = ms"
    by (auto simp: ts_from_ms_exact ms_of_ts_exact)
  have "ts_from_ms 1001 = Inr (1000 * 1001)" by (rule ts_from_ms_exact) simp_all
  moreover have "ms_of_ts (1000 * 1001) = 1001 - 1" using ms_of_ts_loss by simp
  ultimately show "\<exists>ms. 0 \<le> ms \<and> ms < 1100000000000 \<and> ts_from_ms ms = Inr (1000 * ms) \<and>
      ms_of_ts (1000 * ms) = ms - 1"
    by (intro exI [of _ 1001]) simp
qed

lemma ms_round_trip_witness: "ms_of_ts (1000 * 1700000000000) = 1700000000000"
proof -
  have "1100000000000 \<le> (1700000000000::int) \<and> (1700000000000::int) < 2147483648000" by simp
  then show ?thesis using ms_round_trip by blast
qed

end
