(* ===== verification/Wire.thy ===== *)
theory Wire
  imports PyTime
begin

text \<open>
  Reading wire values: \<open>Decimal(str(v))\<close>, with the numeric-string grammar of Python's
  decimal constructor, and \<open>ts_from_ms(v)\<close> of src/shortfire/ingest/base.py.
\<close>

section \<open>Decimal(str(v))\<close>

definition is_digit :: "char \<Rightarrow> bool" where
  "is_digit c \<longleftrightarrow> 48 \<le> (of_char c :: nat) \<and> (of_char c :: nat) \<le> 57"

definition is_space :: "char \<Rightarrow> bool" where
  "is_space c \<longleftrightarrow> (of_char c :: nat) \<in> {9, 10, 11, 12, 13, 28, 29, 30, 31, 32}"

definition strip :: "string \<Rightarrow> string" where
  "strip s = rev (dropWhile is_space (rev (dropWhile is_space s)))"

definition to_lower_char :: "char \<Rightarrow> char" where
  "to_lower_char c =
     (if 65 \<le> (of_char c :: nat) \<and> (of_char c :: nat) \<le> 90
      then char_of ((of_char c :: nat) + 32) else c)"

definition to_upper_char :: "char \<Rightarrow> char" where
  "to_upper_char c =
     (if 97 \<le> (of_char c :: nat) \<and> (of_char c :: nat) \<le> 122
      then char_of ((of_char c :: nat) - 32) else c)"

definition digits_val :: "string \<Rightarrow> int" where
  "digits_val s = foldl (\<lambda>n c. 10 * n + (of_char c - 48)) 0 s"

fun split_sign :: "string \<Rightarrow> bool \<times> string" where
  "split_sign (c # s) =
     (if c = CHR ''-'' then (True, s) else if c = CHR ''+'' then (False, s) else (False, c # s))"
| "split_sign [] = (False, [])"

text \<open>The exponent part: absent, or \<open>e\<close> with an optional sign and at least one digit.\<close>

fun parse_exponent :: "string \<Rightarrow> int option" where
  "parse_exponent [] = Some 0"
| "parse_exponent (c # s) =
     (if c = CHR ''e'' then
        (case split_sign s of (neg, ds) \<Rightarrow>
           if ds \<noteq> [] \<and> list_all is_digit ds
           then Some (if neg then - digits_val ds else digits_val ds) else None)
      else None)"

definition parse_number :: "bool \<Rightarrow> string \<Rightarrow> decimal option" where
  "parse_number neg s =
     (let ip = takeWhile is_digit s; r = dropWhile is_digit s;
          (fp, r') = (case r of
                        c # r1 \<Rightarrow> if c = CHR ''.'' then (takeWhile is_digit r1, dropWhile is_digit r1)
                                  else ([], r)
                      | [] \<Rightarrow> ([], []))
      in if ip = [] \<and> fp = [] then None
         else (case parse_exponent r' of
                 None \<Rightarrow> None
               | Some e \<Rightarrow>
                   (let c = digits_val (ip @ fp)
                    in Some (Fin (if neg then - c else c) (e - int (length fp))))))"

definition parse_decimal :: "string \<Rightarrow> decimal option" where
  "parse_decimal s0 =
     (let s1 = map to_lower_char (filter (\<lambda>c. c \<noteq> CHR ''_'') (strip s0));
          (neg, s) = split_sign s1
      in if s = ''inf'' \<or> s = ''infinity'' then Some (Infinity neg)
         else if take 3 s = ''nan'' \<and> list_all is_digit (drop 3 s) then Some NaN
         else if take 4 s = ''snan'' \<and> list_all is_digit (drop 4 s) then Some NaN
         else parse_number neg s)"

text \<open>
  \<open>str(None)\<close>, \<open>str(True)\<close> and the text of a list or dictionary are no numerals: the
  conversion-syntax signal is InvalidOperation, which the default context traps.
\<close>

fun dec_of_wire :: "wire \<Rightarrow> decimal res" where
  "dec_of_wire (WInt i) = Inr (Fin i 0)"
| "dec_of_wire (WFloat d) = Inr d"
| "dec_of_wire (WStr s) =
     (case parse_decimal s of None \<Rightarrow> Inl InvalidOperation | Some d \<Rightarrow> Inr d)"
| "dec_of_wire _ = Inl InvalidOperation"

lemma dec_of_wire_error: "dec_of_wire v = Inl e \<Longrightarrow> e = InvalidOperation"
  by (cases v) (auto split: option.splits)

section \<open>Timestamps\<close>

text \<open>
  \<open>ts_from_ms(v)\<close>: true division needs a number. A boolean is the integer 0 or 1; a
  float is the double its numeral denotes. A datetime out of range is reported as
  ValueError (OverflowError when it exceeds the platform's time_t).
\<close>

fun ts_of_wire :: "wire \<Rightarrow> int res" where
  "ts_of_wire (WInt i) = ts_from_ms i"
| "ts_of_wire (WBool b) = ts_from_ms (if b then 1 else 0)"
| "ts_of_wire (WFloat (Fin c e)) = from_timestamp (fl (fl (dval (Fin c e)) / 1000))"
| "ts_of_wire (WFloat _) = Inl ValueError"
| "ts_of_wire _ = Inl TypeError"

lemma ts_of_wire_int: "0 \<le> ms \<Longrightarrow> ms \<le> 4000000000000 \<Longrightarrow> ts_of_wire (WInt ms) = Inr (1000 * ms)"
  by (simp add: ts_from_ms_exact)

lemma from_timestamp_error: "from_timestamp t = Inl e \<Longrightarrow> e = ValueError"
  by (auto simp: from_timestamp_def Let_def split: if_splits)

lemma ts_of_wire_error: "ts_of_wire v = Inl e \<Longrightarrow> is_Exception e"
  by (cases v rule: ts_of_wire.cases)
    (auto simp: is_Exception_def ts_from_ms_def dest!: from_timestamp_error)

section \<open>Strings\<close>

text \<open>
  \<open>s.replace(old, new)\<close> for a nonempty \<open>old\<close> (left to right, non-overlapping),
  \<open>s.split(sep, 1)\<close> as the text before and after the first separator, and
  \<open>s.rsplit(sep, 1)[-1]\<close>.
\<close>

fun replace_fuel :: "nat \<Rightarrow> string \<Rightarrow> string \<Rightarrow> string \<Rightarrow> string" where
  "replace_fuel 0 old new s = s"
| "replace_fuel (Suc n) old new [] = []"
| "replace_fuel (Suc n) old new (c # s) =
     (if take (length old) (c # s) = old
      then new @ replace_fuel n old new (drop (length old) (c # s))
      else c # replace_fuel n old new s)"

definition str_replace :: "string \<Rightarrow> string \<Rightarrow> string \<Rightarrow> string" where
  "str_replace old new s = replace_fuel (Suc (length s)) old new s"

text \<open>The first occurrence of a separator, and the texts around it.\<close>

fun split1 :: "string \<Rightarrow> string \<Rightarrow> (string \<times> string) option" where
  "split1 sep [] = (if sep = [] then Some ([], []) else None)"
| "split1 sep (c # s) =
     (if take (length sep) (c # s) = sep then Some ([], drop (length sep) (c # s))
      else map_option (\<lambda>(a, b). (c # a, b)) (split1 sep s))"

definition after_last :: "char \<Rightarrow> string \<Rightarrow> string" where
  "after_last c s = rev (takeWhile (\<lambda>x. x \<noteq> c) (rev s))"

lemma split1_Some: "split1 sep s = Some (a, b) \<Longrightarrow> s = a @ sep @ b"
proof (induction s arbitrary: a b)
  case Nil
  then show ?case by (auto split: if_splits)
next
  case (Cons c s)
  show ?case
  proof (cases "take (length sep) (c # s) = sep")
    case True
    with Cons.prems show ?thesis by (auto) (metis append_take_drop_id)
  next
    case False
    with Cons show ?thesis by auto
  qed
qed

lemma split1_char:
  assumes "c \<notin> set a"
  shows "split1 [c] (a @ c # b) = Some (a, b)"
  using assms by (induction a) auto

lemma split1_None_iff_char: "split1 [c] s = None \<longleftrightarrow> c \<notin> set s"
  by (induction s) auto

lemma after_last_append: "c \<notin> set b \<Longrightarrow> after_last c (a @ c # b) = b"
  by (simp add: after_last_def takeWhile_append)

text \<open>\<open>str(n)\<close> of an integer.\<close>

fun show_nat :: "nat \<Rightarrow> string" where
  "show_nat n =
     (if n < 10 then [char_of (48 + n)] else show_nat (n div 10) @ [char_of (48 + n mod 10)])"

declare show_nat.simps [simp del]

definition show_int :: "int \<Rightarrow> string" where
  "show_int i = (if i < 0 then CHR ''-'' # show_nat (nat (- i)) else show_nat (nat i))"

lemma show_nat_digits: "set (show_nat n) \<subseteq> {c. is_digit c}"
proof (induction n rule: show_nat.induct)
  case (1 n)
  have d: "is_digit (char_of (48 + k))" if "k < 10" for k :: nat
    using that by (auto simp: is_digit_def)
  show ?case
    by (subst show_nat.simps) (use 1 d [of n] d [of "n mod 10"] in auto)
qed

lemma show_nat_nonempty: "show_nat n \<noteq> []"
  by (subst show_nat.simps) simp

end
