(* ===== verification/Domain.thy ===== *)
theory Domain
  imports Wire
begin

text \<open>
  src/shortfire/domain: the frozen, strict Pydantic models of market data, trading and
  risk. A constructor is a function that validates every field and every
  model validator in the order the class declares them, and returns the record or
  ValidationError (Pydantic wraps the ValueError of a validator). Pydantic's Decimal
  fields reject NaN and infinities, so an accepted field is finite. Literal fields
  arrive as text and are parsed into datatypes.
\<close>

section \<open>Literal types\<close>

datatype timeframe = TF_1m | TF_5m | TF_15m | TF_1h | TF_4h | TF_1d
datatype source = Mexc_native | Coinglass_aggregate | Coinglass_mexc_only | Coingecko
datatype liquidation_side = Short | Long

fun timeframe_text :: "timeframe \<Rightarrow> string" where
  "timeframe_text TF_1m = ''1m''"
| "timeframe_text TF_5m = ''5m''"
| "timeframe_text TF_15m = ''15m''"
| "timeframe_text TF_1h = ''1h''"
| "timeframe_text TF_4h = ''4h''"
| "timeframe_text TF_1d = ''1d''"

fun source_text :: "source \<Rightarrow> string" where
  "source_text Mexc_native = ''mexc_native''"
| "source_text Coinglass_aggregate = ''coinglass_aggregate''"
| "source_text Coinglass_mexc_only = ''coinglass_mexc_only''"
| "source_text Coingecko = ''coingecko''"

fun side_text :: "liquidation_side \<Rightarrow> string" where
  "side_text Short = ''short''"
| "side_text Long = ''long''"

text \<open>A Literal field accepts exactly the listed texts.\<close>

definition literal :: "('a \<Rightarrow> string) \<Rightarrow> 'a list \<Rightarrow> string \<Rightarrow> 'a res" where
  "literal txt vs s =
     (case find (\<lambda>v. txt v = s) vs of None \<Rightarrow> Inl ValidationError | Some v \<Rightarrow> Inr v)"

definition Timeframe :: "string \<Rightarrow> timeframe res" where
  "Timeframe = literal timeframe_text [TF_1m, TF_5m, TF_15m, TF_1h, TF_4h, TF_1d]"

definition Source :: "string \<Rightarrow> source res" where
  "Source = literal source_text [Mexc_native, Coinglass_aggregate, Coinglass_mexc_only, Coingecko]"

definition LiquidationSide :: "string \<Rightarrow> liquidation_side res" where
  "LiquidationSide = literal side_text [Short, Long]"

lemma literal_sound: "literal txt vs s = Inr v \<Longrightarrow> txt v = s \<and> v \<in> set vs"
  by (auto simp: literal_def find_Some_iff split: option.splits)

lemma Timeframe_text [simp]: "Timeframe (timeframe_text t) = Inr t"
  by (cases t) (simp_all add: Timeframe_def literal_def)

lemma Source_text [simp]: "Source (source_text s) = Inr s"
  by (cases s) (simp_all add: Source_def literal_def)

lemma LiquidationSide_text [simp]: "LiquidationSide (side_text s) = Inr s"
  by (cases s) (simp_all add: LiquidationSide_def literal_def)

section \<open>Field constraints\<close>

definition check :: "bool \<Rightarrow> unit res" where
  "check b = guardE b ValidationError"

definition fin_field :: "decimal \<Rightarrow> unit res" where
  "fin_field d = check (is_finite d)"

text \<open>\<open>Field(ge=b)\<close>, \<open>Field(gt=b)\<close>, \<open>Field(le=b)\<close> on a Decimal field.\<close>

definition ge_field :: "rat \<Rightarrow> decimal \<Rightarrow> unit res" where
  "ge_field b d = check (is_finite d \<and> b \<le> dval d)"

definition gt_field :: "rat \<Rightarrow> decimal \<Rightarrow> unit res" where
  "gt_field b d = check (is_finite d \<and> b < dval d)"

definition le_field :: "rat \<Rightarrow> decimal \<Rightarrow> unit res" where
  "le_field b d = check (is_finite d \<and> dval d \<le> b)"

lemma check_Inr [res_simps]: "check b = Inr u \<longleftrightarrow> b"
  by (simp add: check_def res_simps)

lemma check_Inl [res_simps]: "check b = Inl e \<longleftrightarrow> \<not> b \<and> e = ValidationError"
  by (auto simp: check_def res_simps)

lemma check_True [simp]: "check True = Inr ()"
  by (simp add: check_def guardE_def)

lemmas field_defs = fin_field_def ge_field_def gt_field_def le_field_def

section \<open>market.py\<close>

record candle =
  c_symbol :: string
  c_source :: source
  c_timeframe :: timeframe
  c_ts :: dt
  c_open :: decimal
  c_high :: decimal
  c_low :: decimal
  c_close :: decimal
  c_volume :: decimal

definition Candle ::
  "string \<Rightarrow> string \<Rightarrow> string \<Rightarrow> dt \<Rightarrow> decimal \<Rightarrow> decimal \<Rightarrow> decimal \<Rightarrow> decimal \<Rightarrow> decimal \<Rightarrow> candle res" where
  "Candle sy src tf t op hi lo cl vol =
     bindE (Source src) (\<lambda>s.
     bindE (Timeframe tf) (\<lambda>f.
     bindE (fin_field op) (\<lambda>_.
     bindE (fin_field hi) (\<lambda>_.
     bindE (fin_field lo) (\<lambda>_.
     bindE (fin_field cl) (\<lambda>_.
     bindE (ge_field 0 vol) (\<lambda>_.
     bindE (check (is_aware t)) (\<lambda>_.
     bindE (check (dval lo \<le> dval op \<and> dval lo \<le> dval cl \<and> dval op \<le> dval hi \<and> dval cl \<le> dval hi)) (\<lambda>_.
     Inr \<lparr>c_symbol = sy, c_source = s, c_timeframe = f, c_ts = t, c_open = op, c_high = hi,
          c_low = lo, c_close = cl, c_volume = vol\<rparr>)))))))))"

definition candle_ok :: "candle \<Rightarrow> bool" where
  "candle_ok c \<longleftrightarrow>
     is_aware (c_ts c) \<and>
     list_all is_finite [c_open c, c_high c, c_low c, c_close c, c_volume c] \<and>
     0 \<le> dval (c_volume c) \<and>
     dval (c_low c) \<le> min (dval (c_open c)) (dval (c_close c)) \<and>
     max (dval (c_open c)) (dval (c_close c)) \<le> dval (c_high c)"

lemma Candle_ok: "Candle sy src tf t op hi lo cl vol = Inr c \<Longrightarrow> candle_ok c"
  by (auto simp: Candle_def candle_ok_def field_defs res_simps)

lemma Candle_complete:
  "candle_ok c \<Longrightarrow>
   Candle (c_symbol c) (source_text (c_source c)) (timeframe_text (c_timeframe c)) (c_ts c)
     (c_open c) (c_high c) (c_low c) (c_close c) (c_volume c) = Inr c"
  by (simp add: Candle_def candle_ok_def field_defs)

record level =
  l_price :: decimal
  l_qty :: decimal

definition OrderBookLevel :: "decimal \<Rightarrow> decimal \<Rightarrow> level res" where
  "OrderBookLevel p q =
     bindE (gt_field 0 p) (\<lambda>_. bindE (gt_field 0 q) (\<lambda>_. Inr \<lparr>l_price = p, l_qty = q\<rparr>))"

record order_book =
  b_symbol :: string
  b_source :: source
  b_ts :: dt
  b_bids :: "level list"
  b_asks :: "level list"

text \<open>The loop of \<open>_bids_descending\<close> and \<open>_asks_ascending\<close>: adjacent pairs from index 1.\<close>

fun bids_descending :: "level list \<Rightarrow> bool" where
  "bids_descending (a # b # xs) \<longleftrightarrow> \<not> dval (l_price a) \<le> dval (l_price b) \<and> bids_descending (b # xs)"
| "bids_descending _ \<longleftrightarrow> True"

fun asks_ascending :: "level list \<Rightarrow> bool" where
  "asks_ascending (a # b # xs) \<longleftrightarrow> \<not> dval (l_price b) \<le> dval (l_price a) \<and> asks_ascending (b # xs)"
| "asks_ascending _ \<longleftrightarrow> True"

definition not_crossed :: "level list \<Rightarrow> level list \<Rightarrow> bool" where
  "not_crossed bids asks \<longleftrightarrow>
     (case (bids, asks) of
        (b # _, a # _) \<Rightarrow> \<not> dval (l_price a) \<le> dval (l_price b)
      | _ \<Rightarrow> True)"

definition OrderBook ::
  "string \<Rightarrow> string \<Rightarrow> dt \<Rightarrow> level list \<Rightarrow> level list \<Rightarrow> order_book res" where
  "OrderBook sy src t bids asks =
     bindE (Source src) (\<lambda>s.
     bindE (check (is_aware t)) (\<lambda>_.
     bindE (check (bids_descending bids)) (\<lambda>_.
     bindE (check (asks_ascending asks)) (\<lambda>_.
     bindE (check (not_crossed bids asks)) (\<lambda>_.
     Inr \<lparr>b_symbol = sy, b_source = s, b_ts = t, b_bids = bids, b_asks = asks\<rparr>)))))"

lemma bids_descending_sorted:
  "bids_descending xs \<Longrightarrow> sorted_wrt (\<lambda>a b. dval (l_price b) < dval (l_price a)) xs"
  by (induction xs rule: bids_descending.induct) (auto intro: less_trans)

lemma asks_ascending_sorted:
  "asks_ascending xs \<Longrightarrow> sorted_wrt (\<lambda>a b. dval (l_price a) < dval (l_price b)) xs"
  by (induction xs rule: asks_ascending.induct) (auto intro: less_trans)

lemma bids_descending_best:
  "bids_descending (b # bs) \<Longrightarrow> x \<in> set (b # bs) \<Longrightarrow> dval (l_price x) \<le> dval (l_price b)"
  by (drule bids_descending_sorted) (auto simp: less_imp_le)

lemma asks_ascending_best:
  "asks_ascending (a # as) \<Longrightarrow> x \<in> set (a # as) \<Longrightarrow> dval (l_price a) \<le> dval (l_price x)"
  by (drule asks_ascending_sorted) (auto simp: less_imp_le)

record funding =
  f_symbol :: string
  f_source :: source
  f_published_ts :: dt
  f_settlement_ts :: dt
  f_rate :: decimal
  f_next_funding_ts :: "dt option"

definition Funding ::
  "string \<Rightarrow> string \<Rightarrow> dt \<Rightarrow> dt \<Rightarrow> decimal \<Rightarrow> dt option \<Rightarrow> funding res" where
  "Funding sy src pub settle rt nxt =
     bindE (Source src) (\<lambda>s.
     bindE (fin_field rt) (\<lambda>_.
     bindE (check (is_aware pub)) (\<lambda>_.
     bindE (check (is_aware settle)) (\<lambda>_.
     bindE (check (case nxt of None \<Rightarrow> True | Some n \<Rightarrow> is_aware n)) (\<lambda>_.
     bindE (dt_gt pub settle) (\<lambda>late.
     bindE (check (\<not> late)) (\<lambda>_.
     Inr \<lparr>f_symbol = sy, f_source = s, f_published_ts = pub, f_settlement_ts = settle,
          f_rate = rt, f_next_funding_ts = nxt\<rparr>)))))))"

lemma Funding_ordered:
  "Funding sy src pub settle rt nxt = Inr f \<Longrightarrow>
   is_aware (f_published_ts f) \<and> is_aware (f_settlement_ts f) \<and> is_finite (f_rate f) \<and>
   instant (f_published_ts f) \<le> instant (f_settlement_ts f)"
  by (cases pub; cases settle) (auto simp: Funding_def field_defs res_simps)

record liquidation =
  q_symbol :: string
  q_source :: source
  q_ts :: dt
  q_side :: liquidation_side
  q_qty :: decimal
  q_price :: decimal

definition Liquidation ::
  "string \<Rightarrow> string \<Rightarrow> dt \<Rightarrow> string \<Rightarrow> decimal \<Rightarrow> decimal \<Rightarrow> liquidation res" where
  "Liquidation sy src t sd q p =
     bindE (Source src) (\<lambda>s.
     bindE (LiquidationSide sd) (\<lambda>d.
     bindE (gt_field 0 q) (\<lambda>_.
     bindE (gt_field 0 p) (\<lambda>_.
     bindE (check (is_aware t)) (\<lambda>_.
     Inr \<lparr>q_symbol = sy, q_source = s, q_ts = t, q_side = d, q_qty = q, q_price = p\<rparr>)))))"

section \<open>trading.py\<close>

datatype signal_kind = Pump_short | Trend_long
datatype order_intent = Open | Close
datatype order_type = Market | Limit

record signal =
  s_symbol :: string
  s_side :: liquidation_side
  s_kind :: signal_kind
  s_ts :: dt
  s_confidence :: decimal
  s_shap_top :: "(string \<times> decimal) list"

definition Signal ::
  "string \<Rightarrow> liquidation_side \<Rightarrow> signal_kind \<Rightarrow> dt \<Rightarrow> decimal \<Rightarrow> (string \<times> decimal) list \<Rightarrow> signal res" where
  "Signal sy sd k t conf shap =
     bindE (ge_field 0 conf) (\<lambda>_.
     bindE (le_field 1 conf) (\<lambda>_.
     bindE (check (list_all (\<lambda>(_, d). is_finite d) shap)) (\<lambda>_.
     bindE (check (is_aware t)) (\<lambda>_.
     Inr \<lparr>s_symbol = sy, s_side = sd, s_kind = k, s_ts = t, s_confidence = conf,
          s_shap_top = shap\<rparr>))))"

record order =
  o_client_order_id :: string
  o_symbol :: string
  o_intent :: order_intent
  o_side :: liquidation_side
  o_type :: order_type
  o_quantity :: decimal
  o_price :: "decimal option"
  o_reduce_only :: bool
  o_ts :: dt

definition Order ::
  "string \<Rightarrow> string \<Rightarrow> order_intent \<Rightarrow> liquidation_side \<Rightarrow> order_type \<Rightarrow> decimal \<Rightarrow> decimal option
   \<Rightarrow> bool \<Rightarrow> dt \<Rightarrow> order res" where
  "Order cid sy i sd ty q p ro t =
     bindE (gt_field 0 q) (\<lambda>_.
     bindE (check (case p of None \<Rightarrow> True | Some d \<Rightarrow> is_finite d)) (\<lambda>_.
     bindE (check (is_aware t)) (\<lambda>_.
     bindE (check (\<not> (i = Close \<and> \<not> ro))) (\<lambda>_.
     Inr \<lparr>o_client_order_id = cid, o_symbol = sy, o_intent = i, o_side = sd, o_type = ty,
          o_quantity = q, o_price = p, o_reduce_only = ro, o_ts = t\<rparr>))))"

record position =
  p_symbol :: string
  p_side :: liquidation_side
  p_qty :: decimal
  p_avg_entry_price :: decimal
  p_realized_pnl :: decimal
  p_unrealized_pnl :: decimal
  p_opened_ts :: dt
  p_last_update_ts :: dt

definition Position ::
  "string \<Rightarrow> liquidation_side \<Rightarrow> decimal \<Rightarrow> decimal \<Rightarrow> decimal \<Rightarrow> decimal \<Rightarrow> dt \<Rightarrow> dt \<Rightarrow> position res" where
  "Position sy sd q avg rpnl upnl opened upd =
     bindE (ge_field 0 q) (\<lambda>_.
     bindE (ge_field 0 avg) (\<lambda>_.
     bindE (fin_field rpnl) (\<lambda>_.
     bindE (fin_field upnl) (\<lambda>_.
     bindE (check (is_aware opened)) (\<lambda>_.
     bindE (check (is_aware upd)) (\<lambda>_.
     Inr \<lparr>p_symbol = sy, p_side = sd, p_qty = q, p_avg_entry_price = avg,
          p_realized_pnl = rpnl, p_unrealized_pnl = upnl, p_opened_ts = opened,
          p_last_update_ts = upd\<rparr>))))))"

section \<open>risk.py\<close>

record risk_limits =
  r_max_per_trade_pct :: decimal
  r_max_gross_exposure_pct :: decimal
  r_kelly_fraction :: decimal
  r_max_concurrent_positions :: int
  r_daily_loss_limit_pct :: decimal

definition cap_field :: "rat \<Rightarrow> decimal \<Rightarrow> unit res" where
  "cap_field b d = bindE (gt_field 0 d) (\<lambda>_. le_field b d)"

definition RiskLimits ::
  "decimal \<Rightarrow> decimal \<Rightarrow> decimal \<Rightarrow> int \<Rightarrow> decimal \<Rightarrow> risk_limits res" where
  "RiskLimits per_trade gross kelly n loss =
     bindE (cap_field (5 / 100) per_trade) (\<lambda>_.
     bindE (cap_field (15 / 100) gross) (\<lambda>_.
     bindE (cap_field (25 / 100) kelly) (\<lambda>_.
     bindE (check (1 \<le> n \<and> n \<le> 20)) (\<lambda>_.
     bindE (cap_field (10 / 100) loss) (\<lambda>_.
     Inr \<lparr>r_max_per_trade_pct = per_trade, r_max_gross_exposure_pct = gross,
          r_kelly_fraction = kelly, r_max_concurrent_positions = n,
          r_daily_loss_limit_pct = loss\<rparr>)))))"

section \<open>What an accepted object guarantees\<close>

text \<open>C24: A constructed order book is never crossed, not only at the top: every bid is below every
  ask, bids strictly fall and asks strictly rise, and its timestamp is timezone-aware.\<close>

theorem order_book_uncrossed:
  assumes "OrderBook sy src t bids asks = Inr b"
  shows "(\<forall>x\<in>set (b_bids b). \<forall>y\<in>set (b_asks b). dval (l_price x) < dval (l_price y)) \<and>
    sorted_wrt (\<lambda>x y. dval (l_price y) < dval (l_price x)) (b_bids b) \<and>
    sorted_wrt (\<lambda>x y. dval (l_price x) < dval (l_price y)) (b_asks b) \<and> is_aware (b_ts b)"
proof -
  have b: "b_bids b = bids" "b_asks b = asks" "is_aware (b_ts b)" "bids_descending bids"
    "asks_ascending asks" "not_crossed bids asks"
    using assms by (auto simp: OrderBook_def res_simps)
  have "dval (l_price x) < dval (l_price y)" if x: "x \<in> set bids" and y: "y \<in> set asks" for x y
  proof -
    obtain x0 xs y0 ys where c: "bids = x0 # xs" "asks = y0 # ys"
      using x y by (cases bids; cases asks) auto
    have "dval (l_price x) \<le> dval (l_price x0)" "dval (l_price y0) \<le> dval (l_price y)"
      using bids_descending_best asks_ascending_best b(4,5) x y c by blast+
    then show ?thesis using b(6) c by (simp add: not_crossed_def)
  qed
  then show ?thesis using b bids_descending_sorted asks_ascending_sorted by auto
qed

lemma order_book_uncrossed_witness:
  "\<exists>b. OrderBook ''BTC'' ''mexc_native'' (Aware 0) [\<lparr>l_price = Fin 10 0, l_qty = Fin 1 0\<rparr>]
      [\<lparr>l_price = Fin 11 0, l_qty = Fin 1 0\<rparr>] = Inr b \<and>
    (\<forall>x\<in>set (b_bids b). \<forall>y\<in>set (b_asks b). dval (l_price x) < dval (l_price y))"
proof -
  have "OrderBook ''BTC'' ''mexc_native'' (Aware 0) [\<lparr>l_price = Fin 10 0, l_qty = Fin 1 0\<rparr>]
      [\<lparr>l_price = Fin 11 0, l_qty = Fin 1 0\<rparr>] =
    Inr \<lparr>b_symbol = ''BTC'', b_source = Mexc_native, b_ts = Aware 0,
         b_bids = [\<lparr>l_price = Fin 10 0, l_qty = Fin 1 0\<rparr>], b_asks = [\<lparr>l_price = Fin 11 0, l_qty = Fin 1 0\<rparr>]\<rparr>"
    by (simp add: OrderBook_def Source_def literal_def not_crossed_def pow10_def)
  from order_book_uncrossed [OF this] this show ?thesis by blast
qed

text \<open>A candle is accepted exactly when source and timeframe are known, the timestamp is
  timezone-aware, all five numbers are finite, the volume is not negative, and low is at most
  and high at least both open and close.\<close>

theorem candle_accepted_iff:
  "(\<exists>c. Candle sy src tf t op hi lo cl vol = Inr c) \<longleftrightarrow>
     src \<in> {''mexc_native'', ''coinglass_aggregate'', ''coinglass_mexc_only'', ''coingecko''} \<and>
     tf \<in> {''1m'', ''5m'', ''15m'', ''1h'', ''4h'', ''1d''} \<and> is_aware t \<and>
     list_all is_finite [op, hi, lo, cl, vol] \<and> 0 \<le> dval vol \<and>
     dval lo \<le> min (dval op) (dval cl) \<and> max (dval op) (dval cl) \<le> dval hi"
  (is "_ \<longleftrightarrow> _ \<in> ?S \<and> _ \<in> ?T \<and> ?rest")
proof -
  have src: "(\<exists>s. Source src = Inr s) \<longleftrightarrow> src \<in> ?S"
    by (auto simp: Source_def literal_def)
  have tf: "(\<exists>f. Timeframe tf = Inr f) \<longleftrightarrow> tf \<in> ?T"
    by (auto simp: Timeframe_def literal_def)
  have rest: "?rest \<longleftrightarrow> is_finite op \<and> is_finite hi \<and> is_finite lo \<and> is_finite cl \<and> (is_finite vol \<and> 0 \<le> dval vol) \<and>
     is_aware t \<and> (dval lo \<le> dval op \<and> dval lo \<le> dval cl \<and> dval op \<le> dval hi \<and> dval cl \<le> dval hi)"
    by auto
  show ?thesis
    unfolding src [symmetric] tf [symmetric] rest unfolding Candle_def field_defs
    by (cases "Source src"; cases "Timeframe tf") (simp_all add: res_simps)
qed

text \<open>Risk limits cannot be constructed beyond the hard caps: five percent per trade, fifteen gross,
  a quarter Kelly, ten daily loss, one to twenty positions; within them every choice is accepted.\<close>

theorem risk_limits_capped:
  "(\<exists>r. RiskLimits a b k n l = Inr r) \<longleftrightarrow>
     list_all is_finite [a, b, k, l] \<and> 0 < dval a \<and> dval a \<le> 5 / 100 \<and> 0 < dval b \<and> dval b \<le> 15 / 100 \<and>
     0 < dval k \<and> dval k \<le> 25 / 100 \<and> 1 \<le> n \<and> n \<le> 20 \<and> 0 < dval l \<and> dval l \<le> 10 / 100"
  unfolding RiskLimits_def cap_field_def field_defs
  by (simp only: res_simps ex_simps simp_thms list.pred_inject) blast

text \<open>An accepted order that closes a position is reduce-only, has a positive finite quantity, and
  no closing order without the reduce-only flag can be constructed.\<close>

theorem close_orders_reduce_only:
  "(Order cid sy i sd ty q p ro t = Inr ord \<longrightarrow>
      (o_intent ord = Close \<longrightarrow> o_reduce_only ord) \<and> is_finite (o_quantity ord) \<and> 0 < dval (o_quantity ord)) \<and>
   Order cid sy Close sd ty q p False t = Inl ValidationError"
  by (auto simp: Order_def field_defs check_def guardE_def split: if_splits)

lemma close_orders_reduce_only_witness:
  "\<exists>ord. Order ''c1'' ''BTC'' Close Short Market (Fin 1 0) None True (Aware 0) = Inr ord \<and> o_reduce_only ord"
proof -
  have o: "Order ''c1'' ''BTC'' Close Short Market (Fin 1 0) None True (Aware 0) =
    Inr \<lparr>o_client_order_id = ''c1'', o_symbol = ''BTC'', o_intent = Close, o_side = Short, o_type = Market,
      o_quantity = Fin 1 0, o_price = None, o_reduce_only = True, o_ts = Aware 0\<rparr>"
    by (simp add: Order_def field_defs)
  then show ?thesis
    using close_orders_reduce_only [of "''c1''" "''BTC''" Close Short Market "Fin 1 0" None True "Aware 0"]
    by auto
qed

end
