(* ===== verification/Minute_Aggregator.thy ===== *)
theory Minute_Aggregator
  imports Domain
begin

text \<open>
  The class MinuteAggregator of src/shortfire/ingest/mexc/live_candles.py and the proof that
  it computes, for every symbol, the candles of the maximal runs of trades of one minute.
\<close>

record partial =
  pb_ts :: int
  pb_open :: decimal
  pb_high :: decimal
  pb_low :: decimal
  pb_close :: decimal
  pb_volume :: decimal

type_synonym 'k aggregator = "'k \<rightharpoonup> partial"

definition new_partial :: "int \<Rightarrow> decimal \<Rightarrow> decimal \<Rightarrow> partial" where
  "new_partial bucket price qty =
     \<lparr>pb_ts = bucket, pb_open = price, pb_high = price, pb_low = price, pb_close = price,
      pb_volume = qty\<rparr>"

definition on_trade ::
  "'k aggregator \<Rightarrow> 'k \<Rightarrow> int \<Rightarrow> decimal \<Rightarrow> decimal \<Rightarrow> ('k aggregator \<times> partial option) res" where
  "on_trade agg symbol ts price qty =
     (let bucket_ts = floor_minute ts in
      case agg symbol of
        None \<Rightarrow> Inr (agg(symbol \<mapsto> new_partial bucket_ts price qty), None)
      | Some cur \<Rightarrow>
          if bucket_ts \<noteq> pb_ts cur
          then Inr (agg(symbol \<mapsto> new_partial bucket_ts price qty), Some cur)
          else
            bindE (dec_gt price (pb_high cur)) (\<lambda>above.
            bindE (dec_lt price (pb_low cur)) (\<lambda>below.
            bindE (dec_add (pb_volume cur) qty) (\<lambda>volume.
            Inr (agg(symbol \<mapsto>
                  \<lparr>pb_ts = pb_ts cur, pb_open = pb_open cur,
                   pb_high = (if above then price else pb_high cur),
                   pb_low = (if below then price else pb_low cur),
                   pb_close = price, pb_volume = volume\<rparr>), None)))))"

section \<open>Feeding a tape\<close>

record 'k trade =
  tr_symbol :: 'k
  tr_ts :: int
  tr_price :: decimal
  tr_qty :: decimal

definition feed_step ::
  "'k aggregator \<times> ('k \<times> partial) list \<Rightarrow> 'k trade \<Rightarrow> ('k aggregator \<times> ('k \<times> partial) list) res" where
  "feed_step s t =
     bindE (on_trade (fst s) (tr_symbol t) (tr_ts t) (tr_price t) (tr_qty t)) (\<lambda>(agg, fin).
       Inr (agg, snd s @ (case fin of None \<Rightarrow> [] | Some p \<Rightarrow> [(tr_symbol t, p)])))"

definition feed :: "'k trade list \<Rightarrow> ('k aggregator \<times> ('k \<times> partial) list) res" where
  "feed ts = foldE feed_step (Map.empty, []) ts"

section \<open>The specification\<close>

text \<open>Adjacent elements with the same key, grouped.\<close>

fun runs :: "('a \<Rightarrow> 'b) \<Rightarrow> 'a list \<Rightarrow> 'a list list" where
  "runs key [] = []"
| "runs key (x # xs) =
     (case runs key xs of
        [] \<Rightarrow> [[x]]
      | g # gs \<Rightarrow> if key x = key (hd g) then (x # g) # gs else [x] # g # gs)"

definition highest :: "decimal \<Rightarrow> decimal list \<Rightarrow> decimal" where
  "highest p ps = foldl (\<lambda>h p. if dval h < dval p then p else h) p ps"

definition lowest :: "decimal \<Rightarrow> decimal list \<Rightarrow> decimal" where
  "lowest p ps = foldl (\<lambda>l p. if dval p < dval l then p else l) p ps"

definition volume_sum :: "decimal \<Rightarrow> decimal list \<Rightarrow> decimal" where
  "volume_sum q qs = foldl (\<lambda>v q. case dec_add v q of Inl _ \<Rightarrow> v | Inr r \<Rightarrow> r) q qs"

definition candle_spec :: "'k trade list \<Rightarrow> partial" where
  "candle_spec ts =
     (let prices = map tr_price ts; qtys = map tr_qty ts in
      \<lparr>pb_ts = floor_minute (tr_ts (hd ts)), pb_open = hd prices,
       pb_high = highest (hd prices) (tl prices), pb_low = lowest (hd prices) (tl prices),
       pb_close = last prices, pb_volume = volume_sum (hd qtys) (tl qtys)\<rparr>)"

definition trades_of :: "'k \<Rightarrow> 'k trade list \<Rightarrow> 'k trade list" where
  "trades_of s ts = filter (\<lambda>t. tr_symbol t = s) ts"

definition minute_runs :: "'k \<Rightarrow> 'k trade list \<Rightarrow> 'k trade list list" where
  "minute_runs s ts = runs (\<lambda>t. floor_minute (tr_ts t)) (trades_of s ts)"

definition finite_trade :: "'k trade \<Rightarrow> bool" where
  "finite_trade t \<longleftrightarrow> is_finite (tr_price t) \<and> is_finite (tr_qty t)"

section \<open>Runs\<close>

lemma runs_eq_Nil [simp]: "runs key xs = [] \<longleftrightarrow> xs = []"
  by (cases xs) (auto split: list.splits)

lemma runs_nonempty: "g \<in> set (runs key xs) \<Longrightarrow> g \<noteq> []"
  by (induction xs arbitrary: g) (auto split: list.splits if_splits)

lemma concat_runs: "concat (runs key xs) = xs"
proof (induction xs)
  case (Cons x xs)
  then show ?case by (auto split: list.splits)
qed simp

lemma runs_same_key: "g \<in> set (runs key xs) \<Longrightarrow> x \<in> set g \<Longrightarrow> key x = key (hd g)"
proof (induction xs arbitrary: g x)
  case (Cons y ys)
  show ?case
  proof (cases "runs key ys")
    case Nil
    with Cons show ?thesis by auto
  next
    case (Cons h hs)
    have h: "\<And>z. z \<in> set h \<Longrightarrow> key z = key (hd h)"
      using Cons.IH [of h] Cons by auto
    show ?thesis
      using Cons.prems Cons Cons.IH [of g x] h by (auto split: if_splits)
  qed
qed simp

lemma runs_snoc:
  "runs key (xs @ [x]) =
     (if xs \<noteq> [] \<and> key x = key (last xs)
      then butlast (runs key xs) @ [last (runs key xs) @ [x]] else runs key xs @ [[x]])"
proof (induction xs)
  case Nil
  then show ?case by simp
next
  case (Cons y ys)
  show ?case
  proof (cases "runs key ys")
    case Nil
    then show ?thesis by simp
  next
    case (Cons g gs)
    then have ys: "ys \<noteq> []" by auto
    have g: "g \<noteq> []" using Cons runs_nonempty [of g key ys] by simp
    show ?thesis using Cons.IH ys g Cons by (cases gs) auto
  qed
qed

lemma last_runs: "xs \<noteq> [] \<Longrightarrow> last (last (runs key xs)) = last xs"
proof (induction xs rule: rev_induct)
  case (snoc x xs)
  then show ?case by (auto simp: runs_snoc)
qed simp

section \<open>One step\<close>

lemma highest_snoc: "highest p (ps @ [q]) = (if dval (highest p ps) < dval q then q else highest p ps)"
  by (simp add: highest_def)

lemma lowest_snoc: "lowest p (ps @ [q]) = (if dval q < dval (lowest p ps) then q else lowest p ps)"
  by (simp add: lowest_def)

lemma volume_snoc:
  "volume_sum q (qs @ [r]) = (case dec_add (volume_sum q qs) r of Inl _ \<Rightarrow> volume_sum q qs | Inr v \<Rightarrow> v)"
  by (simp add: volume_sum_def split: sum.split)

lemma highest_in: "highest p ps \<in> set (p # ps)"
  by (induction ps rule: rev_induct) (auto simp: highest_snoc, simp add: highest_def)

lemma lowest_in: "lowest p ps \<in> set (p # ps)"
  by (induction ps rule: rev_induct) (auto simp: lowest_snoc, simp add: lowest_def)

lemma highest_max: "q \<in> set (p # ps) \<Longrightarrow> dval q \<le> dval (highest p ps)"
  by (induction ps rule: rev_induct) (auto simp: highest_snoc intro: order_trans, simp add: highest_def)

lemma lowest_min: "q \<in> set (p # ps) \<Longrightarrow> dval (lowest p ps) \<le> dval q"
  by (induction ps rule: rev_induct) (auto simp: lowest_snoc intro: order_trans, simp add: lowest_def)

lemma volume_finite: "\<forall>q\<in>set (p # qs). is_finite q \<Longrightarrow> is_finite (volume_sum p qs)"
proof (induction qs rule: rev_induct)
  case (snoc q qs)
  then obtain r where "dec_add (volume_sum p qs) q = Inr r" "is_finite r"
    using dec_add_finite [of "volume_sum p qs" q] by auto
  then show ?case by (simp add: volume_snoc)
qed (simp add: volume_sum_def)

lemma volume_nonneg:
  "\<forall>q\<in>set (p # qs). is_finite q \<and> 0 \<le> dval q \<Longrightarrow> is_finite (volume_sum p qs) \<and> 0 \<le> dval (volume_sum p qs)"
proof (induction qs rule: rev_induct)
  case (snoc q qs)
  then have IH: "is_finite (volume_sum p qs)" "0 \<le> dval (volume_sum p qs)" "is_finite q" "0 \<le> dval q" by auto
  obtain r where r: "dec_add (volume_sum p qs) q = Inr r" using dec_add_finite IH by blast
  then show ?case using dec_add_nonneg [OF IH(1,3,2,4) r] by (simp add: volume_snoc)
qed (simp add: volume_sum_def)

lemma dec_lt_fin: "is_finite a \<Longrightarrow> is_finite b \<Longrightarrow> dec_lt a b = Inr (dval a < dval b)"
  by (cases a; cases b) auto

lemma dec_gt_fin: "is_finite a \<Longrightarrow> is_finite b \<Longrightarrow> dec_gt a b = Inr (dval b < dval a)"
  by (cases a; cases b) (auto simp: dec_gt_def)

lemma candle_spec_finite:
  assumes "g \<noteq> []" "\<forall>t\<in>set g. finite_trade t"
  shows "is_finite (pb_high (candle_spec g))" "is_finite (pb_low (candle_spec g))"
    "is_finite (pb_volume (candle_spec g))"
  using assms highest_in [of "tr_price (hd g)" "map tr_price (tl g)"]
    lowest_in [of "tr_price (hd g)" "map tr_price (tl g)"]
    volume_finite [of "tr_qty (hd g)" "map tr_qty (tl g)"]
  by (cases g; auto simp: candle_spec_def finite_trade_def)+

text \<open>A trade of the open minute extends the open candle by exactly this trade.\<close>

lemma on_trade_same_minute:
  assumes "agg s = Some (candle_spec g)" "g \<noteq> []" "\<forall>t\<in>set g. finite_trade t" "finite_trade t"
    and "floor_minute (tr_ts t) = floor_minute (tr_ts (hd g))"
  shows "on_trade agg s (tr_ts t) (tr_price t) (tr_qty t) =
    Inr (agg(s \<mapsto> candle_spec (g @ [t])), None)"
proof -
  note fin = candle_spec_finite [OF assms(2,3)]
  have t: "is_finite (tr_price t)" "is_finite (tr_qty t)" using assms(4) by (auto simp: finite_trade_def)
  obtain v where v: "dec_add (pb_volume (candle_spec g)) (tr_qty t) = Inr v"
    using dec_add_finite fin(3) t(2) by blast
  have ts: "floor_minute (tr_ts t) = pb_ts (candle_spec g)" using assms(5) by (simp add: candle_spec_def Let_def)
  show ?thesis
    using assms(1) fin t v ts assms(2)
    by (cases g) (auto simp: on_trade_def Let_def dec_gt_fin dec_lt_fin candle_spec_def highest_snoc lowest_snoc
        volume_snoc)
qed

lemma candle_spec_single: "candle_spec [t] = new_partial (floor_minute (tr_ts t)) (tr_price t) (tr_qty t)"
  by (simp add: candle_spec_def new_partial_def highest_def lowest_def volume_sum_def)

section \<open>The whole tape\<close>

definition agg_spec :: "'k trade list \<Rightarrow> 'k aggregator" where
  "agg_spec ts s = (if trades_of s ts = [] then None else Some (candle_spec (last (minute_runs s ts))))"

definition emitted :: "'k \<Rightarrow> ('k \<times> partial) list \<Rightarrow> partial list" where
  "emitted s out = map snd (filter (\<lambda>p. fst p = s) out)"

lemma trades_of_snoc: "trades_of s (ts @ [t]) = trades_of s ts @ (if tr_symbol t = s then [t] else [])"
  by (simp add: trades_of_def)

lemma minute_runs_other: "tr_symbol t \<noteq> s \<Longrightarrow> minute_runs s (ts @ [t]) = minute_runs s ts"
  by (simp add: minute_runs_def trades_of_snoc)

lemma last_minute_run:
  assumes "trades_of s ts \<noteq> []"
  shows "last (minute_runs s ts) \<noteq> []"
    "floor_minute (tr_ts (hd (last (minute_runs s ts)))) = floor_minute (tr_ts (last (trades_of s ts)))"
    "set (last (minute_runs s ts)) \<subseteq> set ts"
proof -
  let ?k = "\<lambda>t. floor_minute (tr_ts t)" and ?xs = "trades_of s ts"
  have in_runs: "last (runs ?k ?xs) \<in> set (runs ?k ?xs)" using assms by (intro last_in_set) simp
  show ne: "last (minute_runs s ts) \<noteq> []"
    using runs_nonempty [OF in_runs] by (simp add: minute_runs_def)
  show "?k (hd (last (minute_runs s ts))) = ?k (last ?xs)"
    using runs_same_key [OF in_runs last_in_set] last_runs [OF assms, of ?k] ne
    by (simp add: minute_runs_def)
  have "set (last (runs ?k ?xs)) \<subseteq> set (concat (runs ?k ?xs))" using in_runs by auto
  then show "set (last (minute_runs s ts)) \<subseteq> set ts"
    unfolding concat_runs by (auto simp: minute_runs_def trades_of_def)
qed

text \<open>One trade extends the specification of the tape by that trade.\<close>

lemma feed_extends:
  assumes "\<forall>u\<in>set ts. finite_trade u" "finite_trade t"
  shows "\<exists>fin. on_trade (agg_spec ts) (tr_symbol t) (tr_ts t) (tr_price t) (tr_qty t) = Inr (agg_spec (ts @ [t]), fin) \<and>
    map candle_spec (butlast (minute_runs (tr_symbol t) (ts @ [t]))) =
    map candle_spec (butlast (minute_runs (tr_symbol t) ts)) @ (case fin of None \<Rightarrow> [] | Some p \<Rightarrow> [p])"
proof -
  let ?s = "tr_symbol t"
  let ?step = "on_trade (agg_spec ts) ?s (tr_ts t) (tr_price t) (tr_qty t)"
  have other: "agg_spec (ts @ [t]) s = agg_spec ts s" if "s \<noteq> ?s" for s
    using that by (simp add: agg_spec_def trades_of_snoc minute_runs_other)
  consider (first) "trades_of ?s ts = []"
    | (same) "trades_of ?s ts \<noteq> []" "floor_minute (tr_ts t) = floor_minute (tr_ts (last (trades_of ?s ts)))"
    | (next_minute) "trades_of ?s ts \<noteq> []"
        "floor_minute (tr_ts t) \<noteq> floor_minute (tr_ts (last (trades_of ?s ts)))" by blast
  then show ?thesis
  proof cases
    case first
    then have r: "minute_runs ?s (ts @ [t]) = [[t]]" "minute_runs ?s ts = []"
      by (simp_all add: minute_runs_def trades_of_snoc)
    have "agg_spec (ts @ [t]) = (agg_spec ts)(?s \<mapsto> candle_spec [t])"
      using other r by (auto simp: fun_eq_iff agg_spec_def trades_of_snoc)
    then show ?thesis using first r
      by (simp add: on_trade_def agg_spec_def candle_spec_single)
  next
    case same
    let ?g = "last (minute_runs ?s ts)"
    have r: "minute_runs ?s (ts @ [t]) = butlast (minute_runs ?s ts) @ [?g @ [t]]"
      using same by (simp add: minute_runs_def trades_of_snoc runs_snoc)
    have "agg_spec (ts @ [t]) = (agg_spec ts)(?s \<mapsto> candle_spec (?g @ [t]))"
      using other r by (auto simp: fun_eq_iff agg_spec_def trades_of_snoc)
    moreover have "?step = Inr ((agg_spec ts)(?s \<mapsto> candle_spec (?g @ [t])), None)"
      using same last_minute_run [OF same(1)] assms
      by (intro on_trade_same_minute) (auto simp: agg_spec_def)
    ultimately show ?thesis by (simp add: r)
  next
    case next_minute
    let ?g = "last (minute_runs ?s ts)"
    have r: "minute_runs ?s (ts @ [t]) = minute_runs ?s ts @ [[t]]"
      using next_minute by (simp add: minute_runs_def trades_of_snoc runs_snoc)
    have ne: "minute_runs ?s ts \<noteq> []" using next_minute by (simp add: minute_runs_def)
    have "agg_spec (ts @ [t]) = (agg_spec ts)(?s \<mapsto> candle_spec [t])"
      using other r by (auto simp: fun_eq_iff agg_spec_def trades_of_snoc)
    moreover have "?step = Inr ((agg_spec ts)(?s \<mapsto> candle_spec [t]), Some (candle_spec ?g))"
      using next_minute last_minute_run(2) [OF next_minute(1)]
      by (simp add: on_trade_def agg_spec_def candle_spec_single) (simp add: candle_spec_def Let_def)
    moreover have "map candle_spec (minute_runs ?s ts) =
        map candle_spec (butlast (minute_runs ?s ts)) @ [candle_spec ?g]"
      using ne by (metis append_butlast_last_id list.simps(8) list.simps(9) map_append)
    ultimately show ?thesis by (simp add: r)
  qed
qed

lemma feed_refines:
  assumes "\<forall>t\<in>set ts. finite_trade t"
  shows "\<exists>out. feed ts = Inr (agg_spec ts, out) \<and>
    (\<forall>s. emitted s out = map candle_spec (butlast (minute_runs s ts)))"
  using assms
proof (induction ts rule: rev_induct)
  case Nil
  then show ?case
    by (auto simp: feed_def agg_spec_def trades_of_def emitted_def minute_runs_def)
next
  case (snoc t ts)
  then obtain out where IH: "feed ts = Inr (agg_spec ts, out)"
    "\<And>s. emitted s out = map candle_spec (butlast (minute_runs s ts))" by auto
  let ?s = "tr_symbol t"
  let ?step = "on_trade (agg_spec ts) ?s (tr_ts t) (tr_price t) (tr_qty t)"
  have feed: "feed (ts @ [t]) = feed_step (agg_spec ts, out) t"
    using IH(1) by (cases "feed_step (agg_spec ts, out) t") (auto simp: feed_def foldE_append)
  obtain fin where fin: "?step = Inr (agg_spec (ts @ [t]), fin)"
    "map candle_spec (butlast (minute_runs ?s (ts @ [t]))) =
      map candle_spec (butlast (minute_runs ?s ts)) @ (case fin of None \<Rightarrow> [] | Some p \<Rightarrow> [p])"
    using feed_extends [of ts t] snoc.prems by auto
  have "emitted s (out @ (case fin of None \<Rightarrow> [] | Some p \<Rightarrow> [(?s, p)])) =
      map candle_spec (butlast (minute_runs s (ts @ [t])))" for s
    using IH(2) [of s] fin(2)
    by (cases "s = ?s") (auto simp: emitted_def minute_runs_other split: option.splits)
  then show ?case using feed fin(1) by (simp add: feed_step_def)
qed

text \<open>C2: Fed any tape of finite trades, the aggregator never raises; for every symbol it emits, in
  order, the candle of each completed run of that symbol's trades within one minute (open the
  first price, high and low the extremes, close the last price, volume the sum), and keeps the
  candle of the last run as its partial bucket, untouched by the trades of other symbols.\<close>

theorem aggregator_refines_spec:
  assumes "\<forall>t\<in>set ts. is_finite (tr_price t) \<and> is_finite (tr_qty t)"
  shows "\<exists>agg out. feed ts = Inr (agg, out) \<and>
    (\<forall>s. emitted s out = map candle_spec (butlast (minute_runs s ts)) \<and>
         agg s = (if trades_of s ts = [] then None else Some (candle_spec (last (minute_runs s ts)))) \<and>
         concat (minute_runs s ts) = trades_of s ts)"
  using feed_refines [of ts] assms
  by (fastforce simp: finite_trade_def agg_spec_def minute_runs_def concat_runs)

definition sample_tape :: "string trade list" where
  "sample_tape =
    [\<lparr>tr_symbol = ''A'', tr_ts = 0, tr_price = Fin 10 0, tr_qty = Fin 1 0\<rparr>,
     \<lparr>tr_symbol = ''A'', tr_ts = 30000000, tr_price = Fin 12 0, tr_qty = Fin 2 0\<rparr>,
     \<lparr>tr_symbol = ''A'', tr_ts = 61000000, tr_price = Fin 9 0, tr_qty = Fin 1 0\<rparr>]"

lemma aggregator_refines_spec_witness:
  "\<exists>agg out. feed sample_tape = Inr (agg, out) \<and> emitted ''B'' out = [] \<and> agg ''B'' = None"
proof -
  have "\<forall>t\<in>set sample_tape. is_finite (tr_price t) \<and> is_finite (tr_qty t)"
    by (simp add: sample_tape_def)
  from aggregator_refines_spec [OF this] obtain agg out where
    "feed sample_tape = Inr (agg, out)"
    "emitted ''B'' out = map candle_spec (butlast (minute_runs ''B'' sample_tape))"
    "agg ''B'' = (if trades_of ''B'' sample_tape = [] then None
      else Some (candle_spec (last (minute_runs ''B'' sample_tape))))" by blast
  then show ?thesis by (simp add: minute_runs_def trades_of_def sample_tape_def)
qed

lemma sample_tape_candle:
  "feed sample_tape =
     Inr ([''A'' \<mapsto> new_partial 60000000 (Fin 9 0) (Fin 1 0)],
       [(''A'', \<lparr>pb_ts = 0, pb_open = Fin 10 0, pb_high = Fin 12 0, pb_low = Fin 10 0,
          pb_close = Fin 12 0, pb_volume = Fin 3 0\<rparr>)])"
proof -
  have "floor_minute 0 = 0" "floor_minute 30000000 = 0" "floor_minute 61000000 = 60000000"
    by (simp_all add: floor_minute_def minute_us_def)
  moreover have "ndigits 3 \<le> prec" by (simp add: ndigits_def prec_def floorlog_def)
  ultimately show ?thesis
    by (simp add: feed_def feed_step_def sample_tape_def on_trade_def new_partial_def dec_gt_def
        pow10_def scale_to_def del: dec_lt.simps)
qed



end
