(* ===== verification/Schema.thy ===== *)
theory Schema
  imports Domain "HOL-Library.Char_ord" "HOL-Library.List_Lexorder"
begin

text \<open>
  The relational schema the migrations under src/alembic/versions create: one
  definition per table with its columns in declaration order, primary key, CHECK
  constraints and hypertable policy (chunk interval, compression segment, order and
  age), as passed to \<open>op.create_table\<close>, \<open>create_hypertable\<close>, \<open>enable_compression\<close> and
  \<open>add_compression_policy\<close>; and the chain of revisions.
\<close>

section \<open>Cells, columns, tables\<close>

datatype cell =
    CNull
  | CText string
  | CTs int
  | CDate int
  | CNum decimal
  | CInt int
  | CBool bool
  | CJson string
  | CUuid nat

datatype coltype =
    TText | TTimestamptz | TDate | TNumeric nat nat | TInteger | TBoolean | TJsonb | TUuid

datatype coldefault = NoDefault | DefText string | DefInt int | DefNow | DefUuid

record column =
  col_name :: string
  col_type :: coltype
  col_nullable :: bool
  col_default :: coldefault

definition col :: "string \<Rightarrow> coltype \<Rightarrow> bool \<Rightarrow> coldefault \<Rightarrow> column" where
  "col n t nullable d = \<lparr>col_name = n, col_type = t, col_nullable = nullable, col_default = d\<rparr>"

record hyper =
  h_time_column :: string
  h_chunk_interval :: string
  h_compress :: "(string \<times> string \<times> string) option"

text \<open>A CHECK constraint \<open>column IN (values)\<close>; a NULL passes it.\<close>

record table_schema =
  tb_name :: string
  tb_columns :: "column list"
  tb_pk :: "string list"
  tb_checks :: "(string \<times> string \<times> cell list) list"
  tb_hyper :: "hyper option"

definition hypertable :: "string \<Rightarrow> string \<Rightarrow> (string \<times> string \<times> string) option \<Rightarrow> hyper option" where
  "hypertable t chunk c = Some \<lparr>h_time_column = t, h_chunk_interval = chunk, h_compress = c\<rparr>"

section \<open>Quality flags\<close>

text \<open>
  The locked quality_flag enumeration. \<open>max(quality_flag)\<close> compares the texts, so the
  type is ordered by its text.
\<close>

datatype quality_flag =
    Ok | Gap_detected | Partial_candle | Late_arrival | Ws_rest_divergence | Schema_warn
  | Partial_capture

fun flag_text :: "quality_flag \<Rightarrow> string" where
  "flag_text Ok = ''ok''"
| "flag_text Gap_detected = ''gap_detected''"
| "flag_text Partial_candle = ''partial_candle''"
| "flag_text Late_arrival = ''late_arrival''"
| "flag_text Ws_rest_divergence = ''ws_rest_divergence''"
| "flag_text Schema_warn = ''schema_warn''"
| "flag_text Partial_capture = ''partial_capture''"

lemma flag_text_inject [simp]: "flag_text a = flag_text b \<longleftrightarrow> a = b"
  by (cases a; cases b) simp_all

instantiation quality_flag :: linorder
begin

definition less_eq_quality_flag :: "quality_flag \<Rightarrow> quality_flag \<Rightarrow> bool" where
  "less_eq_quality_flag a b \<longleftrightarrow> flag_text a \<le> flag_text b"

definition less_quality_flag :: "quality_flag \<Rightarrow> quality_flag \<Rightarrow> bool" where
  "less_quality_flag a b \<longleftrightarrow> flag_text a < flag_text b"

instance
proof
  fix x y z :: quality_flag
  show "x < y \<longleftrightarrow> x \<le> y \<and> \<not> y \<le> x"
    by (simp add: less_eq_quality_flag_def less_quality_flag_def less_le_not_le)
  show "x \<le> x" by (simp add: less_eq_quality_flag_def)
  show "x \<le> y \<Longrightarrow> y \<le> z \<Longrightarrow> x \<le> z"
    unfolding less_eq_quality_flag_def by (rule order_trans)
  show "x \<le> y \<Longrightarrow> y \<le> x \<Longrightarrow> x = y"
    unfolding less_eq_quality_flag_def using flag_text_inject by (blast dest: order_antisym)
  show "x \<le> y \<or> y \<le> x" unfolding less_eq_quality_flag_def by (rule linear)
qed

end

definition SOURCE_ENUM :: "cell list" where
  "SOURCE_ENUM = map (\<lambda>s. CText (source_text s))
     [Mexc_native, Coinglass_aggregate, Coinglass_mexc_only, Coingecko]"

definition QUALITY_FLAG_ENUM :: "cell list" where
  "QUALITY_FLAG_ENUM = map (\<lambda>q. CText (flag_text q))
     [Ok, Gap_detected, Partial_candle, Late_arrival, Ws_rest_divergence, Schema_warn,
      Partial_capture]"

section \<open>The tables\<close>

definition tbl_service_event :: table_schema where
  "tbl_service_event =
    \<lparr>tb_name = ''service_event'',
     tb_columns =
      [col ''ts'' TTimestamptz False DefNow,
       col ''service_name'' TText False NoDefault,
       col ''event_type'' TText False NoDefault,
       col ''payload'' TJsonb True NoDefault],
     tb_pk = [],
     tb_checks =
      [],
     tb_hyper = hypertable ''ts'' ''7 days'' (Some (''service_name'', ''ts DESC'', ''7 days''))\<rparr>"

definition tbl_raw_mexc_candles_1m :: table_schema where
  "tbl_raw_mexc_candles_1m =
    \<lparr>tb_name = ''raw_mexc_candles_1m'',
     tb_columns =
      [col ''symbol'' TText False NoDefault,
       col ''ts'' TTimestamptz False NoDefault,
       col ''open'' (TNumeric 28 10) False NoDefault,
       col ''high'' (TNumeric 28 10) False NoDefault,
       col ''low'' (TNumeric 28 10) False NoDefault,
       col ''close'' (TNumeric 28 10) False NoDefault,
       col ''volume'' (TNumeric 28 10) False NoDefault,
       col ''source'' TText False NoDefault,
       col ''quality_flag'' TText False (DefText ''ok''),
       col ''ingested_at'' TTimestamptz False DefNow],
     tb_pk = [''symbol'', ''ts''],
     tb_checks =
      [(''ck_raw_mexc_candles_1m_source'', ''source'', SOURCE_ENUM),
       (''ck_raw_mexc_candles_1m_quality'', ''quality_flag'', QUALITY_FLAG_ENUM)],
     tb_hyper = hypertable ''ts'' ''1 day'' (Some (''symbol'', ''ts DESC'', ''7 days''))\<rparr>"

definition tbl_raw_mexc_candles_1d :: table_schema where
  "tbl_raw_mexc_candles_1d =
    \<lparr>tb_name = ''raw_mexc_candles_1d'',
     tb_columns =
      [col ''symbol'' TText False NoDefault,
       col ''ts'' TTimestamptz False NoDefault,
       col ''open'' (TNumeric 28 10) False NoDefault,
       col ''high'' (TNumeric 28 10) False NoDefault,
       col ''low'' (TNumeric 28 10) False NoDefault,
       col ''close'' (TNumeric 28 10) False NoDefault,
       col ''volume'' (TNumeric 28 10) False NoDefault,
       col ''source'' TText False NoDefault,
       col ''quality_flag'' TText False (DefText ''ok''),
       col ''ingested_at'' TTimestamptz False DefNow],
     tb_pk = [''symbol'', ''ts''],
     tb_checks =
      [(''ck_raw_mexc_candles_1d_source'', ''source'', SOURCE_ENUM),
       (''ck_raw_mexc_candles_1d_quality'', ''quality_flag'', QUALITY_FLAG_ENUM)],
     tb_hyper = hypertable ''ts'' ''90 days'' (Some (''symbol'', ''ts DESC'', ''30 days''))\<rparr>"

definition tbl_raw_mexc_funding :: table_schema where
  "tbl_raw_mexc_funding =
    \<lparr>tb_name = ''raw_mexc_funding'',
     tb_columns =
      [col ''symbol'' TText False NoDefault,
       col ''settlement_ts'' TTimestamptz False NoDefault,
       col ''published_ts'' TTimestamptz False NoDefault,
       col ''funding_rate'' (TNumeric 28 18) False NoDefault,
       col ''next_funding_ts'' TTimestamptz True NoDefault,
       col ''source'' TText False NoDefault,
       col ''quality_flag'' TText False (DefText ''ok''),
       col ''ingested_at'' TTimestamptz False DefNow],
     tb_pk = [''symbol'', ''settlement_ts''],
     tb_checks =
      [(''ck_raw_mexc_funding_source'', ''source'', SOURCE_ENUM),
       (''ck_raw_mexc_funding_quality'', ''quality_flag'', QUALITY_FLAG_ENUM)],
     tb_hyper = hypertable ''settlement_ts'' ''30 days'' (Some (''symbol'', ''settlement_ts DESC'', ''7 days''))\<rparr>"

definition tbl_raw_mexc_oi :: table_schema where
  "tbl_raw_mexc_oi =
    \<lparr>tb_name = ''raw_mexc_oi'',
     tb_columns =
      [col ''symbol'' TText False NoDefault,
       col ''ts'' TTimestamptz False NoDefault,
       col ''open_interest'' (TNumeric 28 10) False NoDefault,
       col ''source'' TText True NoDefault,
       col ''quality_flag'' TText False (DefText ''ok''),
       col ''ingested_at'' TTimestamptz False DefNow],
     tb_pk = [''symbol'', ''ts''],
     tb_checks =
      [(''ck_raw_mexc_oi_source'', ''source'', SOURCE_ENUM),
       (''ck_raw_mexc_oi_quality'', ''quality_flag'', QUALITY_FLAG_ENUM)],
     tb_hyper = hypertable ''ts'' ''7 days'' (Some (''symbol'', ''ts DESC'', ''7 days''))\<rparr>"

definition tbl_raw_mexc_trades :: table_schema where
  "tbl_raw_mexc_trades =
    \<lparr>tb_name = ''raw_mexc_trades'',
     tb_columns =
      [col ''symbol'' TText False NoDefault,
       col ''ts'' TTimestamptz False NoDefault,
       col ''exchange_trade_id'' TText False NoDefault,
       col ''side'' TText False NoDefault,
       col ''price'' (TNumeric 28 10) False NoDefault,
       col ''qty'' (TNumeric 28 10) False NoDefault,
       col ''source'' TText False NoDefault,
       col ''quality_flag'' TText False (DefText ''ok''),
       col ''ingested_at'' TTimestamptz False DefNow],
     tb_pk = [''symbol'', ''ts'', ''exchange_trade_id''],
     tb_checks =
      [(''ck_raw_mexc_trades_source'', ''source'', SOURCE_ENUM),
       (''ck_raw_mexc_trades_quality'', ''quality_flag'', QUALITY_FLAG_ENUM),
       (''ck_raw_mexc_trades_side'', ''side'', [CText ''buy'', CText ''sell''])],
     tb_hyper = hypertable ''ts'' ''1 day'' (Some (''symbol'', ''ts DESC'', ''2 days''))\<rparr>"

definition tbl_raw_mexc_l2_top20 :: table_schema where
  "tbl_raw_mexc_l2_top20 =
    \<lparr>tb_name = ''raw_mexc_l2_top20'',
     tb_columns =
      [col ''symbol'' TText False NoDefault,
       col ''ts'' TTimestamptz False NoDefault,
       col ''bids'' TJsonb False NoDefault,
       col ''asks'' TJsonb False NoDefault,
       col ''source'' TText False NoDefault,
       col ''quality_flag'' TText False (DefText ''ok''),
       col ''ingested_at'' TTimestamptz False DefNow],
     tb_pk = [''symbol'', ''ts''],
     tb_checks =
      [(''ck_raw_mexc_l2_top20_source'', ''source'', SOURCE_ENUM),
       (''ck_raw_mexc_l2_top20_quality'', ''quality_flag'', QUALITY_FLAG_ENUM)],
     tb_hyper = hypertable ''ts'' ''1 day'' (Some (''symbol'', ''ts DESC'', ''2 days''))\<rparr>"

definition tbl_raw_mexc_liquidations :: table_schema where
  "tbl_raw_mexc_liquidations =
    \<lparr>tb_name = ''raw_mexc_liquidations'',
     tb_columns =
      [col ''symbol'' TText False NoDefault,
       col ''ts'' TTimestamptz False NoDefault,
       col ''side'' TText False NoDefault,
       col ''qty'' (TNumeric 28 10) False NoDefault,
       col ''price'' (TNumeric 28 10) False NoDefault,
       col ''source'' TText False NoDefault,
       col ''quality_flag'' TText False (DefText ''ok''),
       col ''ingested_at'' TTimestamptz False DefNow],
     tb_pk = [''symbol'', ''ts'', ''side'', ''qty'', ''price''],
     tb_checks =
      [(''ck_raw_mexc_liquidations_source'', ''source'', SOURCE_ENUM),
       (''ck_raw_mexc_liquidations_quality'', ''quality_flag'', QUALITY_FLAG_ENUM),
       (''ck_raw_mexc_liquidations_side'', ''side'', [CText ''short'', CText ''long''])],
     tb_hyper = hypertable ''ts'' ''7 days'' (Some (''symbol'', ''ts DESC'', ''7 days''))\<rparr>"

definition tbl_raw_coinglass_funding_agg :: table_schema where
  "tbl_raw_coinglass_funding_agg =
    \<lparr>tb_name = ''raw_coinglass_funding_agg'',
     tb_columns =
      [col ''symbol'' TText False NoDefault,
       col ''ts'' TTimestamptz False NoDefault,
       col ''funding_rate'' (TNumeric 28 18) False NoDefault,
       col ''source'' TText False NoDefault,
       col ''quality_flag'' TText False (DefText ''ok''),
       col ''ingested_at'' TTimestamptz False DefNow],
     tb_pk = [''symbol'', ''ts'', ''source''],
     tb_checks =
      [(''ck_raw_coinglass_funding_agg_source'', ''source'', SOURCE_ENUM),
       (''ck_raw_coinglass_funding_agg_quality'', ''quality_flag'', QUALITY_FLAG_ENUM)],
     tb_hyper = hypertable ''ts'' ''30 days'' (Some (''symbol'', ''ts DESC'', ''7 days''))\<rparr>"

definition tbl_raw_coinglass_oi :: table_schema where
  "tbl_raw_coinglass_oi =
    \<lparr>tb_name = ''raw_coinglass_oi'',
     tb_columns =
      [col ''symbol'' TText False NoDefault,
       col ''ts'' TTimestamptz False NoDefault,
       col ''open_interest'' (TNumeric 28 10) False NoDefault,
       col ''source'' TText False NoDefault,
       col ''quality_flag'' TText False (DefText ''ok''),
       col ''ingested_at'' TTimestamptz False DefNow],
     tb_pk = [''symbol'', ''ts'', ''source''],
     tb_checks =
      [(''ck_raw_coinglass_oi_source'', ''source'', SOURCE_ENUM),
       (''ck_raw_coinglass_oi_quality'', ''quality_flag'', QUALITY_FLAG_ENUM)],
     tb_hyper = hypertable ''ts'' ''30 days'' (Some (''symbol'', ''ts DESC'', ''7 days''))\<rparr>"

definition tbl_raw_coinglass_liq :: table_schema where
  "tbl_raw_coinglass_liq =
    \<lparr>tb_name = ''raw_coinglass_liq'',
     tb_columns =
      [col ''symbol'' TText False NoDefault,
       col ''ts'' TTimestamptz False NoDefault,
       col ''side'' TText False NoDefault,
       col ''liquidation_usd'' (TNumeric 28 10) False NoDefault,
       col ''source'' TText False NoDefault,
       col ''quality_flag'' TText False (DefText ''ok''),
       col ''ingested_at'' TTimestamptz False DefNow],
     tb_pk = [''symbol'', ''ts'', ''source'', ''side''],
     tb_checks =
      [(''ck_raw_coinglass_liq_source'', ''source'', SOURCE_ENUM),
       (''ck_raw_coinglass_liq_quality'', ''quality_flag'', QUALITY_FLAG_ENUM),
       (''ck_raw_coinglass_liq_side'', ''side'', [CText ''short'', CText ''long''])],
     tb_hyper = hypertable ''ts'' ''7 days'' (Some (''symbol'', ''ts DESC'', ''7 days''))\<rparr>"

definition tbl_raw_coinglass_lsr :: table_schema where
  "tbl_raw_coinglass_lsr =
    \<lparr>tb_name = ''raw_coinglass_lsr'',
     tb_columns =
      [col ''symbol'' TText False NoDefault,
       col ''ts'' TTimestamptz False NoDefault,
       col ''long_short_ratio'' (TNumeric 28 10) False NoDefault,
       col ''source'' TText False NoDefault,
       col ''quality_flag'' TText False (DefText ''ok''),
       col ''ingested_at'' TTimestamptz False DefNow],
     tb_pk = [''symbol'', ''ts'', ''source''],
     tb_checks =
      [(''ck_raw_coinglass_lsr_source'', ''source'', SOURCE_ENUM),
       (''ck_raw_coinglass_lsr_quality'', ''quality_flag'', QUALITY_FLAG_ENUM)],
     tb_hyper = hypertable ''ts'' ''30 days'' (Some (''symbol'', ''ts DESC'', ''7 days''))\<rparr>"

definition tbl_raw_coingecko_market :: table_schema where
  "tbl_raw_coingecko_market =
    \<lparr>tb_name = ''raw_coingecko_market'',
     tb_columns =
      [col ''symbol'' TText False NoDefault,
       col ''ts'' TTimestamptz False NoDefault,
       col ''price_usd'' (TNumeric 28 10) True NoDefault,
       col ''volume_24h_usd'' (TNumeric 28 10) True NoDefault,
       col ''market_cap_usd'' (TNumeric 28 10) True NoDefault,
       col ''category'' TText True NoDefault,
       col ''listing_date'' TDate True NoDefault,
       col ''raw_payload'' TJsonb True NoDefault,
       col ''source'' TText False (DefText ''coingecko''),
       col ''quality_flag'' TText False (DefText ''ok''),
       col ''ingested_at'' TTimestamptz False DefNow],
     tb_pk = [''symbol'', ''ts'', ''source''],
     tb_checks =
      [(''ck_raw_coingecko_market_source'', ''source'', SOURCE_ENUM),
       (''ck_raw_coingecko_market_quality'', ''quality_flag'', QUALITY_FLAG_ENUM)],
     tb_hyper = hypertable ''ts'' ''90 days'' (Some (''source'', ''ts DESC'', ''30 days''))\<rparr>"

definition tbl_universe_snapshots :: table_schema where
  "tbl_universe_snapshots =
    \<lparr>tb_name = ''universe_snapshots'',
     tb_columns =
      [col ''snapshot_date'' TDate False NoDefault,
       col ''symbol'' TText False NoDefault,
       col ''volume_24h_usd'' (TNumeric 28 10) False NoDefault,
       col ''price_usd'' (TNumeric 20 10) True NoDefault,
       col ''is_qualifying'' TBoolean False NoDefault,
       col ''source'' TText False (DefText ''mexc_native''),
       col ''quality_flag'' TText False (DefText ''ok''),
       col ''ingested_at'' TTimestamptz False DefNow],
     tb_pk = [''snapshot_date'', ''symbol''],
     tb_checks =
      [(''ck_universe_snapshots_source'', ''source'', SOURCE_ENUM),
       (''ck_universe_snapshots_quality'', ''quality_flag'', QUALITY_FLAG_ENUM)],
     tb_hyper = hypertable ''snapshot_date'' ''90 days'' None\<rparr>"

definition tbl_symbols :: table_schema where
  "tbl_symbols =
    \<lparr>tb_name = ''symbols'',
     tb_columns =
      [col ''symbol'' TText False NoDefault,
       col ''exchange'' TText False (DefText ''mexc''),
       col ''market_type'' TText False (DefText ''swap''),
       col ''mexc_native_symbol'' TText False NoDefault,
       col ''coinglass_symbol'' TText True NoDefault,
       col ''coingecko_id'' TText True NoDefault,
       col ''tier'' TInteger False (DefInt 2),
       col ''first_seen_at'' TTimestamptz False DefNow,
       col ''delisted_at'' TTimestamptz True NoDefault,
       col ''listed_at'' TTimestamptz True NoDefault],
     tb_pk = [''symbol''],
     tb_checks =
      [(''ck_symbols_tier'', ''tier'', [CInt 1, CInt 2])],
     tb_hyper = None\<rparr>"

definition tbl_dead_letter :: table_schema where
  "tbl_dead_letter =
    \<lparr>tb_name = ''dead_letter'',
     tb_columns =
      [col ''id'' TUuid False DefUuid,
       col ''ts'' TTimestamptz False DefNow,
       col ''source'' TText False NoDefault,
       col ''endpoint'' TText False NoDefault,
       col ''symbol'' TText True NoDefault,
       col ''raw_payload'' TText False NoDefault,
       col ''error_type'' TText False NoDefault,
       col ''error_msg'' TText False NoDefault,
       col ''retries_attempted'' TInteger False (DefInt 0),
       col ''quality_flag'' TText False (DefText ''schema_warn'')],
     tb_pk = [''id'', ''ts''],
     tb_checks =
      [(''ck_dead_letter_source'', ''source'', SOURCE_ENUM),
       (''ck_dead_letter_quality'', ''quality_flag'', QUALITY_FLAG_ENUM)],
     tb_hyper = hypertable ''ts'' ''30 days'' (Some (''source'', ''ts DESC'', ''30 days''))\<rparr>"

definition tbl_ingest_runs :: table_schema where
  "tbl_ingest_runs =
    \<lparr>tb_name = ''ingest_runs'',
     tb_columns =
      [col ''id'' TUuid False DefUuid,
       col ''ts'' TTimestamptz False DefNow,
       col ''source'' TText False NoDefault,
       col ''dataset'' TText False NoDefault,
       col ''job_id'' TText False NoDefault,
       col ''started_at'' TTimestamptz False NoDefault,
       col ''finished_at'' TTimestamptz True NoDefault,
       col ''status'' TText False NoDefault,
       col ''rows_written'' TInteger False (DefInt 0),
       col ''error_msg'' TText True NoDefault,
       col ''kv_state'' TJsonb True NoDefault,
       col ''quality_flag'' TText False (DefText ''ok''),
       col ''ingested_at'' TTimestamptz False DefNow],
     tb_pk = [''id'', ''ts''],
     tb_checks =
      [(''ck_ingest_runs_source'', ''source'', SOURCE_ENUM),
       (''ck_ingest_runs_quality'', ''quality_flag'', QUALITY_FLAG_ENUM),
       (''ck_ingest_runs_status'', ''status'', [CText ''running'', CText ''succeeded'', CText ''failed''])],
     tb_hyper = hypertable ''ts'' ''30 days'' (Some (''source'', ''ts DESC'', ''30 days''))\<rparr>"

lemmas table_defs =
  tbl_service_event_def
  tbl_raw_mexc_candles_1m_def
  tbl_raw_mexc_candles_1d_def
  tbl_raw_mexc_funding_def
  tbl_raw_mexc_oi_def
  tbl_raw_mexc_trades_def
  tbl_raw_mexc_l2_top20_def
  tbl_raw_mexc_liquidations_def
  tbl_raw_coinglass_funding_agg_def
  tbl_raw_coinglass_oi_def
  tbl_raw_coinglass_liq_def
  tbl_raw_coinglass_lsr_def
  tbl_raw_coingecko_market_def
  tbl_universe_snapshots_def
  tbl_symbols_def
  tbl_dead_letter_def
  tbl_ingest_runs_def

end
