(* ===== verification/First_Write.thy ===== *)
theory First_Write
  imports Prelude
begin

text \<open>
  The contract several components share: a keyed store where a write to a key that is
  already present changes nothing. The hypertable merge (INSERT ... ON CONFLICT DO
  NOTHING) and the registration of a schedule under ConflictPolicy.do_nothing provide it,
  each by an interpretation in its own theory.
\<close>

locale first_write =
  fixes put :: "'rec \<Rightarrow> 'st \<Rightarrow> 'st"
    and key :: "'rec \<Rightarrow> 'key"
    and keys :: "'st \<Rightarrow> 'key set"
  assumes put_present: "key r \<in> keys s \<Longrightarrow> put r s = s"
    and keys_put: "keys (put r s) = insert (key r) (keys s)"
begin

lemma keys_fold: "keys (fold put rs s) = keys s \<union> key ` set rs"
  by (induction rs arbitrary: s) (auto simp: keys_put)

lemma fold_present: "key ` set rs \<subseteq> keys s \<Longrightarrow> fold put rs s = s"
  by (induction rs) (auto simp: put_present)

text \<open>A batch whose keys an earlier batch already wrote is absorbed.\<close>

lemma fold_absorb: "key ` set rs' \<subseteq> key ` set rs \<Longrightarrow> fold put rs' (fold put rs s) = fold put rs s"
  by (rule fold_present) (auto simp: keys_fold)

lemma fold_idem: "fold put rs (fold put rs s) = fold put rs s"
  by (rule fold_absorb) simp

lemma put_idem: "put r (put r s) = put r s"
  by (rule put_present) (simp add: keys_put)

lemma fold_invariant:
  assumes "P s" and "\<And>r s. r \<in> set rs \<Longrightarrow> P s \<Longrightarrow> P (put r s)"
  shows "P (fold put rs s)"
  using assms by (induction rs arbitrary: s) simp_all

end

end
