(* ===== verification/Storage.thy ===== *)
theory Storage
  imports Schema First_Write
begin

text \<open>
  src/shortfire/ingest/storage/copy.py over the relational state. A table is its schema
  and its rows in heap order, each row a list of cells in column order. The SQL the
  helper sends is given its meaning step by step: the staging table takes over column
  types, NOT NULL constraints and defaults (LIKE ... INCLUDING DEFAULTS), the merge
  checks the CHECK constraints, needs a unique index on exactly the conflict columns,
  and skips a row whose key is present. Everything runs in one transaction: an error
  leaves the database as it was, which the result type \<open>exc + db \<times> nat\<close> expresses.
\<close>

record tstate =
  t_schema :: table_schema
  t_rows :: "cell list list"

type_synonym db = "string \<rightharpoonup> tstate"

text \<open>What the server supplies to one transaction: \<open>now()\<close> and a fresh uuid.\<close>

record tx =
  tx_now :: int
  tx_uuid :: nat

section \<open>Rows\<close>

fun col_pos :: "column list \<Rightarrow> string \<Rightarrow> nat option" where
  "col_pos [] c = None"
| "col_pos (k # ks) c = (if col_name k = c then Some 0 else map_option Suc (col_pos ks c))"

definition cell_of :: "table_schema \<Rightarrow> cell list \<Rightarrow> string \<Rightarrow> cell" where
  "cell_of sch row c =
     (case col_pos (tb_columns sch) c of
        None \<Rightarrow> CNull
      | Some i \<Rightarrow> if i < length row then row ! i else CNull)"

definition row_key :: "table_schema \<Rightarrow> cell list \<Rightarrow> cell list" where
  "row_key sch row = map (cell_of sch row) (tb_pk sch)"

fun coerce :: "string \<Rightarrow> coltype \<Rightarrow> cell \<Rightarrow> db_error + cell" where
  "coerce c t CNull = Inr CNull"
| "coerce c TText (CText s) = Inr (CText s)"
| "coerce c TTimestamptz (CTs us) = Inr (CTs us)"
| "coerce c TDate (CDate d) = Inr (CDate d)"
| "coerce c (TNumeric p s) (CNum d) =
     (case to_numeric p s d of None \<Rightarrow> Inl (NumericOutOfRange c) | Some d' \<Rightarrow> Inr (CNum d'))"
| "coerce c TInteger (CInt i) =
     (if - (2 ^ 31) \<le> i \<and> i < 2 ^ 31 then Inr (CInt i) else Inl (DatatypeMismatch c))"
| "coerce c TBoolean (CBool b) = Inr (CBool b)"
| "coerce c TJsonb (CJson j) = Inr (CJson j)"
| "coerce c TUuid (CUuid u) = Inr (CUuid u)"
| "coerce c _ _ = Inl (DatatypeMismatch c)"

lemma coerce_idem: "coerce c t x = Inr y \<Longrightarrow> coerce c t y = Inr y"
  by (cases "(c, t, x)" rule: coerce.cases)
    (auto split: option.splits if_splits dest: to_numeric_idem)

lemma coerce_null_iff: "coerce c t x = Inr y \<Longrightarrow> y = CNull \<longleftrightarrow> x = CNull"
  by (cases "(c, t, x)" rule: coerce.cases) (auto split: option.splits if_splits)

fun default_cell :: "tx \<Rightarrow> coldefault \<Rightarrow> cell" where
  "default_cell x NoDefault = CNull"
| "default_cell x (DefText s) = CText s"
| "default_cell x (DefInt i) = CInt i"
| "default_cell x DefNow = CTs (tx_now x)"
| "default_cell x DefUuid = CUuid (tx_uuid x)"

text \<open>One cell of the staged row: the record's value for a named column, else the default.\<close>

definition required :: "table_schema \<Rightarrow> column \<Rightarrow> bool" where
  "required sch k \<longleftrightarrow> \<not> col_nullable k \<or> col_name k \<in> set (tb_pk sch)"

definition stage_cell ::
  "tx \<Rightarrow> table_schema \<Rightarrow> string list \<Rightarrow> cell list \<Rightarrow> column \<Rightarrow> db_error + cell" where
  "stage_cell x sch columns rec k =
     bindE (coerce (col_name k) (col_type k)
              (case map_of (zip columns rec) (col_name k) of
                 Some v \<Rightarrow> v
               | None \<Rightarrow> default_cell x (col_default k)))
       (\<lambda>v. if v = CNull \<and> required sch k then Inl (NotNullViolation (col_name k)) else Inr v)"

definition stage_row ::
  "tx \<Rightarrow> table_schema \<Rightarrow> string list \<Rightarrow> cell list \<Rightarrow> db_error + cell list" where
  "stage_row x sch columns rec =
     (if length rec \<noteq> length columns then Inl BadRecordLength
      else mapE (stage_cell x sch columns rec) (tb_columns sch))"

definition check_row :: "table_schema \<Rightarrow> cell list \<Rightarrow> db_error + unit" where
  "check_row sch row =
     bindE (mapE (\<lambda>(n, c, vs).
              if cell_of sch row c = CNull \<or> cell_of sch row c \<in> set vs
              then Inr () else Inl (CheckViolation n)) (tb_checks sch))
       (\<lambda>_. Inr ())"

section \<open>The merge\<close>

definition row_keys :: "table_schema \<Rightarrow> cell list list \<Rightarrow> cell list set" where
  "row_keys sch rows = row_key sch ` set rows"

definition insert_do_nothing ::
  "table_schema \<Rightarrow> cell list \<Rightarrow> cell list list \<Rightarrow> cell list list" where
  "insert_do_nothing sch row rows =
     (if row_key sch row \<in> row_keys sch rows then rows else rows @ [row])"

text \<open>
  The arbiter of ON CONFLICT (cols): a unique index whose columns are exactly those; the
  only unique index of a table here is its primary key.
\<close>

definition has_arbiter :: "table_schema \<Rightarrow> string list \<Rightarrow> bool" where
  "has_arbiter sch cols \<longleftrightarrow> tb_pk sch \<noteq> [] \<and> set cols = set (tb_pk sch)"

definition col_names :: "table_schema \<Rightarrow> string list" where
  "col_names sch = map col_name (tb_columns sch)"

definition undefined_column :: "table_schema \<Rightarrow> string list \<Rightarrow> string option" where
  "undefined_column sch cols = find (\<lambda>c. c \<notin> set (col_names sch)) cols"

definition lift_db :: "db_error + 'a \<Rightarrow> 'a res" where
  "lift_db r = (case r of Inl e \<Rightarrow> Inl (DbError e) | Inr v \<Rightarrow> Inr v)"

definition merge_rows ::
  "tx \<Rightarrow> table_schema \<Rightarrow> cell list list \<Rightarrow> string list \<Rightarrow> string list \<Rightarrow> cell list list
   \<Rightarrow> db_error + cell list list" where
  "merge_rows x sch records columns conflict rows =
     (case undefined_column sch columns of
        Some c \<Rightarrow> Inl (UndefinedColumn c)
      | None \<Rightarrow>
          bindE (mapE (stage_row x sch columns) records) (\<lambda>staged.
          bindE (guardE (has_arbiter sch conflict) (NoConflictTarget conflict)) (\<lambda>_.
          bindE (mapE (check_row sch) staged) (\<lambda>_.
          Inr (fold (insert_do_nothing sch) staged rows)))))"

definition copy_into_hypertable ::
  "tx \<Rightarrow> db \<Rightarrow> string \<Rightarrow> cell list list \<Rightarrow> string list \<Rightarrow> string list \<Rightarrow> (db \<times> nat) res" where
  "copy_into_hypertable x d target records columns conflict =
     (if records = [] then Inr (d, 0)
      else case d target of
        None \<Rightarrow> Inl (DbError (UndefinedTable target))
      | Some ts \<Rightarrow>
          bindE (lift_db (merge_rows x (t_schema ts) records columns conflict (t_rows ts)))
            (\<lambda>rows. Inr (d(target \<mapsto> ts\<lparr>t_rows := rows\<rparr>), length records)))"

lemma lift_db_Inr [res_simps]: "lift_db r = Inr v \<longleftrightarrow> r = Inr v"
  by (cases r) (simp_all add: lift_db_def)

lemma lift_db_Inl [res_simps]: "lift_db r = Inl e \<longleftrightarrow> (\<exists>f. r = Inl f \<and> e = DbError f)"
  by (cases r) (auto simp: lift_db_def)

interpretation merge: first_write "insert_do_nothing sch" "row_key sch" "row_keys sch"
  for sch :: table_schema
  by unfold_locales (auto simp: insert_do_nothing_def row_keys_def)

section \<open>Inversion\<close>

lemma copy_cases:
  assumes "copy_into_hypertable x d target records columns conflict = Inr (d', n)"
  obtains (empty) "records = []" "d' = d" "n = 0"
  | (merged) ts staged where
      "records \<noteq> []" "d target = Some ts" "n = length records"
      "undefined_column (t_schema ts) columns = None"
      "mapE (stage_row x (t_schema ts) columns) records = Inr staged"
      "has_arbiter (t_schema ts) conflict"
      "\<forall>r\<in>set staged. check_row (t_schema ts) r = Inr ()"
      "d' = d(target \<mapsto> ts\<lparr>t_rows := fold (insert_do_nothing (t_schema ts)) staged (t_rows ts)\<rparr>)"
proof (cases "records = []")
  case True
  with assms empty show ?thesis by (simp add: copy_into_hypertable_def)
next
  case False
  from assms False obtain ts rows where ts: "d target = Some ts"
    and m: "merge_rows x (t_schema ts) records columns conflict (t_rows ts) = Inr rows"
    and d': "d' = d(target \<mapsto> ts\<lparr>t_rows := rows\<rparr>)" "n = length records"
    by (auto simp: copy_into_hypertable_def res_simps split: option.splits)
  from m obtain staged us where st:
    "undefined_column (t_schema ts) columns = None"
    "mapE (stage_row x (t_schema ts) columns) records = Inr staged"
    "has_arbiter (t_schema ts) conflict"
    "mapE (check_row (t_schema ts)) staged = Inr us"
    "rows = fold (insert_do_nothing (t_schema ts)) staged (t_rows ts)"
    by (auto simp: merge_rows_def res_simps split: option.splits)
  have "\<forall>r\<in>set staged. check_row (t_schema ts) r = Inr ()"
    using st(4) by (auto simp: mapE_eq_Inr_iff list_all2_conv_all_nth in_set_conv_nth)
  with st ts d' False show ?thesis by (intro merged) auto
qed

text \<open>On a table whose arbiter is missing, every nonempty batch raises.\<close>

lemma copy_no_arbiter:
  assumes "records \<noteq> []" "d target = Some ts" "\<not> has_arbiter (t_schema ts) conflict"
  shows "\<exists>e. copy_into_hypertable x d target records columns conflict = Inl (DbError e)"
proof (cases "merge_rows x (t_schema ts) records columns conflict (t_rows ts)")
  case (Inl e)
  with assms show ?thesis by (simp add: copy_into_hypertable_def lift_db_def)
next
  case (Inr rows)
  with assms(3) show ?thesis
    by (auto simp: merge_rows_def res_simps split: option.splits)
qed

lemma copy_stage_fails:
  assumes "records \<noteq> []" "d target = Some ts" "mapE (stage_row x (t_schema ts) columns) records = Inl e"
  shows "\<exists>e. copy_into_hypertable x d target records columns conflict = Inl (DbError e)"
  using assms
  by (cases "undefined_column (t_schema ts) columns") (simp_all add: copy_into_hypertable_def merge_rows_def lift_db_def)

section \<open>First write wins\<close>

lemma insert_do_nothing_prefix: "prefix rows (insert_do_nothing sch r rows)"
  by (simp add: insert_do_nothing_def)

lemma fold_insert_prefix: "prefix rows (fold (insert_do_nothing sch) rs rows)"
proof (induction rs arbitrary: rows)
  case Nil
  then show ?case by simp
next
  case (Cons r rs)
  have "prefix rows (insert_do_nothing sch r rows)" by (rule insert_do_nothing_prefix)
  also have "prefix \<dots> (fold (insert_do_nothing sch) rs (insert_do_nothing sch r rows))"
    by (rule Cons.IH)
  finally show ?case by simp
qed

text \<open>What a merge adds to a table are staged records.\<close>

lemma fold_insert_extra:
  "\<exists>extra. fold (insert_do_nothing sch) rs rows = rows @ extra \<and> set extra \<subseteq> set rs"
proof (induction rs arbitrary: rows)
  case Nil
  then show ?case by simp
next
  case (Cons r rs)
  obtain e1 where e1: "insert_do_nothing sch r rows = rows @ e1" "set e1 \<subseteq> {r}"
  proof
    show "insert_do_nothing sch r rows = rows @ (if row_key sch r \<in> row_keys sch rows then [] else [r])"
      by (simp add: insert_do_nothing_def)
  qed simp
  obtain e2 where "fold (insert_do_nothing sch) rs (rows @ e1) = (rows @ e1) @ e2" "set e2 \<subseteq> set rs"
    using Cons.IH by blast
  with e1 show ?case by (intro exI [of _ "e1 @ e2"]) auto
qed

definition rows_of :: "db \<Rightarrow> string \<Rightarrow> cell list list" where
  "rows_of d t = (case d t of None \<Rightarrow> [] | Some ts \<Rightarrow> t_rows ts)"

definition schema_of :: "db \<Rightarrow> string \<Rightarrow> table_schema option" where
  "schema_of d t = map_option t_schema (d t)"

lemma copy_frame:
  assumes "copy_into_hypertable x d target records columns conflict = Inr (d', n)"
  shows "t \<noteq> target \<Longrightarrow> d' t = d t" and "schema_of d' = schema_of d"
    and "prefix (rows_of d t) (rows_of d' t)"
proof -
  from assms show "t \<noteq> target \<Longrightarrow> d' t = d t" by (rule copy_cases) auto
  from assms show "schema_of d' = schema_of d"
    by (rule copy_cases) (auto simp: schema_of_def fun_eq_iff)
  from assms show "prefix (rows_of d t) (rows_of d' t)"
    by (rule copy_cases) (auto simp: rows_of_def fold_insert_prefix split: option.splits)
qed

lemma copy_count:
  "copy_into_hypertable x d target records columns conflict = Inr (d', n) \<Longrightarrow> n = length records"
  by (erule copy_cases) auto

section \<open>Well-formed tables\<close>

text \<open>
  What the server keeps of every row: one cell per column, of the column's type, not
  NULL where required, passing the CHECKs; and distinct primary keys.
\<close>

definition cells_ok :: "table_schema \<Rightarrow> cell list \<Rightarrow> bool" where
  "cells_ok sch row \<longleftrightarrow>
     list_all2 (\<lambda>k v. coerce (col_name k) (col_type k) v = Inr v \<and> (required sch k \<longrightarrow> v \<noteq> CNull))
       (tb_columns sch) row"

definition row_ok :: "table_schema \<Rightarrow> cell list \<Rightarrow> bool" where
  "row_ok sch row \<longleftrightarrow> cells_ok sch row \<and> check_row sch row = Inr ()"

definition wf_rows :: "table_schema \<Rightarrow> cell list list \<Rightarrow> bool" where
  "wf_rows sch rows \<longleftrightarrow> distinct (map (row_key sch) rows) \<and> list_all (row_ok sch) rows"

definition wf_db :: "db \<Rightarrow> bool" where
  "wf_db d \<longleftrightarrow> (\<forall>t ts. d t = Some ts \<longrightarrow> wf_rows (t_schema ts) (t_rows ts))"

lemma stage_cell_ok:
  "stage_cell x sch columns rec k = Inr v \<Longrightarrow>
   coerce (col_name k) (col_type k) v = Inr v \<and> (required sch k \<longrightarrow> v \<noteq> CNull)"
  by (auto simp: stage_cell_def res_simps split: if_splits dest: coerce_idem)

lemma stage_row_cells:
  "stage_row x sch columns rec = Inr row \<Longrightarrow>
   length rec = length columns \<and>
   list_all2 (\<lambda>k v. stage_cell x sch columns rec k = Inr v) (tb_columns sch) row"
  by (auto simp: stage_row_def mapE_eq_Inr_iff split: if_splits)

lemma stage_row_ok: "stage_row x sch columns rec = Inr row \<Longrightarrow> cells_ok sch row"
  unfolding cells_ok_def
  by (drule stage_row_cells) (auto elim!: list_all2_mono dest: stage_cell_ok)

lemma wf_rows_insert:
  "wf_rows sch rows \<Longrightarrow> row_ok sch r \<Longrightarrow> wf_rows sch (insert_do_nothing sch r rows)"
  by (auto simp: wf_rows_def insert_do_nothing_def row_keys_def)

lemma wf_rows_fold:
  "wf_rows sch rows \<Longrightarrow> list_all (row_ok sch) rs \<Longrightarrow> wf_rows sch (fold (insert_do_nothing sch) rs rows)"
  by (induction rs arbitrary: rows) (auto simp: wf_rows_insert)

lemma staged_rows_ok:
  assumes "mapE (stage_row x sch columns) records = Inr staged"
    and "\<forall>r\<in>set staged. check_row sch r = Inr ()"
  shows "list_all (row_ok sch) staged"
  using assms by (auto simp: list_all_iff row_ok_def dest!: mapE_Inr_set [OF assms(1)] stage_row_ok)

lemma copy_wf:
  assumes "wf_db d" "copy_into_hypertable x d target records columns conflict = Inr (d', n)"
  shows "wf_db d'"
  using assms(2)
proof (cases rule: copy_cases)
  case empty
  with assms(1) show ?thesis by simp
next
  case (merged ts staged)
  with assms(1) show ?thesis
    by (auto simp: wf_db_def intro!: wf_rows_fold staged_rows_ok)
qed

section \<open>Re-ingest\<close>

text \<open>
  A writer whose records carry every key column, and every checked column that the
  server would otherwise fill from the clock or the uuid generator, stages rows whose
  key and checks do not depend on the transaction.
\<close>

definition column_default :: "table_schema \<Rightarrow> string \<Rightarrow> coldefault" where
  "column_default sch c =
     (case col_pos (tb_columns sch) c of None \<Rightarrow> NoDefault | Some i \<Rightarrow> col_default (tb_columns sch ! i))"

definition stable_writer :: "table_schema \<Rightarrow> string list \<Rightarrow> bool" where
  "stable_writer sch columns \<longleftrightarrow>
     list_all (\<lambda>c. c \<in> set columns) (tb_pk sch) \<and>
     list_all (\<lambda>(_, c, _). c \<in> set columns \<or> column_default sch c \<notin> {DefNow, DefUuid}) (tb_checks sch)"

lemma col_pos_Some: "col_pos ks c = Some i \<Longrightarrow> i < length ks \<and> col_name (ks ! i) = c"
  by (induction ks arbitrary: i) (auto split: if_splits)

lemma stage_cell_stable:
  assumes "length rec = length columns"
    and "col_name k \<in> set columns \<or> col_default k \<notin> {DefNow, DefUuid}"
  shows "stage_cell x sch columns rec k = stage_cell x' sch columns rec k"
proof -
  have "default_cell x (col_default k) = default_cell x' (col_default k)"
    if "col_default k \<notin> {DefNow, DefUuid}"
    using that by (cases "col_default k") auto
  moreover have "\<exists>v. map_of (zip columns rec) (col_name k) = Some v" if "col_name k \<in> set columns"
    using that assms(1) by (metis map_of_zip_is_Some)
  ultimately show ?thesis using assms(2) by (auto simp: stage_cell_def split: option.split)
qed

lemma stage_cell_total:
  assumes "stage_cell x sch columns rec k = Inr v"
  shows "\<exists>v'. stage_cell x' sch columns rec k = Inr v'"
proof (cases "map_of (zip columns rec) (col_name k)")
  case (Some u)
  with assms show ?thesis by (auto simp: stage_cell_def)
next
  case None
  with assms show ?thesis
    by (cases "col_default k"; cases "col_type k")
      (auto simp: stage_cell_def split: if_splits)
qed

lemma stage_row_total:
  assumes "stage_row x sch columns rec = Inr row"
  shows "\<exists>row'. stage_row x' sch columns rec = Inr row'"
proof -
  from assms have len: "length rec = length columns"
    and m: "mapE (stage_cell x sch columns rec) (tb_columns sch) = Inr row"
    by (auto simp: stage_row_def split: if_splits)
  have "\<exists>v'. stage_cell x' sch columns rec k = Inr v'" if k: "k \<in> set (tb_columns sch)" for k
  proof -
    obtain i where i: "i < length (tb_columns sch)" "tb_columns sch ! i = k"
      using k unfolding in_set_conv_nth by blast
    have "stage_cell x sch columns rec (tb_columns sch ! i) = Inr (row ! i)"
      using m i(1) by (simp add: mapE_eq_Inr_iff list_all2_conv_all_nth)
    with i(2) have "stage_cell x sch columns rec k = Inr (row ! i)" by simp
    then show ?thesis by (rule stage_cell_total)
  qed
  then have "\<forall>k\<in>set (tb_columns sch). \<exists>v'. stage_cell x' sch columns rec k = Inr v'" by blast
  then obtain g where "\<forall>k\<in>set (tb_columns sch). stage_cell x' sch columns rec k = Inr (g k)"
    by (metis (no_types))
  then have "mapE (stage_cell x' sch columns rec) (tb_columns sch) = Inr (map g (tb_columns sch))"
    by (intro mapE_total) auto
  then show ?thesis using len by (simp add: stage_row_def)
qed

lemma stage_row_cell_of:
  assumes "stage_row x sch columns rec = Inr row" "stage_row x' sch columns rec = Inr row'"
    and "c \<in> set columns \<or> column_default sch c \<notin> {DefNow, DefUuid}"
  shows "cell_of sch row c = cell_of sch row' c"
proof (cases "col_pos (tb_columns sch) c")
  case None
  then show ?thesis by (simp add: cell_of_def)
next
  case (Some i)
  then have i: "i < length (tb_columns sch)" "col_name (tb_columns sch ! i) = c"
    using col_pos_Some by auto
  let ?k = "tb_columns sch ! i"
  have d: "col_default ?k = column_default sch c" using Some by (simp add: column_default_def)
  have r: "stage_cell x sch columns rec ?k = Inr (row ! i)"
    "stage_cell x' sch columns rec ?k = Inr (row' ! i)"
    "length row = length (tb_columns sch)" "length row' = length (tb_columns sch)"
    using stage_row_cells [OF assms(1)] stage_row_cells [OF assms(2)] i(1)
    by (auto simp: list_all2_conv_all_nth)
  have "stage_cell x sch columns rec ?k = stage_cell x' sch columns rec ?k"
    using stage_row_cells [OF assms(1)] assms(3) i(2) d by (intro stage_cell_stable) auto
  with r Some i(1) show ?thesis by (simp add: cell_of_def)
qed

text \<open>A staged cell is the record's value, as its column stores it.\<close>

lemma staged_cell:
  assumes "stage_row x sch columns rec = Inr row" "col_pos (tb_columns sch) c = Some i"
    and "map_of (zip columns rec) c = Some v"
  shows "coerce c (col_type (tb_columns sch ! i)) v = Inr (cell_of sch row c)"
proof -
  have i: "i < length (tb_columns sch)" "col_name (tb_columns sch ! i) = c"
    using col_pos_Some [OF assms(2)] by auto
  have "stage_cell x sch columns rec (tb_columns sch ! i) = Inr (row ! i)" "length row = length (tb_columns sch)"
    using stage_row_cells [OF assms(1)] i(1) by (auto simp: list_all2_conv_all_nth)
  then show ?thesis
    using assms(2,3) i by (auto simp: stage_cell_def cell_of_def res_simps split: if_splits)
qed

lemma stage_row_key:
  assumes "stage_row x sch columns rec = Inr row" "stage_row x' sch columns rec = Inr row'"
    and "stable_writer sch columns"
  shows "row_key sch row = row_key sch row'"
  using assms(3)
  by (auto simp: row_key_def stable_writer_def list_all_iff intro: stage_row_cell_of [OF assms(1,2)])

lemma stage_row_check:
  assumes "stage_row x sch columns rec = Inr row" "stage_row x' sch columns rec = Inr row'"
    and "stable_writer sch columns"
  shows "check_row sch row = check_row sch row'"
proof -
  have "cell_of sch row c = cell_of sch row' c" if "(n, c, vs) \<in> set (tb_checks sch)" for n c vs
    using assms(3) that by (intro stage_row_cell_of [OF assms(1,2)]) (auto simp: stable_writer_def list_all_iff)
  then show ?thesis
    unfolding check_row_def by (intro arg_cong2 [where f = bindE] mapE_cong refl) fastforce
qed

text \<open>
  Repeating a batch under a later transaction changes nothing and returns the same count.
\<close>

lemma staged_again:
  assumes "mapE (stage_row x sch columns) records = Inr staged"
    and "\<forall>r\<in>set staged. check_row sch r = Inr ()" and "stable_writer sch columns"
  shows "\<exists>staged'. mapE (stage_row x' sch columns) records = Inr staged' \<and>
    map (row_key sch) staged' = map (row_key sch) staged \<and>
    (\<forall>r\<in>set staged'. check_row sch r = Inr ())"
  using assms(1,2)
proof (induction records arbitrary: staged)
  case Nil
  then show ?case by simp
next
  case (Cons r rs)
  from Cons.prems obtain row rows where rw: "stage_row x sch columns r = Inr row"
    "mapE (stage_row x sch columns) rs = Inr rows" "staged = row # rows"
    by (auto simp: res_simps)
  obtain row' where row': "stage_row x' sch columns r = Inr row'"
    using stage_row_total [OF rw(1)] by blast
  obtain rows' where rows': "mapE (stage_row x' sch columns) rs = Inr rows'"
    "map (row_key sch) rows' = map (row_key sch) rows"
    "\<forall>r\<in>set rows'. check_row sch r = Inr ()"
    using Cons.IH [OF rw(2)] Cons.prems(2) rw(3) by auto
  show ?case
    using row' rows' rw(3) Cons.prems(2) stage_row_key [OF rw(1) row' assms(3)]
      stage_row_check [OF rw(1) row' assms(3)] by auto
qed

lemma copy_again:
  assumes "copy_into_hypertable x d target records columns conflict = Inr (d', n)"
    and "\<And>ts. d target = Some ts \<Longrightarrow> stable_writer (t_schema ts) columns"
  shows "copy_into_hypertable x' d' target records columns conflict = Inr (d', n)"
  using assms(1)
proof (cases rule: copy_cases)
  case empty
  then show ?thesis by (simp add: copy_into_hypertable_def)
next
  case (merged ts staged)
  let ?sch = "t_schema ts" and ?rows = "fold (insert_do_nothing (t_schema ts)) staged (t_rows ts)"
  obtain staged' where st: "mapE (stage_row x' ?sch columns) records = Inr staged'"
    "map (row_key ?sch) staged' = map (row_key ?sch) staged"
    "\<forall>r\<in>set staged'. check_row ?sch r = Inr ()"
    using staged_again [OF merged(5,7) assms(2) [OF merged(2)]] by blast
  have "row_key ?sch ` set staged' = row_key ?sch ` set staged" by (metis st(2) list.set_map)
  then have "fold (insert_do_nothing ?sch) staged' ?rows = ?rows"
    by (intro merge.fold_absorb) simp
  moreover have "mapE (check_row ?sch) staged' = Inr (map (\<lambda>_. ()) staged')"
    using st(3) by (intro mapE_total) auto
  ultimately show ?thesis
    using merged st(1) by (simp add: copy_into_hypertable_def merge_rows_def guardE_def lift_db_def)
qed

section \<open>A plain INSERT\<close>

text \<open>INSERT of one row without a conflict clause: a present key is an error.\<close>

definition insert_row :: "tx \<Rightarrow> db \<Rightarrow> string \<Rightarrow> cell list \<Rightarrow> string list \<Rightarrow> db res" where
  "insert_row x d target rec columns =
     (case d target of
        None \<Rightarrow> Inl (DbError (UndefinedTable target))
      | Some ts \<Rightarrow>
          (case undefined_column (t_schema ts) columns of
             Some c \<Rightarrow> Inl (DbError (UndefinedColumn c))
           | None \<Rightarrow>
               lift_db
                 (bindE (stage_row x (t_schema ts) columns rec) (\<lambda>row.
                  bindE (check_row (t_schema ts) row) (\<lambda>_.
                  bindE (guardE (tb_pk (t_schema ts) = [] \<or> row_key (t_schema ts) row \<notin> row_keys (t_schema ts) (t_rows ts))
                           (UniqueViolation target)) (\<lambda>_.
                  Inr (d(target \<mapsto> ts\<lparr>t_rows := t_rows ts @ [row]\<rparr>))))))))"

lemma insert_row_cases:
  assumes "insert_row x d target rec columns = Inr d'"
  obtains ts row where "d target = Some ts" "stage_row x (t_schema ts) columns rec = Inr row"
    "check_row (t_schema ts) row = Inr ()"
    "tb_pk (t_schema ts) = [] \<or> row_key (t_schema ts) row \<notin> row_keys (t_schema ts) (t_rows ts)"
    "d' = d(target \<mapsto> ts\<lparr>t_rows := t_rows ts @ [row]\<rparr>)"
  using assms by (auto simp: insert_row_def res_simps split: option.splits)

lemma insert_row_frame:
  assumes "insert_row x d target rec columns = Inr d'"
  shows "schema_of d' = schema_of d" "prefix (rows_of d t) (rows_of d' t)" "t \<noteq> target \<Longrightarrow> d' t = d t"
  by (rule insert_row_cases [OF assms], simp add: schema_of_def fun_eq_iff)
    (rule insert_row_cases [OF assms], simp add: rows_of_def split: option.splits,
     rule insert_row_cases [OF assms], simp)

section \<open>Guarantees of the write path\<close>

text \<open>C1: A batch write that returns reports the size of its batch, keeps every stored row of every
  table unchanged and in place (first write wins), touches no other table and no schema, and
  keeps the tables well-formed: typed cells, no missing required value, distinct keys.\<close>

theorem copy_first_write_wins:
  assumes "copy_into_hypertable x d target records columns conflict = Inr (d', n)"
  shows "n = length records \<and> (\<forall>t. prefix (rows_of d t) (rows_of d' t)) \<and>
    (\<forall>t. t \<noteq> target \<longrightarrow> d' t = d t) \<and> schema_of d' = schema_of d \<and> (wf_db d \<longrightarrow> wf_db d')"
  using copy_count [OF assms] copy_frame [OF assms] copy_wf [OF _ assms] by blast

definition tiny_schema :: table_schema where
  "tiny_schema = \<lparr>tb_name = ''t'', tb_columns = [col ''k'' TText False NoDefault, col ''v'' TInteger True NoDefault],
     tb_pk = [''k''], tb_checks = [], tb_hyper = None\<rparr>"

definition tiny_db :: "cell list list \<Rightarrow> db" where
  "tiny_db rows = [''t'' \<mapsto> \<lparr>t_schema = tiny_schema, t_rows = rows\<rparr>]"

lemma tiny_copy:
  "copy_into_hypertable x (tiny_db [[CText ''a'', CInt 1]]) ''t''
     [[CText ''a'', CInt 2], [CText ''b'', CInt 3]] [''k'', ''v''] [''k'']
   = Inr (tiny_db [[CText ''a'', CInt 1], [CText ''b'', CInt 3]], 2)"
  by (simp add: copy_into_hypertable_def tiny_db_def tiny_schema_def merge_rows_def undefined_column_def
      col_names_def col_def stage_row_def stage_cell_def required_def has_arbiter_def guardE_def
      check_row_def insert_do_nothing_def row_keys_def row_key_def cell_of_def lift_db_def)

lemma copy_first_write_wins_witness:
  "prefix (rows_of (tiny_db [[CText ''a'', CInt 1]]) ''t'')
     (rows_of (tiny_db [[CText ''a'', CInt 1], [CText ''b'', CInt 3]]) ''t'')"
  using copy_first_write_wins [OF tiny_copy] by blast

text \<open>C6: Writing the same batch again, at any later time, succeeds and changes nothing, for every
  writer whose records carry the key columns and the checked columns.\<close>

theorem copy_idempotent:
  assumes "copy_into_hypertable x d target records columns conflict = Inr (d', n)"
    and "\<forall>ts. d target = Some ts \<longrightarrow> stable_writer (t_schema ts) columns"
  shows "copy_into_hypertable x' d' target records columns conflict = Inr (d', n)"
  using copy_again [OF assms(1)] assms(2) by blast

lemma copy_idempotent_witness:
  "copy_into_hypertable \<lparr>tx_now = 7, tx_uuid = 7\<rparr> (tiny_db [[CText ''a'', CInt 1], [CText ''b'', CInt 3]]) ''t''
     [[CText ''a'', CInt 2], [CText ''b'', CInt 3]] [''k'', ''v''] [''k'']
   = Inr (tiny_db [[CText ''a'', CInt 1], [CText ''b'', CInt 3]], 2)"
  by (rule copy_idempotent [OF tiny_copy])
    (simp add: tiny_db_def tiny_schema_def stable_writer_def)

end
