(* ===== verification/World.thy ===== *)
theory World
  imports Storage "HOL-Library.AList"
begin

text \<open>
  The process around the pure code: the database, the Prometheus gauges and counters, the
  structured log, the alerts posted to Telegram, and the readings the process takes from
  outside (clock, uuid generator, HTTP answer of the Telegram API), which are an argument:
  the \<open>n\<close>-th reading of a run is \<open>e_read env n\<close>. An operation is a function from the world
  to its result, a value or the exception that escapes, and the world it leaves; effects
  made before a raise stay, as in Python.
\<close>

section \<open>State\<close>

record reading =
  rd_tx :: tx
  rd_uuid :: nat
  rd_now :: int
  rd_time :: rat
  rd_mono :: rat
  rd_http :: "int res"

record env =
  e_read :: "nat \<Rightarrow> reading"
  e_str :: "wire \<Rightarrow> string"
  e_msg :: "exc \<Rightarrow> string"

type_synonym labels = "string list"
type_synonym log_entry = "string \<times> (string \<times> wire) list"

text \<open>
  \<open>w_fresh\<close> holds the samples of source_freshness_seconds in the order their children were
  created, labels \<open>(source, dataset, symbol)\<close>. A message is a list of Unicode code points.
\<close>

record world =
  w_env :: env
  w_pos :: nat
  w_db :: db
  w_fresh :: "((string \<times> string \<times> string) \<times> rat) list"
  w_gauges :: "((string \<times> labels) \<times> rat) list"
  w_count :: "((string \<times> labels) \<times> nat) list"
  w_log :: "log_entry list"
  w_posts :: "nat list list"

type_synonym 'a io = "world \<Rightarrow> 'a res \<times> world"

section \<open>Sequencing\<close>

definition retI :: "'a \<Rightarrow> 'a io" where
  "retI x = (\<lambda>w. (Inr x, w))"

definition raiseI :: "exc \<Rightarrow> 'a io" where
  "raiseI e = (\<lambda>w. (Inl e, w))"

definition liftI :: "'a res \<Rightarrow> 'a io" where
  "liftI r = (\<lambda>w. (r, w))"

definition bindI :: "'a io \<Rightarrow> ('a \<Rightarrow> 'b io) \<Rightarrow> 'b io" where
  "bindI m f = (\<lambda>w. case m w of (Inl e, w') \<Rightarrow> (Inl e, w') | (Inr x, w') \<Rightarrow> f x w')"

definition thenI :: "'a io \<Rightarrow> 'b io \<Rightarrow> 'b io" where
  "thenI m k = bindI m (\<lambda>_. k)"

text \<open>\<open>try: m / except Exception as exc: h(exc)\<close>; a cancellation is not caught.\<close>

definition catchI :: "'a io \<Rightarrow> (exc \<Rightarrow> 'a io) \<Rightarrow> 'a io" where
  "catchI m h = (\<lambda>w. case m w of
     (Inl e, w') \<Rightarrow> if is_Exception e then h e w' else (Inl e, w')
   | (Inr x, w') \<Rightarrow> (Inr x, w'))"

text \<open>\<open>try: m / finally: k\<close>: an exception of \<open>k\<close> replaces that of \<open>m\<close>.\<close>

definition finallyI :: "'a io \<Rightarrow> unit io \<Rightarrow> 'a io" where
  "finallyI m k = (\<lambda>w. case m w of (r, w') \<Rightarrow>
     (case k w' of (Inl e, w'') \<Rightarrow> (Inl e, w'') | (Inr _, w'') \<Rightarrow> (r, w'')))"

definition whenI :: "bool \<Rightarrow> unit io \<Rightarrow> unit io" where
  "whenI b m = (if b then m else retI ())"

fun forI :: "'a list \<Rightarrow> ('a \<Rightarrow> unit io) \<Rightarrow> unit io" where
  "forI [] f = retI ()"
| "forI (x # xs) f = thenI (f x) (forI xs f)"

text \<open>A loop that threads local variables through the iterations.\<close>

fun foldI :: "('s \<Rightarrow> 'a \<Rightarrow> 's io) \<Rightarrow> 's \<Rightarrow> 'a list \<Rightarrow> 's io" where
  "foldI f s [] = retI s"
| "foldI f s (x # xs) = bindI (f s x) (\<lambda>s'. foldI f s' xs)"

definition updI :: "(world \<Rightarrow> world) \<Rightarrow> unit io" where
  "updI f = (\<lambda>w. (Inr (), f w))"

definition getI :: "(world \<Rightarrow> 'a) \<Rightarrow> 'a io" where
  "getI f = (\<lambda>w. (Inr (f w), w))"

lemmas io_defs = retI_def raiseI_def liftI_def bindI_def thenI_def catchI_def finallyI_def
  whenI_def updI_def getI_def

section \<open>Primitive effects\<close>

definition readI :: "reading io" where
  "readI = (\<lambda>w. (Inr (e_read (w_env w) (w_pos w)), w\<lparr>w_pos := Suc (w_pos w)\<rparr>))"

definition logI :: "string \<Rightarrow> (string \<times> wire) list \<Rightarrow> unit io" where
  "logI name fs = updI (\<lambda>w. w\<lparr>w_log := w_log w @ [(name, fs)]\<rparr>)"

definition incI :: "string \<Rightarrow> labels \<Rightarrow> nat \<Rightarrow> unit io" where
  "incI name ls n = updI (\<lambda>w. w\<lparr>w_count :=
     AList.update (name, ls) ((case map_of (w_count w) (name, ls) of None \<Rightarrow> 0 | Some k \<Rightarrow> k) + n)
       (w_count w)\<rparr>)"

text \<open>Setting a gauge other than source_freshness_seconds.\<close>

definition setI :: "string \<Rightarrow> labels \<Rightarrow> rat \<Rightarrow> unit io" where
  "setI name ls v = updI (\<lambda>w. w\<lparr>w_gauges := AList.update (name, ls) v (w_gauges w)\<rparr>)"

definition freshI :: "string \<Rightarrow> string \<Rightarrow> string \<Rightarrow> rat \<Rightarrow> unit io" where
  "freshI source dataset sy t =
     updI (\<lambda>w. w\<lparr>w_fresh := AList.update (source, dataset, sy) t (w_fresh w)\<rparr>)"

text \<open>\<open>gauge.labels(...).set(time.time())\<close>\<close>

definition fresh_nowI :: "string \<Rightarrow> string \<Rightarrow> string \<Rightarrow> unit io" where
  "fresh_nowI source dataset sy = bindI readI (\<lambda>r. freshI source dataset sy (rd_time r))"

definition copyI :: "string \<Rightarrow> cell list list \<Rightarrow> string list \<Rightarrow> string list \<Rightarrow> nat io" where
  "copyI target records columns conflict =
     bindI readI (\<lambda>r w.
       case copy_into_hypertable (rd_tx r) (w_db w) target records columns conflict of
         Inl e \<Rightarrow> (Inl e, w)
       | Inr (d, n) \<Rightarrow> (Inr n, w\<lparr>w_db := d\<rparr>))"

definition sql_exec :: "(db \<Rightarrow> db) \<Rightarrow> unit io" where
  "sql_exec f = updI (\<lambda>w. w\<lparr>w_db := f (w_db w)\<rparr>)"

text \<open>The cell a Python value becomes when it is handed to asyncpg as it is.\<close>

fun cell_of_wire :: "wire \<Rightarrow> cell" where
  "cell_of_wire WNone = CNull"
| "cell_of_wire (WBool b) = CBool b"
| "cell_of_wire (WInt i) = CInt i"
| "cell_of_wire (WFloat d) = CNum d"
| "cell_of_wire (WStr s) = CText s"
| "cell_of_wire (WList _) = CJson []"
| "cell_of_wire (WDict _) = CJson []"

text \<open>A metric label is \<open>str(value)\<close>; the rows that reach a gauge have text symbols.\<close>

fun label_of_cell :: "cell \<Rightarrow> string" where
  "label_of_cell (CText s) = s"
| "label_of_cell _ = ''None''"

section \<open>Invariants of programs\<close>

definition keeps :: "(world \<Rightarrow> bool) \<Rightarrow> 'a io \<Rightarrow> bool" where
  "keeps I m \<longleftrightarrow> (\<forall>w. I w \<longrightarrow> I (snd (m w)))"

named_theorems keeps_intros

lemma keepsD: "keeps I m \<Longrightarrow> I w \<Longrightarrow> m w = (r, w') \<Longrightarrow> I w'"
  unfolding keeps_def by (metis snd_conv)

lemma keeps_retI [keeps_intros]: "keeps I (retI x)"
  and keeps_raiseI [keeps_intros]: "keeps I (raiseI e)"
  and keeps_liftI [keeps_intros]: "keeps I (liftI r)"
  and keeps_getI [keeps_intros]: "keeps I (getI f)"
  by (auto simp: keeps_def io_defs)

lemma keeps_bindI [keeps_intros]:
  "keeps I m \<Longrightarrow> (\<And>x. keeps I (f x)) \<Longrightarrow> keeps I (bindI m f)"
  unfolding keeps_def bindI_def by (fastforce split: prod.splits sum.splits)

lemma keeps_thenI [keeps_intros]: "keeps I m \<Longrightarrow> keeps I k \<Longrightarrow> keeps I (thenI m k)"
  unfolding thenI_def by (intro keeps_bindI)

lemma keeps_catchI [keeps_intros]:
  "keeps I m \<Longrightarrow> (\<And>e. keeps I (h e)) \<Longrightarrow> keeps I (catchI m h)"
  unfolding keeps_def catchI_def by (fastforce split: prod.splits sum.splits)

lemma keeps_finallyI [keeps_intros]: "keeps I m \<Longrightarrow> keeps I k \<Longrightarrow> keeps I (finallyI m k)"
  unfolding keeps_def finallyI_def by (fastforce split: prod.splits sum.splits)

lemma keeps_whenI [keeps_intros]: "keeps I m \<Longrightarrow> keeps I (whenI b m)"
  by (simp add: whenI_def keeps_retI)

lemma keeps_forI [keeps_intros]: "(\<And>x. keeps I (f x)) \<Longrightarrow> keeps I (forI xs f)"
  by (induction xs) (simp_all add: keeps_retI keeps_thenI)

lemma keeps_foldI [keeps_intros]: "(\<And>s x. keeps I (f s x)) \<Longrightarrow> keeps I (foldI f s xs)"
  by (induction xs arbitrary: s) (simp_all add: keeps_retI keeps_bindI)

lemma keeps_if [keeps_intros]: "keeps I m \<Longrightarrow> keeps I k \<Longrightarrow> keeps I (if b then m else k)"
  by simp

lemma keeps_option [keeps_intros]:
  "keeps I m \<Longrightarrow> (\<And>x. keeps I (k x)) \<Longrightarrow> keeps I (case v of None \<Rightarrow> m | Some x \<Rightarrow> k x)"
  by (cases v) auto

lemma keeps_prod [keeps_intros]: "(\<And>a b. keeps I (m a b)) \<Longrightarrow> keeps I (case p of (a, b) \<Rightarrow> m a b)"
  by (cases p) auto

text \<open>
  What the jobs and streams rely on: an invariant that every primitive effect keeps, so
  that whatever is built from them keeps it.
\<close>

locale ingest_invariant =
  fixes I :: "world \<Rightarrow> bool"
  assumes keeps_readI: "keeps I readI"
    and keeps_logI: "keeps I (logI name fs)"
    and keeps_incI: "keeps I (incI name ls n)"
    and keeps_setI: "keeps I (setI name ls v)"
    and keeps_freshI: "keeps I (freshI source dataset sy t)"
    and keeps_copyI: "keeps I (copyI target records columns conflict)"
    and keeps_post: "keeps I (updI (\<lambda>w. w\<lparr>w_posts := w_posts w @ [msg]\<rparr>))"
begin

lemma keeps_fresh_nowI: "keeps I (fresh_nowI source dataset sy)"
  unfolding fresh_nowI_def by (intro keeps_bindI keeps_readI keeps_freshI)

lemmas primitives = keeps_readI keeps_logI keeps_incI keeps_setI keeps_freshI keeps_copyI keeps_post
  keeps_fresh_nowI

end

text \<open>An invariant of the database that every merge keeps is such an invariant.\<close>

lemma db_ingest_invariant:
  assumes "\<And>x d target records columns conflict d' n.
    P d \<Longrightarrow> copy_into_hypertable x d target records columns conflict = Inr (d', n) \<Longrightarrow> P d'"
  shows "ingest_invariant (\<lambda>w. P (w_db w))"
  by unfold_locales
    (auto simp: keeps_def readI_def logI_def incI_def setI_def freshI_def copyI_def io_defs
       split: sum.splits prod.splits dest: assms)

interpretation wf: ingest_invariant "\<lambda>w. wf_db (w_db w)"
  by (rule db_ingest_invariant) (rule copy_wf)

interpretation schemas: ingest_invariant "\<lambda>w. schema_of (w_db w) = s" for s
  by (rule db_ingest_invariant) (simp add: copy_frame(2))

text \<open>First write wins, for whole programs: the rows of a table only ever grow at the end.\<close>

interpretation grow: ingest_invariant "\<lambda>w. \<forall>t. prefix (rows t) (rows_of (w_db w) t)" for rows
proof (rule db_ingest_invariant)
  fix x d target records columns conflict d' n
  assume "\<forall>t. prefix (rows t) (rows_of d t)"
    and c: "copy_into_hypertable x d target records columns conflict = Inr (d', n)"
  then show "\<forall>t. prefix (rows t) (rows_of d' t)"
    using copy_frame(3) [OF c] prefix_order.trans by blast
qed

text \<open>A table no statement of a program writes.\<close>

lemma keeps_table_copyI: "target \<noteq> t \<Longrightarrow> keeps (\<lambda>w. w_db w t = v) (copyI target records columns conflict)"
  by (auto simp: keeps_def copyI_def readI_def bindI_def copy_frame(1) split: sum.split prod.split)

lemma keeps_table_simple:
  "keeps (\<lambda>w. w_db w t = v) (logI name fs)" "keeps (\<lambda>w. w_db w t = v) (setI name ls x)"
  "keeps (\<lambda>w. w_db w t = v) (incI name ls n)" "keeps (\<lambda>w. w_db w t = v) (freshI source dataset sy q)"
  "keeps (\<lambda>w. w_db w t = v) readI"
  by (auto simp: keeps_def logI_def setI_def incI_def freshI_def readI_def io_defs)

lemma keeps_table_fresh_nowI: "keeps (\<lambda>w. w_db w t = v) (fresh_nowI source dataset sy)"
  unfolding fresh_nowI_def by (intro keeps_bindI keeps_table_simple)

lemmas keeps_table = keeps_table_copyI keeps_table_simple keeps_table_fresh_nowI

lemma foldI_state:
  assumes "\<And>s x w s' w'. P s \<Longrightarrow> f s x w = (Inr s', w') \<Longrightarrow> P s'"
  shows "P s \<Longrightarrow> foldI f s xs w = (Inr s', w') \<Longrightarrow> P s'"
proof (induction xs arbitrary: s w)
  case Nil
  then show ?case by (simp add: retI_def)
next
  case (Cons x xs)
  from Cons.prems(2) obtain s1 w1 where "f s x w = (Inr s1, w1)" "foldI f s1 xs w1 = (Inr s', w')"
    by (auto simp: bindI_def split: sum.splits prod.splits)
  then show ?case using Cons.IH assms Cons.prems(1) by blast
qed

text \<open>A loop over elements of which one always raises.\<close>

lemma foldI_fails_keeps:
  assumes "\<And>s x. keeps I (f s x)" "\<And>s w. I w \<Longrightarrow> \<exists>e. fst (f s x0 w) = Inl e" "x0 \<in> set xs" "I w"
  shows "(\<exists>e. fst (foldI f s xs w) = Inl e) \<and> I (snd (foldI f s xs w))"
  using assms(3,4)
proof (induction xs arbitrary: s w)
  case Nil
  then show ?case by simp
next
  case (Cons x xs)
  obtain r w1 where r: "f s x w = (r, w1)" by fastforce
  have I1: "I w1" using keepsD [OF assms(1) Cons.prems(2) r] .
  show ?case
  proof (cases r)
    case (Inl e)
    then show ?thesis using r I1 by (simp add: bindI_def)
  next
    case (Inr s1)
    have "x \<noteq> x0"
    proof
      assume "x = x0"
      then show False using assms(2) [OF Cons.prems(2), of s] r Inr by simp
    qed
    then have "x0 \<in> set xs" using Cons.prems(1) by simp
    from Cons.IH [OF this I1, of s1] show ?thesis using r Inr by (simp add: bindI_def)
  qed
qed

lemma foldI_fails:
  assumes "\<And>s x. keeps P (f s x)" "P w" "x \<in> set xs"
    and "\<And>s w. P w \<Longrightarrow> \<exists>e. fst (f s x w) = Inl e"
  shows "\<exists>e. fst (foldI f s xs w) = Inl e"
  by (rule foldI_fails_keeps [where I = P and ?x0.0 = x, THEN conjunct1]) (use assms in auto)

section \<open>A concrete process\<close>

text \<open>
  A process over a given database whose clock stands at \<open>t\<close> seconds and whose HTTP calls
  succeed; the examples evaluate in it.
\<close>

definition calm_env :: "int \<Rightarrow> env" where
  "calm_env t =
     \<lparr>e_read = (\<lambda>n. \<lparr>rd_tx = \<lparr>tx_now = t * 1000000, tx_uuid = n\<rparr>, rd_uuid = n, rd_now = t * 1000000,
        rd_time = of_int t, rd_mono = of_int t, rd_http = Inr 200\<rparr>),
      e_str = (\<lambda>_. ''{}''), e_msg = (\<lambda>_. ''error'')\<rparr>"

definition calm_world :: "int \<Rightarrow> db \<Rightarrow> world" where
  "calm_world t d =
     \<lparr>w_env = calm_env t, w_pos = 0, w_db = d, w_fresh = [], w_gauges = [], w_count = [], w_log = [], w_posts = []\<rparr>"

lemma calm_read [simp]:
  "e_read (calm_env t) n = \<lparr>rd_tx = \<lparr>tx_now = t * 1000000, tx_uuid = n\<rparr>, rd_uuid = n,
     rd_now = t * 1000000, rd_time = of_int t, rd_mono = of_int t, rd_http = Inr 200\<rparr>"
  "w_env (calm_world t d) = calm_env t" "w_db (calm_world t d) = d" "w_pos (calm_world t d) = 0"
  "w_fresh (calm_world t d) = []" "w_log (calm_world t d) = []" "w_posts (calm_world t d) = []"
  by (simp_all add: calm_env_def calm_world_def)

end
