(* ===== verification/Events.thy ===== *)
theory Events
  imports World
begin

text \<open>
  src/shortfire/observability/events.py: the closed registry of log event names and the
  assertion the callers run before they log.
\<close>

definition EVENTS :: "string list" where
  "EVENTS =
    [''service.startup'', ''service.settings.loaded'', ''service.settings.failed'',
     ''service.shutdown'', ''service.health_check'', ''db.engine.created'',
     ''db.migration.applied'', ''request.received'', ''request.completed'',
     ''request.failed'', ''service_event.emitted'', ''secret.guard.tripped'',
     ''ingest.started'', ''ingest.completed'', ''ingest.failed'', ''ingest.rate_limited'',
     ''ingest.dead_letter'',
     ''universe.snapshot.created'', ''universe.symbol.new'', ''universe.symbol.delisted'',
     ''freshness.degraded'', ''freshness.recovered'',
     ''backup.started'', ''backup.completed'', ''backup.failed'',
     ''ws.connected'', ''ws.disconnected'', ''ws.reconnect'', ''ws.stale'']"

definition assert_event_registered :: "string \<Rightarrow> unit res" where
  "assert_event_registered name = guardE (name \<in> set EVENTS) ValueError"

lemma EVENTS_distinct: "distinct EVENTS"
  by (simp add: EVENTS_def)

lemma EVENTS_card: "card (set EVENTS) = 29"
  by (simp add: distinct_card [OF EVENTS_distinct]) (simp add: EVENTS_def)

lemma assert_event_ok [simp]:
  "name \<in> set EVENTS \<Longrightarrow> assert_event_registered name = Inr ()"
  by (simp add: assert_event_registered_def guardE_def)

text \<open>\<open>assert_event_registered(n); log.<level>(n, ...)\<close>\<close>

definition eventI :: "string \<Rightarrow> (string \<times> wire) list \<Rightarrow> unit io" where
  "eventI name fs = thenI (liftI (assert_event_registered name)) (logI name fs)"

lemma keeps_table_eventI: "keeps (\<lambda>w. w_db w t = v) (eventI name fs)"
  unfolding eventI_def by (intro keeps_intros keeps_table)

context ingest_invariant
begin

lemma keeps_eventI: "keeps I (eventI name fs)"
  unfolding eventI_def by (intro keeps_intros primitives)

end

end
