(* ===== verification/Candle_Store.thy ===== *)
theory Candle_Store
  imports Events
begin

text \<open>
  Writes to the candle hypertables: the column and conflict tuples the candle writers share
  (live_candles.py, backfill.py, gap.py), and what a batch of candle rows does to a migrated
  table. Then src/shortfire/ingest/gap.py.
\<close>

definition candle_columns :: "string list" where
  "candle_columns =
     [''symbol'', ''ts'', ''open'', ''high'', ''low'', ''close'', ''volume'', ''source'', ''quality_flag'']"

definition candle_conflict :: "string list" where
  "candle_conflict = [''symbol'', ''ts'']"

definition candle_record ::
  "cell \<Rightarrow> int \<Rightarrow> decimal \<Rightarrow> decimal \<Rightarrow> decimal \<Rightarrow> decimal \<Rightarrow> decimal \<Rightarrow> string \<Rightarrow> string \<Rightarrow> cell list" where
  "candle_record sy ts op hi lo cl vol source flag =
     [sy, CTs ts, CNum op, CNum hi, CNum lo, CNum cl, CNum vol, CText source, CText flag]"

definition candle_schema :: "table_schema \<Rightarrow> bool" where
  "candle_schema sch \<longleftrightarrow> sch = tbl_raw_mexc_candles_1m \<or> sch = tbl_raw_mexc_candles_1d"

lemmas candle_tables = tbl_raw_mexc_candles_1m_def tbl_raw_mexc_candles_1d_def

lemma candle_arbiter: "candle_schema sch \<Longrightarrow> has_arbiter sch candle_conflict"
  by (auto simp: candle_schema_def candle_tables has_arbiter_def candle_conflict_def)

lemma candle_columns_defined: "candle_schema sch \<Longrightarrow> undefined_column sch candle_columns = None"
  by (auto simp: candle_schema_def candle_tables undefined_column_def col_names_def col_def
      candle_columns_def)

lemma candle_stable: "candle_schema sch \<Longrightarrow> stable_writer sch candle_columns"
  by (auto simp: candle_schema_def candle_tables stable_writer_def candle_columns_def)

definition fits :: "decimal \<Rightarrow> bool" where
  "fits d \<longleftrightarrow> to_numeric 28 10 d \<noteq> None"

lemma candle_staged:
  assumes "candle_schema sch" "list_all fits [op, hi, lo, cl, vol]"
  shows "\<exists>row. stage_row x sch candle_columns (candle_record (CText s) ts op hi lo cl vol source flag) = Inr row
    \<and> row_key sch row = [CText s, CTs ts]
    \<and> cell_of sch row ''source'' = CText source \<and> cell_of sch row ''quality_flag'' = CText flag"
  using assms
  by (auto simp: candle_schema_def candle_tables stage_row_def stage_cell_def candle_columns_def
      candle_record_def col_def required_def fits_def row_key_def cell_of_def)

lemma candle_checks:
  assumes "candle_schema sch" "cell_of sch row ''source'' \<in> set SOURCE_ENUM"
    and "cell_of sch row ''quality_flag'' \<in> set QUALITY_FLAG_ENUM"
  shows "check_row sch row = Inr ()"
  using assms by (auto simp: candle_schema_def check_row_def candle_tables)

text \<open>A row the candle writers may send: a text symbol, prices that fit, known labels.\<close>

definition good_candle :: "cell list \<Rightarrow> bool" where
  "good_candle r \<longleftrightarrow> (\<exists>s ts op hi lo cl vol source flag.
     r = candle_record (CText s) ts op hi lo cl vol source flag \<and> list_all fits [op, hi, lo, cl, vol] \<and>
     CText source \<in> set SOURCE_ENUM \<and> CText flag \<in> set QUALITY_FLAG_ENUM)"

lemma good_candle_staged:
  assumes "candle_schema sch" "good_candle r"
  shows "\<exists>row. stage_row x sch candle_columns r = Inr row \<and> row_key sch row = take 2 r
    \<and> check_row sch row = Inr ()"
proof -
  obtain s ts op hi lo cl vol source flag where
    r: "r = candle_record (CText s) ts op hi lo cl vol source flag" "list_all fits [op, hi, lo, cl, vol]"
      "CText source \<in> set SOURCE_ENUM" "CText flag \<in> set QUALITY_FLAG_ENUM"
    using assms(2) unfolding good_candle_def by blast
  from candle_staged [OF assms(1) r(2), of x s ts source flag] obtain row where
    "stage_row x sch candle_columns r = Inr row" "row_key sch row = [CText s, CTs ts]"
    "cell_of sch row ''source'' = CText source" "cell_of sch row ''quality_flag'' = CText flag"
    using r(1) by auto
  moreover have "take 2 r = [CText s, CTs ts]" by (simp add: r(1) candle_record_def)
  ultimately show ?thesis using candle_checks [OF assms(1), of row] r(3,4) by auto
qed

text \<open>A batch of such rows is stored: afterwards every key of the batch is present.\<close>

lemma copy_candles:
  assumes "d target = Some ts" "candle_schema (t_schema ts)" "list_all good_candle records"
  shows "\<exists>d'. copy_into_hypertable x d target records candle_columns candle_conflict
      = Inr (d', length records) \<and>
    row_keys (t_schema ts) (rows_of d' target) =
      row_keys (t_schema ts) (rows_of d target) \<union> (take 2) ` set records"
proof (cases "records = []")
  case True
  then show ?thesis using assms(1) by (simp add: copy_into_hypertable_def)
next
  case False
  let ?sch = "t_schema ts"
  have "\<forall>r\<in>set records. \<exists>row. stage_row x ?sch candle_columns r = Inr row \<and>
      row_key ?sch row = take 2 r \<and> check_row ?sch row = Inr ()"
    using good_candle_staged [OF assms(2)] assms(3) by (auto simp: list_all_iff)
  then obtain g where g: "\<And>r. r \<in> set records \<Longrightarrow> stage_row x ?sch candle_columns r = Inr (g r)"
    "\<And>r. r \<in> set records \<Longrightarrow> row_key ?sch (g r) = take 2 r"
    "\<And>r. r \<in> set records \<Longrightarrow> check_row ?sch (g r) = Inr ()" by metis
  have st: "mapE (stage_row x ?sch candle_columns) records = Inr (map g records)"
    using g(1) by (rule mapE_total)
  have ck: "mapE (check_row ?sch) (map g records) = Inr (map (\<lambda>_. ()) (map g records))"
    using g(3) by (intro mapE_total) auto
  let ?rows = "fold (insert_do_nothing ?sch) (map g records) (t_rows ts)"
  have "copy_into_hypertable x d target records candle_columns candle_conflict
      = Inr (d(target \<mapsto> ts\<lparr>t_rows := ?rows\<rparr>), length records)"
    using False assms(1) candle_columns_defined [OF assms(2)] candle_arbiter [OF assms(2)] st ck
    by (simp add: copy_into_hypertable_def merge_rows_def guardE_def lift_db_def)
  moreover have "row_keys ?sch ?rows = row_keys ?sch (t_rows ts) \<union> (take 2) ` set records"
    using g(2) by (auto simp: merge.keys_fold image_image)
  ultimately show ?thesis using assms(1) by (simp add: rows_of_def)
qed

section \<open>gap.py\<close>

function gap_cursors :: "int \<Rightarrow> int \<Rightarrow> int \<Rightarrow> int list" where
  "gap_cursors cursor end_ms step =
     (if cursor < end_ms \<and> 0 < step then cursor # gap_cursors (cursor + step) end_ms step else [])"
  by pat_completeness auto

termination by (relation "measure (\<lambda>(c, e, _). nat (e - c))") auto

declare gap_cursors.simps [simp del]

definition gap_record :: "string \<Rightarrow> string \<Rightarrow> int \<Rightarrow> cell list res" where
  "gap_record symbol source cursor_ms =
     bindE (ts_from_ms cursor_ms) (\<lambda>ts.
       Inr (candle_record (CText symbol) ts dec_zero dec_zero dec_zero dec_zero dec_zero source
              ''gap_detected''))"

definition flag_gap :: "string \<Rightarrow> string \<Rightarrow> int \<Rightarrow> int \<Rightarrow> int \<Rightarrow> string \<Rightarrow> nat io" where
  "flag_gap target symbol gap_start gap_end timeframe_ms source =
     (if gap_start \<ge> gap_end \<or> timeframe_ms \<le> 0 then retI 0
      else
        bindI (liftI (mapE (gap_record symbol source)
                 (gap_cursors (ms_of_ts gap_start) (ms_of_ts gap_end) timeframe_ms))) (\<lambda>records.
        if records = [] then retI 0
        else copyI target records candle_columns candle_conflict))"

lemma set_gap_cursors:
  "0 < step \<Longrightarrow> set (gap_cursors c e step) = {c + int k * step |k. c + int k * step < e}"
proof (induction c e step rule: gap_cursors.induct)
  case (1 c e step)
  show ?case
  proof (cases "c < e")
    case False
    then have "\<not> c + int k * step < e" for k using 1(2) by (smt (verit) mult_nonneg_nonneg of_nat_0_le_iff)
    with False show ?thesis by (subst gap_cursors.simps) auto
  next
    case True
    have "{c + int k * step |k. c + int k * step < e} =
        insert c {c + step + int k * step |k. c + step + int k * step < e}"
    proof (rule set_eqI, rule iffI)
      fix y assume "y \<in> {c + int k * step |k. c + int k * step < e}"
      then obtain k where k: "y = c + int k * step" "y < e" by auto
      show "y \<in> insert c {c + step + int k * step |k. c + step + int k * step < e}"
      proof (cases k)
        case (Suc m)
        then have "y = c + step + int m * step" using k by (simp add: algebra_simps)
        with k show ?thesis by auto
      qed (simp add: k)
    next
      fix y assume y: "y \<in> insert c {c + step + int k * step |k. c + step + int k * step < e}"
      have "\<exists>k. y = c + int k * step \<and> y < e"
      proof (cases "y = c")
        case True
        then have "y = c + int 0 * step" by simp
        with True \<open>c < e\<close> show ?thesis by blast
      next
        case False
        then obtain k where "y = c + step + int k * step" "y < e" using y by auto
        then have "y = c + int (Suc k) * step" "y < e" by (simp_all add: algebra_simps)
        then show ?thesis by blast
      qed
      then show "y \<in> {c + int k * step |k. c + int k * step < e}" by auto
    qed
    then show ?thesis using 1 True by (subst gap_cursors.simps) simp
  qed
qed

lemma length_gap_cursors:
  "0 < step \<Longrightarrow> length (gap_cursors c e step) = nat ((e - c + step - 1) div step)"
proof (induction c e step rule: gap_cursors.induct)
  case (1 c e step)
  show ?case
  proof (cases "c < e")
    case True
    let ?x = "e - (c + step) + step - 1"
    have "(?x + 1 * step) div step = 1 + ?x div step" using 1(2) by (intro div_mult_self1) simp
    moreover have "e - c + step - 1 = ?x + 1 * step" by simp
    ultimately have "(e - c + step - 1) div step = ?x div step + 1" by (simp only: add.commute)
    moreover have "0 \<le> (e - (c + step) + step - 1) div step"
      using True 1(2) by (subst pos_imp_zdiv_nonneg_iff) auto
    ultimately show ?thesis using 1 True by (subst gap_cursors.simps) (simp add: nat_add_distrib)
  next
    case False
    then have "(e - c + step - 1) div step \<le> 0"
      using 1(2) by (smt (verit) div_pos_pos_trivial pos_imp_zdiv_nonneg_iff)
    with False show ?thesis by (subst gap_cursors.simps) simp
  qed
qed

lemma dec_zero_fits: "fits dec_zero"
  by (simp add: fits_def dec_zero_def scale_to_def)

lemma gap_record_ok:
  assumes "0 \<le> c" "c \<le> 4000000000000" "CText source \<in> set SOURCE_ENUM"
  shows "\<exists>r. gap_record symbol source c = Inr r \<and> good_candle r \<and> take 2 r = [CText symbol, CTs (1000 * c)]"
proof -
  have "good_candle (candle_record (CText symbol) (1000 * c) dec_zero dec_zero dec_zero dec_zero dec_zero
      source ''gap_detected'')"
    unfolding good_candle_def using assms(3) dec_zero_fits by (force simp: QUALITY_FLAG_ENUM_def)
  then show ?thesis
    using assms by (auto simp: gap_record_def ts_from_ms_exact candle_record_def)
qed

context ingest_invariant
begin

lemma keeps_flag_gap: "keeps I (flag_gap target symbol a b tf source)"
  unfolding flag_gap_def by (intro keeps_intros primitives)

end

text \<open>The table of a candle writer, by its migrated schema.\<close>

definition candle_db :: "string \<Rightarrow> db \<Rightarrow> bool" where
  "candle_db target d \<longleftrightarrow> (\<exists>ts. d target = Some ts \<and> candle_schema (t_schema ts))"

definition keys_of :: "db \<Rightarrow> string \<Rightarrow> cell list set" where
  "keys_of d t = (case d t of None \<Rightarrow> {} | Some ts \<Rightarrow> row_keys (t_schema ts) (t_rows ts))"

lemma copyI_candles:
  assumes "candle_db target (w_db w)" "list_all good_candle records"
  shows "\<exists>w'. copyI target records candle_columns candle_conflict w = (Inr (length records), w') \<and>
    keys_of (w_db w') target = keys_of (w_db w) target \<union> (take 2) ` set records \<and>
    prefix (rows_of (w_db w) target) (rows_of (w_db w') target) \<and>
    w' = w\<lparr>w_pos := Suc (w_pos w), w_db := w_db w'\<rparr> \<and> schema_of (w_db w') = schema_of (w_db w)"
proof -
  obtain ts where ts: "w_db w target = Some ts" "candle_schema (t_schema ts)"
    using assms(1) by (auto simp: candle_db_def)
  let ?x = "rd_tx (e_read (w_env w) (w_pos w))"
  obtain d' where d': "copy_into_hypertable ?x (w_db w) target records candle_columns candle_conflict
      = Inr (d', length records)"
    "row_keys (t_schema ts) (rows_of d' target) =
      row_keys (t_schema ts) (rows_of (w_db w) target) \<union> (take 2) ` set records"
    using copy_candles [of "w_db w" target, OF ts assms(2)] by blast
  have sch: "schema_of d' = schema_of (w_db w)" using copy_frame(2) [OF d'(1)] .
  then obtain ts' where ts': "d' target = Some ts'" "t_schema ts' = t_schema ts"
    using ts(1) by (metis (mono_tags, lifting) option.map_disc_iff option.map_sel option.sel option.exhaust
        option.distinct(1) schema_of_def)
  have "keys_of d' target = keys_of (w_db w) target \<union> (take 2) ` set records"
    using d'(2) ts ts' by (simp add: keys_of_def rows_of_def)
  then show ?thesis
    using d'(1) sch copy_frame(3) [OF d'(1)] by (simp add: copyI_def readI_def bindI_def)
qed

lemma flag_gap_spec:
  assumes "candle_db target (w_db w)" "gap_start < gap_end" "0 < step"
    and "0 \<le> ms_of_ts gap_start" "ms_of_ts gap_end \<le> 4000000000000"
    and "CText source \<in> set SOURCE_ENUM"
  shows "\<exists>w'. flag_gap target symbol gap_start gap_end step source w =
      (Inr (length (gap_cursors (ms_of_ts gap_start) (ms_of_ts gap_end) step)), w') \<and>
    prefix (rows_of (w_db w) target) (rows_of (w_db w') target) \<and>
    keys_of (w_db w') target = keys_of (w_db w) target \<union>
      {[CText symbol, CTs (1000 * c)] |c. c \<in> set (gap_cursors (ms_of_ts gap_start) (ms_of_ts gap_end) step)}"
proof -
  let ?cs = "gap_cursors (ms_of_ts gap_start) (ms_of_ts gap_end) step"
  have range: "0 \<le> c \<and> c \<le> 4000000000000" if "c \<in> set ?cs" for c
    using that assms(3,4,5) by (auto simp: set_gap_cursors)
  then have "\<forall>c\<in>set ?cs. \<exists>r. gap_record symbol source c = Inr r \<and> good_candle r \<and>
      take 2 r = [CText symbol, CTs (1000 * c)]"
    using gap_record_ok [OF _ _ assms(6)] by blast
  then obtain g where g: "\<And>c. c \<in> set ?cs \<Longrightarrow> gap_record symbol source c = Inr (g c)"
    "\<And>c. c \<in> set ?cs \<Longrightarrow> good_candle (g c)"
    "\<And>c. c \<in> set ?cs \<Longrightarrow> take 2 (g c) = [CText symbol, CTs (1000 * c)]" by metis
  have recs: "mapE (gap_record symbol source) ?cs = Inr (map g ?cs)" using g(1) by (rule mapE_total)
  have good: "list_all good_candle (map g ?cs)" using g(2) by (simp add: list_all_iff)
  have keys: "(take 2) ` set (map g ?cs) = {[CText symbol, CTs (1000 * c)] |c. c \<in> set ?cs}"
    using g(3) by (force simp: image_iff)
  show ?thesis
  proof (cases "?cs = []")
    case True
    then show ?thesis using assms(2,3) recs by (simp add: flag_gap_def bindI_def liftI_def retI_def)
  next
    case False
    obtain w' where "copyI target (map g ?cs) candle_columns candle_conflict w = (Inr (length ?cs), w')"
      "keys_of (w_db w') target = keys_of (w_db w) target \<union> (take 2) ` set (map g ?cs)"
      "prefix (rows_of (w_db w) target) (rows_of (w_db w') target)"
      using copyI_candles [OF assms(1) good] by auto
    then show ?thesis
      using False assms(2,3) recs keys by (simp add: flag_gap_def bindI_def liftI_def)
  qed
qed

text \<open>C27: On a migrated candle table, flag_gap over a window from a positive start on whole seconds
  returns the number of buckets of the window, whether or not their rows are new (the
  docstring promises 0 when all conflict); afterwards every bucket start of the window has
  a row, no other key was added, and the rows that were there are unchanged.\<close>

theorem flag_gap_covers_window:
  assumes "candle_db target (w_db w)" "0 \<le> a" "a < b" "b \<le> 4000000000" "0 < step"
    and "source \<in> {''mexc_native'', ''coinglass_aggregate'', ''coinglass_mexc_only'', ''coingecko''}"
  shows "\<exists>w'. flag_gap target symbol (1000000 * a) (1000000 * b) step source w =
      (Inr (nat ((1000 * (b - a) + step - 1) div step)), w') \<and>
    prefix (rows_of (w_db w) target) (rows_of (w_db w') target) \<and>
    keys_of (w_db w') target = keys_of (w_db w) target \<union>
      {[CText symbol, CTs (1000 * (1000 * a + int k * step))] |k. 1000 * a + int k * step < 1000 * b}"
proof -
  have ms: "ms_of_ts (1000000 * a) = 1000 * a" "ms_of_ts (1000000 * b) = 1000 * b"
    using assms(2,3,4) by (auto intro!: ms_of_ts_whole_seconds)
  have src: "CText source \<in> set SOURCE_ENUM" using assms(6) by (auto simp: SOURCE_ENUM_def)
  have "{[CText symbol, CTs (1000 * c)] |c. c \<in> set (gap_cursors (1000 * a) (1000 * b) step)} =
      {[CText symbol, CTs (1000 * (1000 * a + int k * step))] |k. 1000 * a + int k * step < 1000 * b}"
    unfolding set_gap_cursors [OF assms(5)] by blast
  moreover have "1000 * b - 1000 * a + step - 1 = 1000 * (b - a) + step - 1" by simp
  ultimately show ?thesis
    using flag_gap_spec [OF assms(1), of "1000000 * a" "1000000 * b" step source symbol]
      assms(2-5) src ms length_gap_cursors [OF assms(5), of "1000 * a" "1000 * b"] by simp
qed

definition sample_candle_db :: db where
  "sample_candle_db = [''raw_mexc_candles_1m'' \<mapsto> \<lparr>t_schema = tbl_raw_mexc_candles_1m, t_rows = []\<rparr>]"

lemma sample_candle_db: "candle_db ''raw_mexc_candles_1m'' sample_candle_db"
  by (simp add: candle_db_def sample_candle_db_def candle_schema_def)

lemma flag_gap_covers_window_witness:
  "\<exists>w'. flag_gap ''raw_mexc_candles_1m'' ''BTC'' (1000000 * 60) (1000000 * 180) 60000 ''mexc_native''
     (calm_world 1000 sample_candle_db) = (Inr 2, w')"
  using flag_gap_covers_window [of "''raw_mexc_candles_1m''" "calm_world 1000 sample_candle_db" 60 180
      60000 "''mexc_native''" "''BTC''"] sample_candle_db by auto

end
