(* ===== verification/Dead_Letter.thy ===== *)
theory Dead_Letter
  imports Events
begin

text \<open>
  src/shortfire/ingest/dead_letter/writer.py: the row every rejected payload becomes, and
  the write itself with the conflict target the source names. The engine singleton is taken
  as initialised (Process_Context models the singletons).
\<close>

definition dead_letter_columns :: "string list" where
  "dead_letter_columns =
     [''id'', ''ts'', ''source'', ''endpoint'', ''symbol'', ''raw_payload'', ''error_type'',
      ''error_msg'', ''retries_attempted'', ''quality_flag'']"

definition dead_letter_conflict :: "string list" where
  "dead_letter_conflict = [''id'']"

definition dead_letter_record ::
  "nat \<Rightarrow> int \<Rightarrow> string \<Rightarrow> string \<Rightarrow> wire \<Rightarrow> string \<Rightarrow> string \<Rightarrow> string \<Rightarrow> int \<Rightarrow> cell list" where
  "dead_letter_record uuid now source endpoint sy payload error_type error_msg retries =
     [CUuid uuid, CTs now, CText source, CText endpoint, cell_of_wire sy, CText payload,
      CText error_type, CText (take 2000 error_msg), CInt retries, CText ''schema_warn'']"

definition write_to_dead_letter ::
  "string \<Rightarrow> string \<Rightarrow> wire \<Rightarrow> string \<Rightarrow> string \<Rightarrow> string \<Rightarrow> unit io" where
  "write_to_dead_letter source endpoint sy payload error_type error_msg =
     bindI readI (\<lambda>r.
       thenI (copyI ''dead_letter''
                [dead_letter_record (rd_uuid r) (rd_now r) source endpoint sy payload error_type error_msg 0]
                dead_letter_columns dead_letter_conflict)
         (retI ()))"

text \<open>
  The handler the loops share:
  \<open>except Exception as exc: await write_to_dead_letter(..., type(exc).__name__, str(exc)[:2000])\<close>.
\<close>

definition route_to_dead_letter :: "string \<Rightarrow> string \<Rightarrow> wire \<Rightarrow> string \<Rightarrow> exc \<Rightarrow> unit io" where
  "route_to_dead_letter source endpoint sy payload e =
     bindI (getI (\<lambda>w. take 2000 (e_msg (w_env w) e))) (\<lambda>msg.
       write_to_dead_letter source endpoint sy payload (exc_name e) msg)"

definition rendered :: "wire \<Rightarrow> string io" where
  "rendered v = getI (\<lambda>w. e_str (w_env w) v)"

context ingest_invariant
begin

lemma keeps_write_to_dead_letter: "keeps I (write_to_dead_letter s ep sy p t m)"
  unfolding write_to_dead_letter_def by (intro keeps_intros primitives)

lemma keeps_route_to_dead_letter: "keeps I (route_to_dead_letter s ep sy p e)"
  unfolding route_to_dead_letter_def by (intro keeps_intros keeps_write_to_dead_letter)

lemma keeps_rendered: "keeps I (rendered v)"
  unfolding rendered_def by (intro keeps_intros)

lemmas dead_letter_primitives = keeps_write_to_dead_letter keeps_route_to_dead_letter keeps_rendered

end

lemma keeps_table_dead_letter:
  "t \<noteq> ''dead_letter'' \<Longrightarrow> keeps (\<lambda>w. w_db w t = v) (write_to_dead_letter s ep sy p ty m)"
  "t \<noteq> ''dead_letter'' \<Longrightarrow> keeps (\<lambda>w. w_db w t = v) (route_to_dead_letter s ep sy p e)"
  "keeps (\<lambda>w. w_db w t = v) (rendered x)"
  unfolding route_to_dead_letter_def write_to_dead_letter_def rendered_def
  by (intro keeps_intros keeps_table; simp)+

section \<open>On the migrated schema\<close>

definition migrated_dead_letter :: "world \<Rightarrow> bool" where
  "migrated_dead_letter w \<longleftrightarrow> schema_of (w_db w) ''dead_letter'' = Some tbl_dead_letter"

lemma dead_letter_no_arbiter: "\<not> has_arbiter tbl_dead_letter dead_letter_conflict"
  by (auto simp: has_arbiter_def tbl_dead_letter_def dead_letter_conflict_def)

lemma write_fails:
  assumes "migrated_dead_letter w"
  shows "\<exists>e. write_to_dead_letter s ep sy p t m w =
    (Inl (DbError e), w\<lparr>w_pos := w_pos w + 2\<rparr>)"
proof -
  obtain ts where ts: "w_db w ''dead_letter'' = Some ts" "t_schema ts = tbl_dead_letter"
    using assms by (auto simp: migrated_dead_letter_def schema_of_def)
  have "\<exists>e. copy_into_hypertable x (w_db w) ''dead_letter'' [r] dead_letter_columns dead_letter_conflict
      = Inl (DbError e)" for x r
    using ts dead_letter_no_arbiter by (intro copy_no_arbiter) auto
  then obtain f where "\<And>x r. copy_into_hypertable x (w_db w) ''dead_letter'' [r] dead_letter_columns
      dead_letter_conflict = Inl (DbError (f x r))" by metis
  then show ?thesis
    by (simp add: write_to_dead_letter_def readI_def copyI_def bindI_def thenI_def)
qed

lemma route_fails:
  assumes "migrated_dead_letter w"
  shows "\<exists>f. route_to_dead_letter s ep sy p e w = (Inl (DbError f), w\<lparr>w_pos := w_pos w + 2\<rparr>)"
  using write_fails [OF assms] by (simp add: route_to_dead_letter_def getI_def bindI_def)

text \<open>C25: On the schema the migrations create, the dead-letter writer cannot store anything: its
  conflict target is the id alone while the only unique index is on id and ts, so every call
  raises a database error and leaves the database untouched.\<close>

theorem dead_letter_write_raises:
  assumes "schema_of (w_db w) ''dead_letter'' = Some tbl_dead_letter"
  shows "(\<exists>e. fst (write_to_dead_letter source endpoint sy payload error_type error_msg w) = Inl (DbError e)) \<and>
    w_db (snd (write_to_dead_letter source endpoint sy payload error_type error_msg w)) = w_db w"
  using write_fails [of w source endpoint sy payload error_type error_msg] assms
  by (auto simp: migrated_dead_letter_def)

definition dead_letter_db :: db where
  "dead_letter_db = [''dead_letter'' \<mapsto> \<lparr>t_schema = tbl_dead_letter, t_rows = []\<rparr>]"

lemma dead_letter_write_raises_witness:
  "\<exists>e. fst (write_to_dead_letter ''mexc_native'' ''fetch_ohlcv'' WNone ''{}'' ''ValueError'' ''bad''
     (calm_world 0 dead_letter_db)) = Inl (DbError e)"
  using dead_letter_write_raises [of "calm_world 0 dead_letter_db"]
  by (simp add: dead_letter_db_def schema_of_def)

text \<open>With the primary key as the conflict target the same row is stored.\<close>

lemma dead_letter_row_fits:
  assumes "source \<in> {''mexc_native'', ''coinglass_aggregate'', ''coingecko''}"
  shows "\<exists>row. copy_into_hypertable x dead_letter_db ''dead_letter''
      [dead_letter_record u now source ep WNone payload et msg 0]
      dead_letter_columns [''id'', ''ts''] =
    Inr ([''dead_letter'' \<mapsto> \<lparr>t_schema = tbl_dead_letter, t_rows = [row]\<rparr>], 1)"
  using assms
  by (auto simp: copy_into_hypertable_def dead_letter_db_def merge_rows_def undefined_column_def
      col_names_def tbl_dead_letter_def col_def dead_letter_columns_def dead_letter_record_def
      stage_row_def stage_cell_def required_def has_arbiter_def guardE_def check_row_def cell_of_def
      SOURCE_ENUM_def QUALITY_FLAG_ENUM_def insert_do_nothing_def row_keys_def lift_db_def)

end
