(* ===== verification/Settings.thy ===== *)
theory Settings
  imports Wire "HOL-Library.AList"
begin

text \<open>
  src/shortfire/settings and src/shortfire/db/engine.py: the settings classes as records
  (a subclass extends the record of its base class), the pre-validator that routes
  DATABASE_URL into the db block, the summaries written to the startup log, the trade-key
  guard, and the URL rewriting. The environment is the association list of os.environ.
\<close>

datatype secret = Secret (get_secret_value: string)

type_synonym environ = "(string \<times> string) list"

definition env_file :: "environ \<Rightarrow> string option" where
  "env_file e =
     (if (case map_of e ''ENV'' of None \<Rightarrow> ''local'' | Some v \<Rightarrow> v) \<noteq> ''production''
      then Some ''.env.local'' else None)"

record db_settings =
  db_url :: string
  pool_size :: int
  pool_pre_ping :: bool
  pool_recycle :: int

definition DBSettings :: "string \<Rightarrow> db_settings" where
  "DBSettings url = \<lparr>db_url = url, pool_size = 5, pool_pre_ping = True, pool_recycle = 1800\<rparr>"

record common_settings =
  log_level :: string
  cs_env :: string

definition CommonSettings :: "string \<Rightarrow> string \<Rightarrow> common_settings res" where
  "CommonSettings level e =
     bindE (guardE (level \<in> {''DEBUG'', ''INFO'', ''WARN'', ''ERROR''}) ValidationError) (\<lambda>_.
     bindE (guardE (e \<in> {''local'', ''ci'', ''staging'', ''production''}) ValidationError) (\<lambda>_.
     Inr \<lparr>log_level = level, cs_env = e\<rparr>))"

definition lower :: "string \<Rightarrow> string" where
  "lower = map to_lower_char"

fun extract_db_url :: "wdict \<Rightarrow> string option" where
  "extract_db_url [] = None"
| "extract_db_url ((key, val) # data) =
     (if lower key = ''database_url''
      then (case val of WStr s \<Rightarrow> Some s | _ \<Rightarrow> extract_db_url data)
      else extract_db_url data)"

definition build_db :: "wire \<Rightarrow> wire" where
  "build_db data =
     (case data of
        WDict d \<Rightarrow>
          (case extract_db_url d of
             None \<Rightarrow> WDict d
           | Some u \<Rightarrow>
               (case map_of d ''db'' of
                  Some (WDict _) \<Rightarrow> WDict d
                | _ \<Rightarrow> WDict (AList.update ''db'' (WDict [(''url'', WStr u)]) d)))
      | _ \<Rightarrow> data)"

section \<open>The settings classes\<close>

record base_settings =
  service_name :: string
  port :: int
  database_url :: string
  db :: db_settings
  common :: common_settings

record mexc_read_settings =
  read_key :: secret
  read_secret :: secret

record telegram_settings =
  bot_token :: secret
  operator_chat_id :: string

record r2_backup_settings =
  account_id :: string
  access_key_id :: secret
  secret_access_key :: secret
  bucket_name :: string

record data_platform_settings = base_settings +
  mexc :: "mexc_read_settings option"
  coinglass :: "secret option"
  coingecko :: "secret option"
  telegram :: "telegram_settings option"
  r2_backup :: "r2_backup_settings option"

record mexc_trade_settings =
  trade_key :: secret
  trade_secret :: secret

record strategy_engine_settings = base_settings +
  mlflow_tracking_uri :: "string option"
  mexc_trade :: "mexc_trade_settings option"

record dashboard_settings = base_settings +
  dash_telegram :: "secret option"

section \<open>Summaries\<close>

text \<open>\<open>url.split("@", 1)[-1].split("/")[0]\<close>\<close>

definition db_host :: "string \<Rightarrow> string" where
  "db_host url =
     (case split1 ''@'' url of
        None \<Rightarrow> ''<unknown>''
      | Some (_, after_at) \<Rightarrow> takeWhile (\<lambda>c. c \<noteq> CHR ''/'') after_at)"

definition safe_summary :: "('a) base_settings_scheme \<Rightarrow> wdict" where
  "safe_summary s =
     [(''service_name'', WStr (service_name s)),
      (''port'', WInt (port s)),
      (''env'', WStr (cs_env (common s))),
      (''log_level'', WStr (log_level (common s))),
      (''db_host'', WStr (db_host (db_url (db s))))]"

definition data_platform_summary :: "data_platform_settings \<Rightarrow> wdict" where
  "data_platform_summary s = safe_summary s @
     [(''mexc_read_configured'', WBool (mexc s \<noteq> None)),
      (''coinglass_configured'', WBool (coinglass s \<noteq> None)),
      (''coingecko_configured'', WBool (coingecko s \<noteq> None)),
      (''telegram_configured'', WBool (telegram s \<noteq> None)),
      (''r2_backup_configured'', WBool (r2_backup s \<noteq> None))]"

definition strategy_engine_summary :: "strategy_engine_settings \<Rightarrow> wdict" where
  "strategy_engine_summary s = safe_summary s @
     [(''mexc_trade_configured'', WBool (mexc_trade s \<noteq> None)),
      (''mlflow_configured'', WBool (mlflow_tracking_uri s \<noteq> None))]"

definition dashboard_summary :: "dashboard_settings \<Rightarrow> wdict" where
  "dashboard_summary s = safe_summary s @ [(''telegram_configured'', WBool (dash_telegram s \<noteq> None))]"

section \<open>The trade-key guard\<close>

definition startswith :: "string \<Rightarrow> string \<Rightarrow> bool" where
  "startswith s p \<longleftrightarrow> take (length p) s = p"

definition leaked_keys :: "environ \<Rightarrow> string list" where
  "leaked_keys e = filter (\<lambda>k. startswith k ''MEXC_TRADE__'') (map fst e)"

definition assert_no_trade_env_leaked :: "environ \<Rightarrow> unit res" where
  "assert_no_trade_env_leaked e =
     guardE (leaked_keys e = [])
       (RuntimeError ''FATAL: trade-only env vars visible to data-platform'')"

section \<open>Database URLs\<close>

definition rewrite_scheme :: "string \<Rightarrow> string" where
  "rewrite_scheme url =
     (if startswith url ''postgres://'' \<or> startswith url ''postgresql://''
      then (case split1 ''://'' url of
              None \<Rightarrow> url
            | Some (_, rest) \<Rightarrow> ''postgresql+asyncpg://'' @ rest)
      else url)"

definition rewrite_url :: "string \<Rightarrow> string res" where
  "rewrite_url url = (if url = [] then Inl ValueError else Inr (rewrite_scheme url))"

definition create_engine_from_env :: "environ \<Rightarrow> string res" where
  "create_engine_from_env e =
     (case map_of e ''DATABASE_URL'' of
        None \<Rightarrow> Inl (KeyError ''DATABASE_URL'')
      | Some raw_url \<Rightarrow> rewrite_url raw_url)"

definition resolved_url :: "environ \<Rightarrow> string res" where
  "resolved_url e =
     (case map_of e ''DATABASE_URL'' of
        None \<Rightarrow> Inl (KeyError ''DATABASE_URL'')
      | Some url \<Rightarrow> Inr (rewrite_scheme url))"

section \<open>Lemmas\<close>

lemma db_host_strips: "CHR ''@'' \<notin> set creds \<Longrightarrow> db_host (creds @ CHR ''@'' # rest) = takeWhile (\<lambda>c. c \<noteq> CHR ''/'') rest"
  by (simp add: db_host_def split1_char)

lemma split_postgres: "split1 ''://'' (''postgres://'' @ rest) = Some (''postgres'', rest)"
  by simp

lemma split_postgresql: "split1 ''://'' (''postgresql://'' @ rest) = Some (''postgresql'', rest)"
  by simp

lemma startswith_append: "startswith s p \<longleftrightarrow> (\<exists>rest. s = p @ rest)"
  unfolding startswith_def by (metis append_eq_conv_conj append_take_drop_id)

lemma rewrite_scheme_cases:
  obtains rest where "url = ''postgres://'' @ rest" "rewrite_scheme url = ''postgresql+asyncpg://'' @ rest"
  | rest where "url = ''postgresql://'' @ rest" "rewrite_scheme url = ''postgresql+asyncpg://'' @ rest"
  | "rewrite_scheme url = url" "\<not> startswith url ''postgres://''" "\<not> startswith url ''postgresql://''"
proof (cases "startswith url ''postgres://''")
  case True
  then show ?thesis using that(1) by (auto simp: startswith_append rewrite_scheme_def)
next
  case no: False
  show ?thesis
  proof (cases "startswith url ''postgresql://''")
    case True
    then show ?thesis using that(2) by (auto simp: startswith_append rewrite_scheme_def)
  next
    case False
    with no show ?thesis using that(3) by (simp add: rewrite_scheme_def)
  qed
qed

lemma rewrite_scheme_idem: "rewrite_scheme (rewrite_scheme url) = rewrite_scheme url"
  by (cases url rule: rewrite_scheme_cases) (auto simp: rewrite_scheme_def startswith_def)

text \<open>C30: Rewriting a DATABASE_URL fails exactly on the empty text; otherwise the result never
  carries one of the two legacy schemes, keeps everything behind the scheme, and rewriting it
  again changes nothing, so the application engine and the migrations connect to the same URL.\<close>

theorem rewrite_url_correct:
  "(rewrite_url url = Inl ValueError \<longleftrightarrow> url = []) \<and>
   (url = [] \<or> (\<exists>u. rewrite_url url = Inr u \<and> rewrite_url u = Inr u \<and>
      \<not> startswith u ''postgres://'' \<and> \<not> startswith u ''postgresql://'' \<and>
      (u = url \<or> (\<exists>rest. u = ''postgresql+asyncpg://'' @ rest \<and>
         (url = ''postgres://'' @ rest \<or> url = ''postgresql://'' @ rest))) \<and>
      create_engine_from_env ((''DATABASE_URL'', url) # e) =
        resolved_url ((''DATABASE_URL'', url) # e)))"
proof (cases "url = []")
  case True
  then show ?thesis by (simp add: rewrite_url_def)
next
  case False
  have "rewrite_scheme url \<noteq> []" using False by (cases url rule: rewrite_scheme_cases) auto
  then have "rewrite_url url = Inr (rewrite_scheme url)"
    "rewrite_url (rewrite_scheme url) = Inr (rewrite_scheme url)"
    using False by (simp_all add: rewrite_url_def rewrite_scheme_idem)
  moreover have "\<not> startswith (rewrite_scheme url) ''postgres://'' \<and>
      \<not> startswith (rewrite_scheme url) ''postgresql://'' \<and>
      (rewrite_scheme url = url \<or> (\<exists>rest. rewrite_scheme url = ''postgresql+asyncpg://'' @ rest \<and>
         (url = ''postgres://'' @ rest \<or> url = ''postgresql://'' @ rest)))"
    by (cases url rule: rewrite_scheme_cases) (auto simp: startswith_def)
  ultimately show ?thesis
    using False by (auto simp: create_engine_from_env_def resolved_url_def)
qed


definition sample_settings :: "string \<Rightarrow> string \<Rightarrow> data_platform_settings" where
  "sample_settings url key =
     \<lparr>service_name = ''data-platform'', port = 8000, database_url = url, db = DBSettings url,
      common = \<lparr>log_level = ''INFO'', cs_env = ''local''\<rparr>,
      mexc = Some \<lparr>read_key = Secret key, read_secret = Secret key\<rparr>,
      coinglass = Some (Secret key), coingecko = None, telegram = None, r2_backup = None\<rparr>"


text \<open>The premise on the at sign is needed: a password that contains one is logged in part.\<close>

lemma summary_leaks_password_tail: "db_host ''p://u:one@two@db:5432/x'' = ''two@db:5432''"
  by (simp add: db_host_def)

text \<open>The guard raises exactly when some variable of the environment starts with the
  trade-key prefix.\<close>

theorem trade_guard_iff:
  "(\<exists>msg. assert_no_trade_env_leaked e = Inl (RuntimeError msg)) \<longleftrightarrow>
   (\<exists>k v. (k, v) \<in> set e \<and> (\<exists>rest. k = ''MEXC_TRADE__'' @ rest))"
  unfolding startswith_append [symmetric]
  by (auto simp: assert_no_trade_env_leaked_def leaked_keys_def guardE_def filter_empty_conv)

text \<open>Pydantic matches variables case-insensitively, the guard does not.\<close>

lemma trade_guard_lower_case: "assert_no_trade_env_leaked [(''mexc_trade__trade_key'', ''k'')] = Inr ()"
  by (simp add: assert_no_trade_env_leaked_def leaked_keys_def startswith_def guardE_def)

end
