(* ===== verification/Mexc_Client.thy ===== *)
theory Mexc_Client
  imports Dead_Letter Settings
begin

text \<open>
  src/shortfire/ingest/retry.py, rate_limit.py, mexc/schemas.py and mexc/client.py: the
  retry policies, the wire schemas with their conversion to the domain types, and the
  client methods. The answer of the ccxt client is an argument: a remote call made at the
  \<open>n\<close>-th reading of the run returns \<open>remote n\<close>, a value or an exception.
\<close>

section \<open>Retries and limits\<close>

definition callI :: "(nat \<Rightarrow> 'a res) \<Rightarrow> 'a io" where
  "callI remote = (\<lambda>w. (remote (w_pos w), w\<lparr>w_pos := Suc (w_pos w)\<rparr>))"

text \<open>tenacity with stop_after_attempt(n + 1) and reraise: the last exception escapes.\<close>

fun retryI :: "(exc \<Rightarrow> bool) \<Rightarrow> nat \<Rightarrow> 'a io \<Rightarrow> 'a io" where
  "retryI p 0 m w = m w"
| "retryI p (Suc n) m w =
     (case m w of
        (Inl e, w') \<Rightarrow> if p e then retryI p n m w' else (Inl e, w')
      | (Inr x, w') \<Rightarrow> (Inr x, w'))"

fun is_http_error :: "exc \<Rightarrow> bool" where
  "is_http_error (HTTPStatusError _) = True"
| "is_http_error TransportError = True"
| "is_http_error _ = False"

definition mexc_retry :: "'a io \<Rightarrow> 'a io" where
  "mexc_retry = retryI (\<lambda>e. is_http_error e \<or> e = TimeoutError) 5"

definition coinglass_retry :: "'a io \<Rightarrow> 'a io" where
  "coinglass_retry = retryI is_http_error 4"

definition coingecko_retry :: "'a io \<Rightarrow> 'a io" where
  "coingecko_retry = retryI is_http_error 3"

text \<open>Requests per period of seconds of each AsyncLimiter.\<close>

definition MEXC_LIMITER :: "nat \<times> nat" where "MEXC_LIMITER = (18, 1)"
definition COINGLASS_LIMITER :: "nat \<times> nat" where "COINGLASS_LIMITER = (28, 60)"
definition COINGECKO_LIMITER :: "nat \<times> nat" where "COINGECKO_LIMITER = (28, 60)"

lemma keeps_retryI [keeps_intros]: "keeps I m \<Longrightarrow> keeps I (retryI p n m)"
proof (induction n)
  case 0
  then show ?case by (simp add: keeps_def)
next
  case (Suc n)
  then show ?case by (fastforce simp: keeps_def split: prod.splits sum.splits)
qed

lemma retryI_not_retried:
  "m w = (Inl e, w') \<Longrightarrow> \<not> p e \<Longrightarrow> retryI p n m w = (Inl e, w')"
  by (cases n) auto

section \<open>schemas.py\<close>

fun parse_int :: "string \<Rightarrow> int option" where
  "parse_int s =
     (case split_sign (strip s) of (neg, ds) \<Rightarrow>
        if ds \<noteq> [] \<and> list_all is_digit ds
        then Some (if neg then - digits_val ds else digits_val ds) else None)"

text \<open>\<open>int(v)\<close>\<close>

fun int_of_wire :: "wire \<Rightarrow> int res" where
  "int_of_wire (WInt i) = Inr i"
| "int_of_wire (WBool b) = Inr (if b then 1 else 0)"
| "int_of_wire (WFloat (Fin c e)) = Inr (py_int (fl (dval (Fin c e))))"
| "int_of_wire (WFloat NaN) = Inl ValueError"
| "int_of_wire (WFloat (Infinity _)) = Inl (Foreign ''OverflowError'')"
| "int_of_wire (WStr s) = (case parse_int s of None \<Rightarrow> Inl ValueError | Some i \<Rightarrow> Inr i)"
| "int_of_wire _ = Inl TypeError"

record ohlcv_row =
  mo_symbol :: string
  mo_timeframe :: string
  mo_ts_ms :: int
  mo_open :: decimal
  mo_high :: decimal
  mo_low :: decimal
  mo_close :: decimal
  mo_volume :: decimal

definition from_ccxt_row :: "string \<Rightarrow> string \<Rightarrow> wire list \<Rightarrow> ohlcv_row res" where
  "from_ccxt_row symbol timeframe row =
     (if length row < 6 then Inl ValueError
      else
        bindE (int_of_wire (row ! 0)) (\<lambda>ts_ms.
        bindE (dec_of_wire (row ! 1)) (\<lambda>op.
        bindE (dec_of_wire (row ! 2)) (\<lambda>hi.
        bindE (dec_of_wire (row ! 3)) (\<lambda>lo.
        bindE (dec_of_wire (row ! 4)) (\<lambda>cl.
        bindE (dec_of_wire (row ! 5)) (\<lambda>vol.
        bindE (check (list_all is_finite [op, hi, lo, cl, vol])) (\<lambda>_.
        Inr \<lparr>mo_symbol = symbol, mo_timeframe = timeframe, mo_ts_ms = ts_ms, mo_open = op,
             mo_high = hi, mo_low = lo, mo_close = cl, mo_volume = vol\<rparr>))))))))"

definition ohlcv_to_domain :: "ohlcv_row \<Rightarrow> candle res" where
  "ohlcv_to_domain r =
     bindE (ts_from_ms (mo_ts_ms r)) (\<lambda>ts.
       Candle (mo_symbol r) ''mexc_native'' (mo_timeframe r) (Aware ts) (mo_open r) (mo_high r)
         (mo_low r) (mo_close r) (mo_volume r))"

text \<open>A strict \<open>int\<close> field and the \<open>dict | None\<close> field \<open>info\<close>.\<close>

fun strict_int :: "wire \<Rightarrow> int res" where
  "strict_int (WInt i) = Inr i"
| "strict_int _ = Inl ValidationError"

fun info_field :: "wire \<Rightarrow> unit res" where
  "info_field WNone = Inr ()"
| "info_field (WDict _) = Inr ()"
| "info_field _ = Inl ValidationError"

record funding_row =
  mf_symbol :: string
  mf_timestamp :: int
  mf_fundingTimestamp :: int
  mf_fundingRate :: decimal

definition funding_row_of :: "string \<Rightarrow> wdict \<Rightarrow> funding_row res" where
  "funding_row_of symbol d =
     bindE (dget d ''timestamp'') (\<lambda>ts.
     bindE (dget d ''fundingRate'') (\<lambda>rt.
     bindE (dec_of_wire rt) (\<lambda>rate.
     bindE (strict_int ts) (\<lambda>timestamp.
     bindE (strict_int (dget_or d ''fundingTimestamp'' ts)) (\<lambda>settle.
     bindE (fin_field rate) (\<lambda>_.
     bindE (info_field (dget_or d ''info'' WNone)) (\<lambda>_.
     Inr \<lparr>mf_symbol = symbol, mf_timestamp = timestamp, mf_fundingTimestamp = settle,
          mf_fundingRate = rate\<rparr>)))))))"

definition funding_to_domain :: "funding_row \<Rightarrow> funding res" where
  "funding_to_domain r =
     bindE (ts_from_ms (mf_timestamp r)) (\<lambda>pub.
     bindE (ts_from_ms (mf_fundingTimestamp r)) (\<lambda>settle.
     Funding (mf_symbol r) ''mexc_native'' (Aware pub) (Aware settle) (mf_fundingRate r) None))"

record oi_row =
  mi_symbol :: string
  mi_timestamp :: int
  mi_amount :: decimal
  mi_value :: decimal

definition oi_row_of :: "string \<Rightarrow> wdict \<Rightarrow> oi_row res" where
  "oi_row_of symbol d =
     bindE (dget d ''timestamp'') (\<lambda>ts.
     bindE (dec_of_wire (w_or (dget_or d ''openInterestAmount'' WNone) (WStr ''0''))) (\<lambda>amount.
     bindE (dec_of_wire (w_or (dget_or d ''openInterestValue'' WNone) (WStr ''0''))) (\<lambda>value.
     bindE (strict_int ts) (\<lambda>timestamp.
     bindE (fin_field amount) (\<lambda>_.
     bindE (fin_field value) (\<lambda>_.
     bindE (info_field (dget_or d ''info'' WNone)) (\<lambda>_.
     Inr \<lparr>mi_symbol = symbol, mi_timestamp = timestamp, mi_amount = amount, mi_value = value\<rparr>)))))))"

definition oi_to_record :: "oi_row \<Rightarrow> cell list res" where
  "oi_to_record r =
     bindE (ts_from_ms (mi_timestamp r)) (\<lambda>ts.
       Inr [CText (mi_symbol r), CTs ts, CNum (mi_amount r), CText ''mexc_native'', CText ''ok'', CNull])"

record trade_row =
  mt_symbol :: string
  mt_id :: string
  mt_timestamp :: int
  mt_side :: string
  mt_price :: decimal
  mt_amount :: decimal

definition TradeRow ::
  "string \<Rightarrow> string \<Rightarrow> int \<Rightarrow> string \<Rightarrow> decimal \<Rightarrow> decimal \<Rightarrow> trade_row res" where
  "TradeRow symbol tid tms side price amount =
     bindE (check (side \<in> {''buy'', ''sell''})) (\<lambda>_.
     bindE (fin_field price) (\<lambda>_.
     bindE (fin_field amount) (\<lambda>_.
     Inr \<lparr>mt_symbol = symbol, mt_id = tid, mt_timestamp = tms, mt_side = side,
          mt_price = price, mt_amount = amount\<rparr>)))"

definition trade_to_record :: "trade_row \<Rightarrow> cell list res" where
  "trade_to_record r =
     bindE (ts_from_ms (mt_timestamp r)) (\<lambda>ts.
       Inr [CText (mt_symbol r), CTs ts, CText (mt_id r), CText (mt_side r), CNum (mt_price r),
            CNum (mt_amount r), CText ''mexc_native'', CText ''ok'', CNull])"

section \<open>client.py\<close>

text \<open>The constructor needs the read credentials; it passes exactly them to ccxt.\<close>

definition build_mexc_swap_client :: "data_platform_settings \<Rightarrow> (string \<times> string) res" where
  "build_mexc_swap_client s =
     (case mexc s of
        None \<Rightarrow> Inl (RuntimeError ''DataPlatformSettings.mexc must be configured for live ingest'')
      | Some m \<Rightarrow> Inr (get_secret_value (read_key m), get_secret_value (read_secret m)))"

text \<open>The remote call with its handler: dead-letter the exception, then raise it again.\<close>

definition guarded_call :: "string \<Rightarrow> string \<Rightarrow> (nat \<Rightarrow> 'a res) \<Rightarrow> 'a io" where
  "guarded_call endpoint symbol remote =
     catchI (callI remote)
       (\<lambda>e. thenI (bindI (getI (\<lambda>w. e_msg (w_env w) e)) (\<lambda>msg.
                write_to_dead_letter ''mexc_native'' endpoint (WStr symbol) '''' (exc_name e) msg))
              (raiseI e))"

text \<open>Each element is parsed on its own; one that fails is dead-lettered and skipped.\<close>

definition parse_each :: "string \<Rightarrow> string \<Rightarrow> ('a \<Rightarrow> wire) \<Rightarrow> ('a \<Rightarrow> 'b res) \<Rightarrow> 'a list \<Rightarrow> 'b list io" where
  "parse_each endpoint symbol payload parse raw =
     foldI (\<lambda>acc x.
       catchI (bindI (liftI (parse x)) (\<lambda>y. retI (acc @ [y])))
         (\<lambda>e. bindI (rendered (payload x)) (\<lambda>p.
              thenI (route_to_dead_letter ''mexc_native'' endpoint (WStr symbol) p e) (retI acc))))
       [] raw"

type_synonym ohlcv_api = "string \<Rightarrow> string \<Rightarrow> int \<Rightarrow> nat \<Rightarrow> wire list list res"
type_synonym history_api = "string \<Rightarrow> int \<Rightarrow> nat \<Rightarrow> wdict list res"

definition parse_candle :: "string \<Rightarrow> string \<Rightarrow> wire list \<Rightarrow> candle res" where
  "parse_candle symbol timeframe row = bindE (from_ccxt_row symbol timeframe row) ohlcv_to_domain"

definition fetch_ohlcv :: "ohlcv_api \<Rightarrow> string \<Rightarrow> string \<Rightarrow> int \<Rightarrow> int \<Rightarrow> candle list io" where
  "fetch_ohlcv api symbol timeframe since until =
     mexc_retry
       (bindI (guarded_call ''fetch_ohlcv'' symbol (api symbol timeframe (ms_of_ts since))) (\<lambda>raw.
        parse_each ''fetch_ohlcv'' symbol WList (parse_candle symbol timeframe) raw))"

definition fetch_funding_rate_history :: "history_api \<Rightarrow> string \<Rightarrow> int \<Rightarrow> int \<Rightarrow> funding list io" where
  "fetch_funding_rate_history api symbol since until =
     mexc_retry
       (bindI (guarded_call ''fetch_funding_rate_history'' symbol (api symbol (ms_of_ts since))) (\<lambda>raw.
        parse_each ''fetch_funding_rate_history'' symbol WDict
          (\<lambda>d. bindE (funding_row_of symbol d) funding_to_domain) raw))"

definition fetch_open_interest_history ::
  "(string \<Rightarrow> string \<Rightarrow> nat \<Rightarrow> wdict list res) \<Rightarrow> string \<Rightarrow> string \<Rightarrow> oi_row list io" where
  "fetch_open_interest_history api symbol timeframe =
     mexc_retry
       (bindI (guarded_call ''fetch_open_interest_history'' symbol (api symbol timeframe)) (\<lambda>raw.
        parse_each ''fetch_open_interest_history'' symbol WDict (oi_row_of symbol) raw))"

text \<open>\<open>raw[k][:depth]\<close> and \<open>OrderBookLevel(price=Decimal(str(b[0])), qty=Decimal(str(b[1])))\<close>\<close>

fun elements :: "wire \<Rightarrow> wire list res" where
  "elements (WList xs) = Inr xs"
| "elements _ = Inl TypeError"

definition index :: "wire list \<Rightarrow> nat \<Rightarrow> wire res" where
  "index xs i = (if i < length xs then Inr (xs ! i) else Inl IndexError)"

definition level_of :: "wire \<Rightarrow> level res" where
  "level_of b =
     bindE (elements b) (\<lambda>xs.
     bindE (index xs 0) (\<lambda>p0. bindE (dec_of_wire p0) (\<lambda>p.
     bindE (index xs 1) (\<lambda>q0. bindE (dec_of_wire q0) (\<lambda>q.
     OrderBookLevel p q)))))"

definition levels_of :: "wdict \<Rightarrow> string \<Rightarrow> nat \<Rightarrow> level list res" where
  "levels_of d k depth =
     bindE (dget d k) (\<lambda>v. bindE (elements v) (\<lambda>xs. mapE level_of (take depth xs)))"

definition fetch_order_book :: "(string \<Rightarrow> nat \<Rightarrow> nat \<Rightarrow> wdict res) \<Rightarrow> string \<Rightarrow> nat \<Rightarrow> order_book io" where
  "fetch_order_book api symbol depth =
     mexc_retry
       (bindI (guarded_call ''fetch_order_book'' symbol (api symbol depth)) (\<lambda>raw.
        bindI readI (\<lambda>r.
        liftI
          (bindE (if truthy (dget_or raw ''timestamp'' WNone)
                  then ts_of_wire (dget_or raw ''timestamp'' WNone) else Inr (rd_now r)) (\<lambda>ts.
           bindE (levels_of raw ''bids'' depth) (\<lambda>bids.
           bindE (levels_of raw ''asks'' depth) (\<lambda>asks.
           OrderBook symbol ''mexc_native'' (Aware ts) bids asks)))))))"

definition place_order :: "order \<Rightarrow> string res" where
  "place_order ord = Inl NotImplementedError"

definition cancel_order :: "string \<Rightarrow> unit res" where
  "cancel_order client_order_id = Inl NotImplementedError"

context ingest_invariant
begin

lemma keeps_callI: "keeps I (callI remote)"
proof -
  have "keeps I (callI remote)" if "keeps I readI"
    using that by (simp add: keeps_def callI_def readI_def)
  then show ?thesis using keeps_readI by blast
qed

lemma keeps_guarded_call: "keeps I (guarded_call endpoint symbol remote)"
  unfolding guarded_call_def by (intro keeps_intros keeps_callI keeps_write_to_dead_letter)

lemma keeps_parse_each: "keeps I (parse_each endpoint symbol payload parse raw)"
  unfolding parse_each_def by (intro keeps_intros dead_letter_primitives)

lemma keeps_fetch_ohlcv: "keeps I (fetch_ohlcv api symbol tf since until)"
  unfolding fetch_ohlcv_def mexc_retry_def by (intro keeps_intros keeps_guarded_call keeps_parse_each)

lemma keeps_fetch_funding: "keeps I (fetch_funding_rate_history api2 symbol since until)"
  unfolding fetch_funding_rate_history_def mexc_retry_def
  by (intro keeps_intros keeps_guarded_call keeps_parse_each)

lemma keeps_fetch_oi: "keeps I (fetch_open_interest_history api3 symbol tf)"
  unfolding fetch_open_interest_history_def mexc_retry_def
  by (intro keeps_intros keeps_guarded_call keeps_parse_each)

lemma keeps_fetch_order_book: "keeps I (fetch_order_book api4 symbol depth)"
  unfolding fetch_order_book_def mexc_retry_def
  by (intro keeps_intros keeps_guarded_call primitives)

lemmas keeps_mexc_client = keeps_callI keeps_guarded_call keeps_parse_each keeps_fetch_ohlcv
  keeps_fetch_funding keeps_fetch_oi keeps_fetch_order_book

end

section \<open>What the client returns\<close>

lemma guarded_call_ok:
  "remote (w_pos w) = Inr x \<Longrightarrow> guarded_call ep sy remote w = (Inr x, w\<lparr>w_pos := Suc (w_pos w)\<rparr>)"
  by (simp add: guarded_call_def callI_def catchI_def)

lemma guarded_call_fails:
  assumes "migrated_dead_letter w" "remote (w_pos w) = Inl e" "is_Exception e"
  shows "\<exists>f. guarded_call ep sy remote w = (Inl (DbError f), w\<lparr>w_pos := w_pos w + 3\<rparr>)"
proof -
  let ?w = "w\<lparr>w_pos := Suc (w_pos w)\<rparr>"
  have "migrated_dead_letter ?w" using assms(1) by (simp add: migrated_dead_letter_def)
  from write_fails [OF this] obtain f where
    "\<And>m. \<exists>f. write_to_dead_letter ''mexc_native'' ep (WStr sy) '''' (exc_name e) m ?w =
      (Inl (DbError f), ?w\<lparr>w_pos := w_pos ?w + 2\<rparr>)" by blast
  then obtain f where "write_to_dead_letter ''mexc_native'' ep (WStr sy) '''' (exc_name e)
      (e_msg (w_env w) e) ?w = (Inl (DbError f), ?w\<lparr>w_pos := w_pos ?w + 2\<rparr>)" by blast
  then show ?thesis
    using assms(2,3) by (simp add: guarded_call_def callI_def catchI_def thenI_def bindI_def getI_def
        eval_nat_numeral)
qed

lemma parse_fold_ok:
  "mapE parse raw = Inr ys \<Longrightarrow>
   foldI (\<lambda>acc x. catchI (bindI (liftI (parse x)) (\<lambda>y. retI (acc @ [y]))) (h acc x)) acc raw w
     = (Inr (acc @ ys), w)"
  by (induction raw arbitrary: acc ys) (auto simp: res_simps retI_def bindI_def liftI_def catchI_def)

lemma parse_each_ok: "mapE parse raw = Inr ys \<Longrightarrow> parse_each ep sy payload parse raw w = (Inr ys, w)"
  by (simp add: parse_each_def parse_fold_ok)

text \<open>C26: On the migrated schema a failing MEXC call is never retried: whatever ordinary exception ccxt
  raises, also the TimeoutError the policy names, the handler's dead-letter write raises a
  database error in its place, which is not retried, so exactly one request is made.\<close>

theorem mexc_failure_not_retried:
  assumes "schema_of (w_db w) ''dead_letter'' = Some tbl_dead_letter"
    and "api symbol timeframe (ms_of_ts since) (w_pos w) = Inl e" "e \<noteq> CancelledError"
  shows "\<exists>f. fetch_ohlcv api symbol timeframe since until w =
    (Inl (DbError f), w\<lparr>w_pos := w_pos w + 3\<rparr>)"
proof -
  have "migrated_dead_letter w" "is_Exception e"
    using assms by (simp_all add: migrated_dead_letter_def is_Exception_def)
  from guarded_call_fails [where remote = "api symbol timeframe (ms_of_ts since)", OF this(1) assms(2) this(2), of "''fetch_ohlcv''" symbol]
  obtain f where "guarded_call ''fetch_ohlcv'' symbol (api symbol timeframe (ms_of_ts since)) w =
      (Inl (DbError f), w\<lparr>w_pos := w_pos w + 3\<rparr>)" by blast
  then show ?thesis
    unfolding fetch_ohlcv_def mexc_retry_def
    by (intro exI retryI_not_retried) (simp_all add: bindI_def)
qed

lemma mexc_failure_not_retried_witness:
  "\<exists>f. fetch_ohlcv (\<lambda>_ _ _ _. Inl TimeoutError) ''BTC'' ''1m'' 0 0 (calm_world 0 dead_letter_db) =
    (Inl (DbError f), (calm_world 0 dead_letter_db)\<lparr>w_pos := 3\<rparr>)"
  using mexc_failure_not_retried [of "calm_world 0 dead_letter_db" "\<lambda>_ _ _ _. Inl TimeoutError" "''BTC''"
      "''1m''" 0 TimeoutError 0]
  by (simp add: dead_letter_db_def schema_of_def)

lemma parse_candle_ok:
  assumes "parse_candle symbol timeframe row = Inr c"
  shows "candle_ok c \<and> c_symbol c = symbol \<and> c_source c = Mexc_native \<and>
    timeframe_text (c_timeframe c) = timeframe"
proof -
  obtain r ts where r: "from_ccxt_row symbol timeframe row = Inr r"
    "Candle (mo_symbol r) ''mexc_native'' (mo_timeframe r) (Aware ts) (mo_open r) (mo_high r)
       (mo_low r) (mo_close r) (mo_volume r) = Inr c"
    using assms by (auto simp: parse_candle_def ohlcv_to_domain_def res_simps)
  have "mo_symbol r = symbol" "mo_timeframe r = timeframe"
    using r(1) by (auto simp: from_ccxt_row_def res_simps split: if_splits)
  then show ?thesis
    using r(2) Candle_ok [OF r(2)]
    by (auto simp: Candle_def res_simps Source_def Timeframe_def literal_def
        split: if_splits option.splits dest!: literal_sound)
qed

end
