(* ===== verification/Backfill.thy ===== *)
theory Backfill
  imports Candle_Store Mexc_Client
begin

text \<open>
  src/shortfire/ingest/mexc/backfill.py: the paginated OHLCV backfill of one symbol and the
  funding backfill. The pagination loop need not end when the exchange repeats a page, so it
  runs on fuel: \<open>None\<close> means that the fuel ran out, and enough fuel is a theorem. The
  client is any implementation of the MexcClient protocol, a locale that the model of
  mexc/client.py interprets.
\<close>

definition TIMEFRAME_MS :: "(string \<times> int) list" where
  "TIMEFRAME_MS =
    [(''1m'', 60000), (''5m'', 300000), (''15m'', 900000), (''1h'', 3600000), (''4h'', 14400000),
     (''1d'', 86400000)]"

definition TIMEFRAME_TO_TABLE :: "(string \<times> string) list" where
  "TIMEFRAME_TO_TABLE = [(''1m'', ''raw_mexc_candles_1m''), (''1d'', ''raw_mexc_candles_1d'')]"

type_synonym ohlcv_fetch = "string \<Rightarrow> string \<Rightarrow> int \<Rightarrow> int \<Rightarrow> candle list io"

definition backfill_record :: "candle \<Rightarrow> cell list" where
  "backfill_record c =
     candle_record (CText (c_symbol c)) (instant (c_ts c)) (c_open c) (c_high c) (c_low c) (c_close c)
       (c_volume c) ''mexc_native'' ''ok''"

fun backfill_loop ::
  "ohlcv_fetch \<Rightarrow> string \<Rightarrow> string \<Rightarrow> string \<Rightarrow> int \<Rightarrow> int \<Rightarrow> nat \<Rightarrow> int \<Rightarrow> nat \<Rightarrow> nat option io" where
  "backfill_loop fetch symbol timeframe target ms_step end_ms fuel cursor total_written =
     (if \<not> cursor < end_ms then retI (Some total_written)
      else case fuel of
        0 \<Rightarrow> retI None
      | Suc n \<Rightarrow>
          bindI (liftI (ts_from_ms cursor)) (\<lambda>since_dt.
          bindI (liftI (ts_from_ms end_ms)) (\<lambda>until_dt.
          bindI (fetch symbol timeframe since_dt until_dt) (\<lambda>candles.
          if candles = [] then retI (Some total_written)
          else
            bindI (copyI target (map backfill_record candles) candle_columns candle_conflict) (\<lambda>k.
            backfill_loop fetch symbol timeframe target ms_step end_ms n
              (ms_of_ts (instant (c_ts (last candles))) + ms_step) (total_written + k))))))"

declare backfill_loop.simps [simp del]

definition backfill_ohlcv ::
  "nat \<Rightarrow> ohlcv_fetch \<Rightarrow> string \<Rightarrow> string \<Rightarrow> int \<Rightarrow> int \<Rightarrow> nat option io" where
  "backfill_ohlcv fuel fetch symbol timeframe since until =
     (case map_of TIMEFRAME_TO_TABLE timeframe of
        None \<Rightarrow>
          thenI (logI ''ohlcv.backfill.skipped_ca_timeframe''
                   [(''symbol'', WStr symbol), (''timeframe'', WStr timeframe)])
            (retI (Some 0))
      | Some target \<Rightarrow>
          (case map_of TIMEFRAME_MS timeframe of
             None \<Rightarrow> raiseI (KeyError timeframe)
           | Some ms_step \<Rightarrow>
               bindI (backfill_loop fetch symbol timeframe target ms_step (ms_of_ts until) fuel
                        (ms_of_ts since) 0) (\<lambda>r.
               case r of
                 None \<Rightarrow> retI None
               | Some n \<Rightarrow>
                   thenI (logI ''ohlcv.backfill.completed''
                            [(''symbol'', WStr symbol), (''timeframe'', WStr timeframe),
                             (''total_written'', WInt (int n))])
                     (retI (Some n)))))"

definition funding_columns :: "string list" where
  "funding_columns =
     [''symbol'', ''settlement_ts'', ''published_ts'', ''funding_rate'', ''next_funding_ts'', ''source'',
      ''quality_flag'']"

definition funding_conflict :: "string list" where
  "funding_conflict = [''symbol'', ''settlement_ts'']"

definition funding_record :: "funding \<Rightarrow> cell list" where
  "funding_record f =
     [CText (f_symbol f), CTs (instant (f_settlement_ts f)), CTs (instant (f_published_ts f)),
      CNum (f_rate f), (case f_next_funding_ts f of None \<Rightarrow> CNull | Some t \<Rightarrow> CTs (instant t)),
      CText ''mexc_native'', CText ''ok'']"

definition backfill_funding ::
  "(string \<Rightarrow> int \<Rightarrow> int \<Rightarrow> funding list io) \<Rightarrow> string \<Rightarrow> int \<Rightarrow> int \<Rightarrow> nat io" where
  "backfill_funding fetch symbol since until =
     bindI (fetch symbol since until) (\<lambda>fundings.
     if fundings = [] then retI 0
     else
       bindI (copyI ''raw_mexc_funding'' (map funding_record fundings) funding_columns funding_conflict)
         (\<lambda>n. thenI (logI ''funding.backfill.completed''
                       [(''symbol'', WStr symbol), (''total_written'', WInt (int n))])
               (retI n)))"

section \<open>The client protocol\<close>

text \<open>
  What the backfill relies on (src/shortfire/clients/mexc.py): a returned candle is a valid
  domain object of the requested symbol, and a fetch that returns has touched no table.
\<close>

locale ohlcv_client =
  fixes fetch :: ohlcv_fetch
  assumes fetch_valid: "fetch sy tf a b w = (Inr cs, w') \<Longrightarrow> c \<in> set cs \<Longrightarrow> candle_ok c \<and> c_symbol c = sy"
    and fetch_grows: "keeps (\<lambda>w. \<forall>t. prefix (rows t) (rows_of (w_db w) t)) (fetch sy tf a b)"
begin

lemma loop_grows:
  "keeps (\<lambda>w. \<forall>t. prefix (rows t) (rows_of (w_db w) t))
     (backfill_loop fetch symbol tf target step e fuel cursor total_written)"
proof (induction fuel arbitrary: cursor total_written)
  case 0
  show ?case by (subst backfill_loop.simps) (auto intro!: keeps_intros)
next
  case (Suc n)
  show ?case
    by (subst backfill_loop.simps)
      (auto intro!: keeps_intros fetch_grows Suc.IH grow.keeps_copyI simp del: not_less)
qed

end

lemma retryI_result: "retryI p n m w = (Inr x, w') \<Longrightarrow> \<exists>v v'. m v = (Inr x, v')"
proof (induction n arbitrary: w)
  case 0
  then show ?case by auto
next
  case (Suc n)
  then show ?case by (auto split: prod.splits sum.splits if_splits)
qed

lemma parse_fold_result:
  assumes "foldI (\<lambda>acc x. catchI (bindI (liftI (parse x)) (\<lambda>y. retI (acc @ [y])))
      (\<lambda>e. bindI (rendered (payload x)) (\<lambda>p. thenI (h x p e) (retI acc)))) acc raw w = (Inr ys, w')"
    and "y \<in> set ys"
  shows "y \<in> set acc \<or> (\<exists>x\<in>set raw. parse x = Inr y)"
  using assms
proof (induction raw arbitrary: acc w)
  case Nil
  then show ?case by (simp add: retI_def)
next
  case (Cons x xs)
  let ?body = "\<lambda>acc x. catchI (bindI (liftI (parse x)) (\<lambda>y. retI (acc @ [y])))
      (\<lambda>e. bindI (rendered (payload x)) (\<lambda>p. thenI (h x p e) (retI acc)))"
  obtain acc1 w1 where s1: "?body acc x w = (Inr acc1, w1)" "foldI ?body acc1 xs w1 = (Inr ys, w')"
    using Cons.prems(1) by (auto simp: bindI_def split: prod.splits sum.splits)
  have "acc1 = acc \<or> (\<exists>z. parse x = Inr z \<and> acc1 = acc @ [z])"
    using s1(1)
    by (cases "parse x")
      (auto simp: catchI_def bindI_def liftI_def retI_def thenI_def rendered_def getI_def
         split: if_splits prod.splits sum.splits)
  then show ?case using Cons.IH [OF s1(2) Cons.prems(2)] by auto
qed

lemma parse_each_result:
  "parse_each ep sy payload parse raw w = (Inr ys, w') \<Longrightarrow> y \<in> set ys \<Longrightarrow> \<exists>x\<in>set raw. parse x = Inr y"
  unfolding parse_each_def by (drule parse_fold_result) auto

interpretation mexc: ohlcv_client "fetch_ohlcv api" for api
proof
  fix sy tf a b w cs w' c
  assume "fetch_ohlcv api sy tf a b w = (Inr cs, w')" and c: "c \<in> set cs"
  then obtain v raw v' where "parse_each ''fetch_ohlcv'' sy WList (parse_candle sy tf) raw v = (Inr cs, v')"
    unfolding fetch_ohlcv_def mexc_retry_def
    by (auto dest!: retryI_result simp: bindI_def split: prod.splits sum.splits)
  then obtain row where "parse_candle sy tf row = Inr c" using c by (blast dest: parse_each_result)
  then show "candle_ok c \<and> c_symbol c = sy" using parse_candle_ok by blast
next
  fix rows sy tf a b
  show "keeps (\<lambda>w. \<forall>t. prefix (rows t) (rows_of (w_db w) t)) (fetch_ohlcv api sy tf a b)"
    by (rule grow.keeps_fetch_ohlcv)
qed

context ingest_invariant
begin

lemma keeps_backfill_funding:
  "(\<And>a b. keeps I (fetch sy a b)) \<Longrightarrow> keeps I (backfill_funding fetch sy since until)"
  unfolding backfill_funding_def by (intro keeps_intros primitives)

end

section \<open>Pagination is complete\<close>

text \<open>
  The documented contract of the exchange, as a hypothesis on the remote call: it answers
  with the first 1000 of its candles at or after the requested time. The archive holds valid
  rows of the symbol, at least one step apart, in the years in which milliseconds survive the
  conversions (PyTime); a limit other than 1000 would serve as well if it is positive.
\<close>

fun row_ms :: "wire list \<Rightarrow> int" where
  "row_ms (WInt i # _) = i"
| "row_ms _ = 0"

definition page :: "wire list list \<Rightarrow> int \<Rightarrow> wire list list" where
  "page archive since_ms = take 1000 (filter (\<lambda>r. since_ms \<le> row_ms r) archive)"

definition serves :: "ohlcv_api \<Rightarrow> string \<Rightarrow> string \<Rightarrow> wire list list \<Rightarrow> bool" where
  "serves api symbol timeframe archive \<longleftrightarrow>
     (\<forall>since_ms n. api symbol timeframe since_ms n = Inr (page archive since_ms))"

definition safe_ms :: "int \<Rightarrow> bool" where
  "safe_ms ms \<longleftrightarrow> 1100000000000 \<le> ms \<and> ms < 2147483648000"

definition archive_row :: "string \<Rightarrow> string \<Rightarrow> wire list \<Rightarrow> bool" where
  "archive_row symbol timeframe r \<longleftrightarrow> safe_ms (row_ms r) \<and>
     (\<exists>c. parse_candle symbol timeframe r = Inr c \<and>
        list_all fits [c_open c, c_high c, c_low c, c_close c, c_volume c])"

definition good_archive :: "string \<Rightarrow> string \<Rightarrow> int \<Rightarrow> wire list list \<Rightarrow> bool" where
  "good_archive symbol timeframe step archive \<longleftrightarrow>
     list_all (archive_row symbol timeframe) archive \<and>
     sorted_wrt (\<lambda>a b. row_ms a + step \<le> row_ms b) archive"

lemma archive_row_candle:
  assumes "archive_row symbol timeframe r"
  shows "\<exists>c. parse_candle symbol timeframe r = Inr c \<and> c_ts c = Aware (1000 * row_ms r) \<and>
    good_candle (backfill_record c) \<and> take 2 (backfill_record c) = [CText symbol, CTs (1000 * row_ms r)]"
proof -
  obtain c where c: "parse_candle symbol timeframe r = Inr c"
    "list_all fits [c_open c, c_high c, c_low c, c_close c, c_volume c]" and ms: "safe_ms (row_ms r)"
    using assms by (auto simp: archive_row_def)
  obtain i xs where r: "r = WInt i # xs"
    using ms by (cases r rule: row_ms.cases) (auto simp: safe_ms_def)
  obtain q ts where q: "from_ccxt_row symbol timeframe r = Inr q" "ts_from_ms (mo_ts_ms q) = Inr ts"
    "Candle (mo_symbol q) ''mexc_native'' (mo_timeframe q) (Aware ts) (mo_open q) (mo_high q)
       (mo_low q) (mo_close q) (mo_volume q) = Inr c"
    using c(1) by (auto simp: parse_candle_def ohlcv_to_domain_def res_simps)
  have "mo_ts_ms q = i" using q(1) r by (auto simp: from_ccxt_row_def res_simps split: if_splits)
  then have "ts = 1000 * row_ms r"
    using q(2) ms r by (simp add: safe_ms_def ts_from_ms_exact)
  then have ts: "c_ts c = Aware (1000 * row_ms r)" using q(3) by (auto simp: Candle_def res_simps)
  have sy: "c_symbol c = symbol" using parse_candle_ok [OF c(1)] by simp
  have "good_candle (backfill_record c)"
    unfolding good_candle_def backfill_record_def sy using c(2)
    by (force simp: SOURCE_ENUM_def QUALITY_FLAG_ENUM_def)
  moreover have "take 2 (backfill_record c) = [CText symbol, CTs (1000 * row_ms r)]"
    by (simp add: backfill_record_def candle_record_def sy ts)
  ultimately show ?thesis using c(1) ts by blast
qed

text \<open>The candles of a page.\<close>

definition page_of :: "string \<Rightarrow> wire list list \<Rightarrow> candle list \<Rightarrow> bool" where
  "page_of symbol = list_all2 (\<lambda>r c. c_ts c = Aware (1000 * row_ms r) \<and> good_candle (backfill_record c) \<and>
     take 2 (backfill_record c) = [CText symbol, CTs (1000 * row_ms r)])"

lemma fetch_page:
  assumes "serves api symbol timeframe archive" "list_all (archive_row symbol timeframe) archive"
    and "safe_ms cursor"
  shows "\<exists>cs. fetch_ohlcv api symbol timeframe (1000 * cursor) until w = (Inr cs, w\<lparr>w_pos := Suc (w_pos w)\<rparr>) \<and>
    page_of symbol (page archive cursor) cs"
proof -
  have "\<forall>r\<in>set (page archive cursor). archive_row symbol timeframe r"
    using assms(2) by (auto simp: page_def list_all_iff dest: in_set_takeD)
  then have "\<forall>r\<in>set (page archive cursor). \<exists>c. parse_candle symbol timeframe r = Inr c \<and>
      c_ts c = Aware (1000 * row_ms r) \<and> good_candle (backfill_record c) \<and>
      take 2 (backfill_record c) = [CText symbol, CTs (1000 * row_ms r)]"
    using archive_row_candle by blast
  then obtain g where g: "\<And>r. r \<in> set (page archive cursor) \<Longrightarrow> parse_candle symbol timeframe r = Inr (g r) \<and>
      c_ts (g r) = Aware (1000 * row_ms r) \<and> good_candle (backfill_record (g r)) \<and>
      take 2 (backfill_record (g r)) = [CText symbol, CTs (1000 * row_ms r)]" by metis
  let ?w = "w\<lparr>w_pos := Suc (w_pos w)\<rparr>"
  have ms: "ms_of_ts (1000 * cursor) = cursor" using assms(3) by (simp add: safe_ms_def ms_of_ts_exact)
  have call: "guarded_call ''fetch_ohlcv'' symbol (api symbol timeframe cursor) w = (Inr (page archive cursor), ?w)"
    using assms(1) by (intro guarded_call_ok) (simp add: serves_def)
  have "mapE (parse_candle symbol timeframe) (page archive cursor) = Inr (map g (page archive cursor))"
    using g by (intro mapE_total) blast
  from parse_each_ok [OF this] have "fetch_ohlcv api symbol timeframe (1000 * cursor) until w =
      (Inr (map g (page archive cursor)), ?w)"
    by (simp add: fetch_ohlcv_def mexc_retry_def ms call bindI_def eval_nat_numeral)
  then show ?thesis using g by (auto simp: page_of_def list_all2_conv_all_nth)
qed

lemma page_split:
  assumes "sorted_wrt (\<lambda>a b. row_ms a + step \<le> row_ms b) archive" "0 < step" "page archive cursor \<noteq> []"
    and "r \<in> set archive" "cursor \<le> row_ms r" "row_ms r < row_ms (last (page archive cursor)) + step"
  shows "r \<in> set (page archive cursor)"
proof -
  let ?rest = "filter (\<lambda>r. cursor \<le> row_ms r) archive"
  have r: "r \<in> set ?rest" using assms(4,5) by simp
  have sorted: "sorted_wrt (\<lambda>a b. row_ms a + step \<le> row_ms b) (take 1000 ?rest @ drop 1000 ?rest)"
    using assms(1) by (simp add: sorted_wrt_filter)
  have "row_ms (last (take 1000 ?rest)) + step \<le> row_ms b" if "b \<in> set (drop 1000 ?rest)" for b
    using sorted that last_in_set [OF assms(3)] unfolding sorted_wrt_append page_def by blast
  then have "r \<notin> set (drop 1000 ?rest)" using assms(6) unfolding page_def by force
  then show ?thesis using r by (metis UnE append_take_drop_id page_def set_append)
qed

lemma filter_drops:
  assumes "\<And>r. P r \<Longrightarrow> Q r" "x \<in> set xs" "Q x" "\<not> P x"
  shows "length (filter P xs) < length (filter Q xs)"
proof -
  have "filter P xs = filter P (filter Q xs)" using assms(1) by (auto intro!: filter_cong)
  moreover have "length (filter P (filter Q xs)) < length (filter Q xs)"
    using assms(2,3,4) by (intro length_filter_less [of x]) auto
  ultimately show ?thesis by simp
qed

lemma candle_db_schema: "schema_of d' = schema_of d \<Longrightarrow> candle_db t d \<Longrightarrow> candle_db t d'"
  unfolding candle_db_def schema_of_def by (metis map_option_eq_Some)

text \<open>Rows are only ever added.\<close>

definition grown :: "world \<Rightarrow> world \<Rightarrow> bool" where
  "grown w w' \<longleftrightarrow> (\<forall>t. prefix (rows_of (w_db w) t) (rows_of (w_db w') t)) \<and> schema_of (w_db w') = schema_of (w_db w)"

lemma grown_refl [simp]: "grown w w" "grown w (w\<lparr>w_log := l\<rparr>)" "grown w (w\<lparr>w_pos := n\<rparr>)"
  by (simp_all add: grown_def)

lemma grown_trans: "grown w w' \<Longrightarrow> grown w' w'' \<Longrightarrow> grown w w''"
  by (auto simp: grown_def intro: prefix_order.trans)

lemma grown_keys: "grown w w' \<Longrightarrow> keys_of (w_db w) t \<subseteq> keys_of (w_db w') t"
  unfolding grown_def keys_of_def schema_of_def rows_of_def row_keys_def
  by (cases "w_db w t"; cases "w_db w' t") (auto dest!: spec [of _ t] fun_cong [of _ _ t] intro!: image_eqI dest: set_mono_prefix [THEN subsetD] split: option.splits)

lemma grown_candle_db: "grown w w' \<Longrightarrow> candle_db t (w_db w) \<Longrightarrow> candle_db t (w_db w')"
  unfolding grown_def using candle_db_schema by blast

lemma grown_copyI:
  assumes "copyI target records columns conflict w = (r, w')"
  shows "grown w w'"
  using keepsD [OF grow.keeps_copyI _ assms, of "rows_of (w_db w)"] keepsD [OF schemas.keeps_copyI _ assms, of "schema_of (w_db w)"]
  by (simp add: grown_def)

lemma store_page:
  assumes "list_all (archive_row symbol timeframe) archive" "page_of symbol (page archive cursor) cs" "cs \<noteq> []"
    and "candle_db target (w_db w)"
  shows "\<exists>w'. copyI target (map backfill_record cs) candle_columns candle_conflict w = (Inr (length cs), w') \<and>
    (\<forall>r\<in>set (page archive cursor). [CText symbol, CTs (1000 * row_ms r)] \<in> keys_of (w_db w') target)"
proof -
  let ?recs = "map backfill_record cs"
  have len: "length cs = length (page archive cursor)" using assms(2) by (simp add: page_of_def list_all2_lengthD)
  have "list_all good_candle ?recs"
    using assms(2) by (auto simp: page_of_def list_all_length list_all2_conv_all_nth)
  then obtain w' where w': "copyI target ?recs candle_columns candle_conflict w = (Inr (length ?recs), w')"
    "keys_of (w_db w') target = keys_of (w_db w) target \<union> (take 2) ` set ?recs"
    using copyI_candles [OF assms(4)] by blast
  have "[CText symbol, CTs (1000 * row_ms r)] \<in> (take 2) ` set ?recs" if r: "r \<in> set (page archive cursor)" for r
  proof -
    obtain i where "i < length (page archive cursor)" "page archive cursor ! i = r" using r unfolding in_set_conv_nth by blast
    then have "take 2 (?recs ! i) = [CText symbol, CTs (1000 * row_ms r)]" "?recs ! i \<in> set ?recs"
      using assms(2) len by (auto simp: page_of_def list_all2_conv_all_nth)
    then show ?thesis by (metis image_eqI)
  qed
  then show ?thesis using w' by auto
qed

text \<open>The cursor after a page.\<close>

lemma page_cursor:
  assumes "list_all (archive_row symbol timeframe) archive" "page_of symbol (page archive cursor) cs" "cs \<noteq> []"
  shows "ms_of_ts (instant (c_ts (last cs))) = row_ms (last (page archive cursor))"
    "last (page archive cursor) \<in> set archive" "cursor \<le> row_ms (last (page archive cursor))"
    "1100000000000 \<le> row_ms (last (page archive cursor))" "page archive cursor \<noteq> []"
proof -
  let ?last = "last (page archive cursor)"
  have len: "length cs = length (page archive cursor)" using assms(2) by (simp add: page_of_def list_all2_lengthD)
  then show ne: "page archive cursor \<noteq> []" using assms(3) by auto
  show last: "?last \<in> set archive" "cursor \<le> row_ms ?last"
    using last_in_set [OF ne] by (auto simp: page_def dest: in_set_takeD)
  then have safe: "safe_ms (row_ms ?last)" using assms(1) by (auto simp: list_all_iff archive_row_def)
  then show "1100000000000 \<le> row_ms ?last" by (simp add: safe_ms_def)
  have "c_ts (last cs) = Aware (1000 * row_ms ?last)"
    using assms(2,3) ne len by (simp add: page_of_def list_all2_conv_all_nth last_conv_nth)
  then show "ms_of_ts (instant (c_ts (last cs))) = row_ms ?last"
    using safe by (simp add: safe_ms_def ms_of_ts_exact)
qed

lemma backfill_loop_complete:
  assumes "serves api symbol timeframe archive" "good_archive symbol timeframe step archive" "0 < step"
    and "candle_db target (w_db w)" "1100000000000 \<le> cursor" "end_ms \<le> 2147483648000"
    and "length (filter (\<lambda>r. cursor \<le> row_ms r) archive) < fuel"
  shows "\<exists>n w'. backfill_loop (fetch_ohlcv api) symbol timeframe target step end_ms fuel cursor total_written w
      = (Inr (Some n), w') \<and>
    keys_of (w_db w) target \<subseteq> keys_of (w_db w') target \<and>
    (\<forall>r\<in>set archive. cursor \<le> row_ms r \<and> row_ms r < end_ms \<longrightarrow>
      [CText symbol, CTs (1000 * row_ms r)] \<in> keys_of (w_db w') target) \<and>
    (cursor < end_ms \<longrightarrow> (\<forall>r\<in>set (page archive cursor).
      [CText symbol, CTs (1000 * row_ms r)] \<in> keys_of (w_db w') target))"
  using assms(4-7)
proof (induction fuel arbitrary: cursor total_written w)
  case 0
  then show ?case by simp
next
  case (Suc n)
  show ?case
  proof (cases "cursor < end_ms")
    case False
    then show ?thesis by (subst backfill_loop.simps) (auto simp: retI_def)
  next
    case True
    have safe: "safe_ms cursor" using True Suc.prems by (simp add: safe_ms_def)
    have ok: "list_all (archive_row symbol timeframe) archive"
      "sorted_wrt (\<lambda>a b. row_ms a + step \<le> row_ms b) archive"
      using assms(2) by (auto simp: good_archive_def)
    let ?pg = "page archive cursor" and ?w1 = "w\<lparr>w_pos := Suc (w_pos w)\<rparr>"
    have ts: "ts_from_ms cursor = Inr (1000 * cursor)" "ts_from_ms end_ms = Inr (1000 * end_ms)"
      using True Suc.prems(2,3) by (simp_all add: ts_from_ms_exact)
    obtain cs where cs: "fetch_ohlcv api symbol timeframe (1000 * cursor) (1000 * end_ms) w = (Inr cs, ?w1)"
      "page_of symbol ?pg cs"
      using fetch_page [OF assms(1) ok(1) safe] by blast
    show ?thesis
    proof (cases "cs = []")
      case empty: True
      then have pg: "?pg = []" using cs(2) by (simp add: page_of_def)
      then have "\<not> (\<exists>r\<in>set archive. cursor \<le> row_ms r)"
        by (auto simp: page_def filter_empty_conv take_eq_Nil)
      then show ?thesis
        using True cs(1) ts empty pg by (subst backfill_loop.simps) (auto simp: bindI_def liftI_def retI_def)
    next
      case nonempty: False
      note cursor' = page_cursor [OF ok(1) cs(2) nonempty]
      let ?next = "row_ms (last ?pg) + step"
      obtain w2 where w2: "copyI target (map backfill_record cs) candle_columns candle_conflict ?w1 = (Inr (length cs), w2)"
        "\<forall>r\<in>set ?pg. [CText symbol, CTs (1000 * row_ms r)] \<in> keys_of (w_db w2) target"
        using store_page [OF ok(1) cs(2) nonempty, of target ?w1] Suc.prems(1) by auto
      have g: "grown w w2" by (rule grown_trans [OF _ grown_copyI [OF w2(1)]]) simp
      have dec: "length (filter (\<lambda>r. ?next \<le> row_ms r) archive) < length (filter (\<lambda>r. cursor \<le> row_ms r) archive)"
        using cursor'(2,3) assms(3) by (intro filter_drops [of _ _ "last ?pg"]) auto
      have p1: "1100000000000 \<le> ?next" using cursor'(4) assms(3) by linarith
      have p2: "length (filter (\<lambda>r. ?next \<le> row_ms r) archive) < n" using dec Suc.prems(4) by linarith
      obtain k w' where rest: "backfill_loop (fetch_ohlcv api) symbol timeframe target step end_ms n ?next
          (total_written + length cs) w2 = (Inr (Some k), w')"
        "keys_of (w_db w2) target \<subseteq> keys_of (w_db w') target"
        "\<forall>r\<in>set archive. ?next \<le> row_ms r \<and> row_ms r < end_ms \<longrightarrow>
          [CText symbol, CTs (1000 * row_ms r)] \<in> keys_of (w_db w') target"
        using Suc.IH [OF grown_candle_db [OF g Suc.prems(1)] p1 Suc.prems(3) p2, of "total_written + length cs"] by blast
      have "backfill_loop (fetch_ohlcv api) symbol timeframe target step end_ms (Suc n) cursor total_written w
          = (Inr (Some k), w')"
        using True cs(1) nonempty ts w2(1) rest(1) cursor'(1)
        by (subst backfill_loop.simps) (simp add: bindI_def liftI_def)
      moreover have "[CText symbol, CTs (1000 * row_ms r)] \<in> keys_of (w_db w') target" if "r \<in> set ?pg" for r
        using w2(2) rest(2) that by blast
      moreover have "[CText symbol, CTs (1000 * row_ms r)] \<in> keys_of (w_db w') target"
        if "r \<in> set archive" "cursor \<le> row_ms r" "row_ms r < end_ms" for r
        using rest(2,3) that w2(2) page_split [OF ok(2) assms(3) cursor'(5) that(1,2)] by (cases "?next \<le> row_ms r") auto
      ultimately show ?thesis using rest(2) grown_keys [OF g] by blast
    qed
  qed
qed

definition candle_step :: "string \<Rightarrow> int" where
  "candle_step timeframe = (if timeframe = ''1m'' then 60000 else 86400000)"

definition candle_target :: "string \<Rightarrow> string" where
  "candle_target timeframe = (if timeframe = ''1m'' then ''raw_mexc_candles_1m'' else ''raw_mexc_candles_1d'')"

lemma backfill_runs_loop:
  assumes "timeframe \<in> {''1m'', ''1d''}"
    and "backfill_loop fetch symbol timeframe (candle_target timeframe) (candle_step timeframe)
      (ms_of_ts until) fuel (ms_of_ts since) 0 w = (Inr (Some n), w')"
  shows "\<exists>fs. backfill_ohlcv fuel fetch symbol timeframe since until w =
    (Inr (Some n), w'\<lparr>w_log := w_log w' @ [(''ohlcv.backfill.completed'', fs)]\<rparr>)"
  using assms
  by (auto simp: backfill_ohlcv_def TIMEFRAME_TO_TABLE_def TIMEFRAME_MS_def candle_step_def
      candle_target_def bindI_def thenI_def logI_def updI_def retI_def)

lemma candle_step_pos: "0 < candle_step timeframe"
  by (simp add: candle_step_def)

lemma backfill_window:
  assumes "serves api symbol timeframe archive" "timeframe \<in> {''1m'', ''1d''}"
    and "good_archive symbol timeframe (candle_step timeframe) archive"
    and "candle_db (candle_target timeframe) (w_db w)" "safe_ms a" "safe_ms b"
  shows "\<exists>n w'. backfill_ohlcv (Suc (length archive)) (fetch_ohlcv api) symbol timeframe (1000 * a) (1000 * b) w
      = (Inr (Some n), w') \<and>
    (\<forall>r\<in>set archive. a \<le> row_ms r \<and> row_ms r < b \<longrightarrow>
      [CText symbol, CTs (1000 * row_ms r)] \<in> keys_of (w_db w') (candle_target timeframe)) \<and>
    (a < b \<longrightarrow> (\<forall>r\<in>set (page archive a).
      [CText symbol, CTs (1000 * row_ms r)] \<in> keys_of (w_db w') (candle_target timeframe))) \<and>
    (\<forall>t. prefix (rows_of (w_db w) t) (rows_of (w_db w') t))"
proof -
  let ?t = "candle_target timeframe" and ?s = "candle_step timeframe"
  have ms: "ms_of_ts (1000 * a) = a" "ms_of_ts (1000 * b) = b"
    using assms(5,6) by (auto simp: safe_ms_def ms_of_ts_exact)
  have "length (filter (\<lambda>r. a \<le> row_ms r) archive) < Suc (length archive)"
    by (simp add: less_Suc_eq_le)
  moreover have "1100000000000 \<le> a" "b \<le> 2147483648000" using assms(5,6) by (simp_all add: safe_ms_def)
  ultimately obtain n w' where loop: "backfill_loop (fetch_ohlcv api) symbol timeframe ?t ?s b
      (Suc (length archive)) a 0 w = (Inr (Some n), w')"
    "\<forall>r\<in>set archive. a \<le> row_ms r \<and> row_ms r < b \<longrightarrow>
      [CText symbol, CTs (1000 * row_ms r)] \<in> keys_of (w_db w') ?t"
    "a < b \<longrightarrow> (\<forall>r\<in>set (page archive a). [CText symbol, CTs (1000 * row_ms r)] \<in> keys_of (w_db w') ?t)"
    using backfill_loop_complete [OF assms(1,3) candle_step_pos assms(4), of a b "Suc (length archive)" 0]
    by blast
  have "\<forall>t. prefix (rows_of (w_db w) t) (rows_of (w_db w') t)"
    using keepsD [OF mexc.loop_grows _ loop(1)] by simp
  moreover obtain fs where "backfill_ohlcv (Suc (length archive)) (fetch_ohlcv api) symbol timeframe
      (1000 * a) (1000 * b) w = (Inr (Some n), w'\<lparr>w_log := w_log w' @ [(''ohlcv.backfill.completed'', fs)]\<rparr>)"
    using backfill_runs_loop [OF assms(2)] loop(1) ms by metis
  ultimately show ?thesis using loop(2,3) by simp
qed


definition sample_row :: "int \<Rightarrow> wire list" where
  "sample_row ms = [WInt ms, WInt 1, WInt 2, WInt 1, WInt 2, WInt 5]"

lemma sample_row_archived: "safe_ms ms \<Longrightarrow> archive_row ''BTC'' ''1m'' (sample_row ms)"
  by (simp add: archive_row_def sample_row_def parse_candle_def from_ccxt_row_def ohlcv_to_domain_def
      safe_ms_def ts_from_ms_exact Candle_def Source_def Timeframe_def literal_def field_defs
      fits_def scale_to_def pow10_def)


text \<open>The window's end does not bound what is stored: whenever the window is not empty, the whole
  first page is written, also the candles at or after the end, which the documentation
  excludes (the client ignores the end of the window).\<close>

theorem backfill_overshoots_window:
  assumes "serves api symbol timeframe archive" "timeframe \<in> {''1m'', ''1d''}"
    and "good_archive symbol timeframe (candle_step timeframe) archive"
    and "candle_db (candle_target timeframe) (w_db w)" "safe_ms a" "safe_ms b" "a < b"
  shows "\<exists>n w'. backfill_ohlcv (Suc (length archive)) (fetch_ohlcv api) symbol timeframe (1000 * a) (1000 * b) w
      = (Inr (Some n), w') \<and>
    (\<forall>r\<in>set (page archive a).
      [CText symbol, CTs (1000 * row_ms r)] \<in> keys_of (w_db w') (candle_target timeframe))"
  using backfill_window [OF assms(1-6)] assms(7) by blast

lemma backfill_overshoots_window_witness:
  "\<exists>n w'. backfill_ohlcv 2 (fetch_ohlcv (\<lambda>_ _ ms _. Inr (page [sample_row 1700000100000] ms)))
      ''BTC'' ''1m'' (1000 * 1700000000000) (1000 * 1700000060000) (calm_world 0 sample_candle_db)
      = (Inr (Some n), w') \<and>
    [CText ''BTC'', CTs (1000 * 1700000100000)] \<in> keys_of (w_db w') ''raw_mexc_candles_1m''"
proof -
  let ?a = "[sample_row 1700000100000]"
  have "serves (\<lambda>_ _ ms _. Inr (page ?a ms)) ''BTC'' ''1m'' ?a" by (simp add: serves_def)
  moreover have "good_archive ''BTC'' ''1m'' (candle_step ''1m'') ?a"
    by (auto simp: good_archive_def candle_step_def safe_ms_def intro!: sample_row_archived)
  moreover have "candle_db (candle_target ''1m'') (w_db (calm_world 0 sample_candle_db))"
    using sample_candle_db by (simp add: candle_target_def)
  moreover have "row_ms (sample_row 1700000100000) = 1700000100000" by (simp add: sample_row_def)
  ultimately show ?thesis
    using backfill_overshoots_window [of _ "''BTC''" "''1m''" ?a "calm_world 0 sample_candle_db" 1700000000000 1700000060000]
    by (force simp: safe_ms_def candle_target_def eval_nat_numeral page_def)
qed

section \<open>A repeated page\<close>

text \<open>An exchange that answers every request with the candle before the requested time.\<close>

definition stuck_api :: "int \<Rightarrow> ohlcv_api" where
  "stuck_api a = (\<lambda>_ _ _ _. Inr [sample_row (a - 60000)])"

lemma stuck_loop:
  assumes "safe_ms (a - 60000)" "safe_ms a" "a < b" "b \<le> 2147483648000"
    and "candle_db target (w_db w)"
  shows "\<exists>w'. backfill_loop (fetch_ohlcv (stuck_api a)) ''BTC'' ''1m'' target 60000 b fuel a total_written w
    = (Inr None, w')"
  using assms(5)
proof (induction fuel arbitrary: total_written w)
  case 0
  then show ?case using assms(3) by (subst backfill_loop.simps) (simp add: retI_def)
next
  case (Suc n)
  let ?r = "sample_row (a - 60000)" and ?w1 = "w\<lparr>w_pos := Suc (w_pos w)\<rparr>"
  have ts: "ts_from_ms a = Inr (1000 * a)" "ts_from_ms b = Inr (1000 * b)" "ms_of_ts (1000 * a) = a"
    using assms(2-4) by (simp_all add: safe_ms_def ts_from_ms_exact ms_of_ts_exact)
  obtain c where c: "parse_candle ''BTC'' ''1m'' ?r = Inr c" "c_ts c = Aware (1000 * row_ms ?r)"
    "good_candle (backfill_record c)"
    using archive_row_candle [OF sample_row_archived [OF assms(1)]] by blast
  have "guarded_call ''fetch_ohlcv'' ''BTC'' (stuck_api a ''BTC'' ''1m'' a) w = (Inr [?r], ?w1)"
    by (intro guarded_call_ok) (simp add: stuck_api_def)
  moreover have "mapE (parse_candle ''BTC'' ''1m'') [?r] = Inr [c]" using c(1) by simp
  ultimately have fetch: "fetch_ohlcv (stuck_api a) ''BTC'' ''1m'' (1000 * a) (1000 * b) w = (Inr [c], ?w1)"
    by (simp add: fetch_ohlcv_def mexc_retry_def ts bindI_def parse_each_ok eval_nat_numeral)
  have next_ms: "ms_of_ts (instant (c_ts c)) + 60000 = a"
    using assms(1) ms_of_ts_exact [of "a - 60000"] by (simp add: c(2) sample_row_def safe_ms_def)
  obtain w2 where w2: "copyI target [backfill_record c] candle_columns candle_conflict ?w1 = (Inr 1, w2)"
    "schema_of (w_db w2) = schema_of (w_db ?w1)"
    using copyI_candles [of target ?w1 "[backfill_record c]"] Suc.prems c(3) by auto
  have "candle_db target (w_db w2)" by (rule candle_db_schema [OF w2(2)]) (simp add: Suc.prems)
  from Suc.IH [OF this] obtain w' where "backfill_loop (fetch_ohlcv (stuck_api a)) ''BTC'' ''1m'' target
      60000 b n a (total_written + 1) w2 = (Inr None, w')" by blast
  then show ?case
    using assms(3) fetch next_ms w2(1) ts by (subst backfill_loop.simps) (simp add: bindI_def liftI_def)
qed

text \<open>The pagination has no guard against a page that does not advance: when the exchange answers
  every request with the candle just before the requested time, the backfill runs out of any
  amount of fuel, that is, it never returns.\<close>

theorem backfill_repeated_page_never_ends:
  assumes "safe_ms (a - 60000)" "safe_ms a" "safe_ms b" "a < b"
    and "candle_db ''raw_mexc_candles_1m'' (w_db w)"
  shows "\<forall>fuel. \<exists>w'. backfill_ohlcv fuel (fetch_ohlcv (stuck_api a)) ''BTC'' ''1m'' (1000 * a) (1000 * b) w
    = (Inr None, w')"
proof
  fix fuel
  have "ms_of_ts (1000 * a) = a" "ms_of_ts (1000 * b) = b" "b \<le> 2147483648000"
    using assms(2,3) by (simp_all add: safe_ms_def ms_of_ts_exact)
  then show "\<exists>w'. backfill_ohlcv fuel (fetch_ohlcv (stuck_api a)) ''BTC'' ''1m'' (1000 * a) (1000 * b) w
    = (Inr None, w')"
    using stuck_loop [OF assms(1,2,4) _ assms(5), of fuel 0]
    by (auto simp: backfill_ohlcv_def TIMEFRAME_TO_TABLE_def TIMEFRAME_MS_def bindI_def retI_def)
qed

lemma backfill_repeated_page_never_ends_witness:
  "\<exists>w'. backfill_ohlcv 5 (fetch_ohlcv (stuck_api 1700000100000)) ''BTC'' ''1m'' (1000 * 1700000100000)
     (1000 * 1700000200000) (calm_world 0 sample_candle_db) = (Inr None, w')"
  using backfill_repeated_page_never_ends [of 1700000100000 1700000200000 "calm_world 0 sample_candle_db"]
    sample_candle_db by (simp add: safe_ms_def)

end
