(* ===== verification/Live_Streams.thy ===== *)
theory Live_Streams
  imports Minute_Aggregator Backfill
begin

text \<open>
  The five websocket loops of src/shortfire/ingest/mexc (live_candles.py, trades.py,
  funding.py, liquidations.py, orderbook.py). A loop consumes the messages its watch call
  delivers, each a value or an exception; a finite list of messages is a prefix of a run,
  after which the loop waits for the next one. Local variables of a loop (aggregator,
  buffer, time of the last flush) are the state it threads through.
\<close>

section \<open>The shape of a loop\<close>

definition stream_run :: "('s \<Rightarrow> 'm \<Rightarrow> 's io) \<Rightarrow> unit io \<Rightarrow> 's \<Rightarrow> 'm list \<Rightarrow> 's io" where
  "stream_run body fin s ms = (\<lambda>w.
     case foldI body s ms w of
       (Inl e, w') \<Rightarrow> thenI fin (raiseI e) w'
     | (Inr s', w') \<Rightarrow> (Inr s', w'))"

text \<open>
  \<open>try: x = await raw.watch_...\<close> with the reconnect branch: count, log, wait, continue.
\<close>

definition on_message ::
  "string \<Rightarrow> (string \<times> wire) list \<Rightarrow> 'm res \<Rightarrow> 's io \<Rightarrow> ('m \<Rightarrow> 's io) \<Rightarrow> 's io" where
  "on_message stream fs msg continue k =
     (case msg of
        Inl e \<Rightarrow>
          if is_Exception e
          then thenI (incI ''ws_reconnects_total'' [''mexc_native'', stream] 1)
                 (thenI (logI ''ws.reconnect''
                    ([(''source'', WStr ''mexc_native''), (''stream'', WStr stream)] @ fs @
                     [(''error_type'', WStr (exc_name e))]))
                  continue)
          else raiseI e
      | Inr x \<Rightarrow> k x)"

definition ws_fields :: "string \<Rightarrow> (string \<times> wire) list" where
  "ws_fields stream = [(''source'', WStr ''mexc_native''), (''stream'', WStr stream)]"

text \<open>The buffered flush of the two tape loops.\<close>

definition flush ::
  "string \<Rightarrow> string \<Rightarrow> string list \<Rightarrow> string list \<Rightarrow> rat \<Rightarrow> cell list list \<Rightarrow> rat
   \<Rightarrow> (cell list list \<times> rat) io" where
  "flush target dataset columns conflict flush_seconds buffer last_flush =
     bindI readI (\<lambda>r.
       if buffer \<noteq> [] \<and> flush_seconds \<le> fl (rd_mono r - last_flush)
       then
         bindI (copyI target buffer columns conflict) (\<lambda>n.
         thenI (forI (map label_of_cell (remdups (map hd buffer)))
                  (\<lambda>sy. fresh_nowI ''mexc_native'' dataset sy))
         (thenI (incI ''ingest_rows_total'' [''mexc_native'', dataset] n)
            (retI ([], rd_mono r))))
       else retI (buffer, last_flush))"

section \<open>live_candles.py\<close>

text \<open>A dictionary key: lists and dictionaries are unhashable.\<close>

fun sym_key :: "wire \<Rightarrow> cell res" where
  "sym_key (WList _) = Inl TypeError"
| "sym_key (WDict _) = Inl TypeError"
| "sym_key v = Inr (cell_of_wire v)"

definition parse_trade :: "wdict \<Rightarrow> cell trade res" where
  "parse_trade t =
     bindE (dget t ''timestamp'') (\<lambda>t0. bindE (ts_of_wire t0) (\<lambda>ts.
     bindE (dget t ''price'') (\<lambda>p0. bindE (dec_of_wire p0) (\<lambda>price.
     bindE (dget t ''amount'') (\<lambda>q0. bindE (dec_of_wire q0) (\<lambda>qty.
     bindE (dget t ''symbol'') (\<lambda>s0. bindE (sym_key s0) (\<lambda>s.
     Inr \<lparr>tr_symbol = s, tr_ts = ts, tr_price = price, tr_qty = qty\<rparr>))))))))"

definition finalized_record :: "cell \<Rightarrow> partial \<Rightarrow> cell list" where
  "finalized_record s p =
     candle_record s (pb_ts p) (pb_open p) (pb_high p) (pb_low p) (pb_close p) (pb_volume p)
       ''mexc_native'' ''ok''"

definition agg_trade ::
  "cell aggregator \<times> cell list list \<Rightarrow> wdict \<Rightarrow> (cell aggregator \<times> cell list list) io" where
  "agg_trade s t =
     catchI
       (liftI (bindE (parse_trade t) (\<lambda>tr.
          bindE (on_trade (fst s) (tr_symbol tr) (tr_ts tr) (tr_price tr) (tr_qty tr)) (\<lambda>(agg, fin).
          Inr (agg, snd s @ (case fin of None \<Rightarrow> [] | Some p \<Rightarrow> [finalized_record (tr_symbol tr) p]))))))
       (\<lambda>e. bindI (rendered (WDict t)) (\<lambda>p.
            thenI (route_to_dead_letter ''mexc_native'' ''trades_aggregator_loop''
                     (dget_or t ''symbol'' WNone) (take 8000 p) e)
              (retI s)))"

type_synonym agg_loop = "cell aggregator \<times> cell list list \<times> rat"

definition aggregator_body :: "rat \<Rightarrow> agg_loop \<Rightarrow> wdict list res \<Rightarrow> agg_loop io" where
  "aggregator_body flush_seconds s msg =
     (case s of (agg, buffer, last_flush) \<Rightarrow>
        on_message ''trades_aggregator'' [] msg (retI s) (\<lambda>trades.
          bindI (foldI agg_trade (agg, buffer) trades) (\<lambda>(agg', buffer').
          bindI (flush ''raw_mexc_candles_1m'' ''candles_1m'' candle_columns candle_conflict
                   flush_seconds buffer' last_flush) (\<lambda>(buffer'', last_flush').
          retI (agg', buffer'', last_flush')))))"

definition trades_aggregator_loop :: "rat \<Rightarrow> wdict list res list \<Rightarrow> agg_loop io" where
  "trades_aggregator_loop flush_seconds msgs =
     thenI (eventI ''ws.connected'' (ws_fields ''trades_aggregator''))
       (bindI readI (\<lambda>r.
        stream_run (aggregator_body flush_seconds)
          (eventI ''ws.disconnected'' (ws_fields ''trades_aggregator''))
          (Map.empty, [], rd_mono r) msgs))"

section \<open>trades.py\<close>

definition trade_columns :: "string list" where
  "trade_columns =
     [''symbol'', ''ts'', ''exchange_trade_id'', ''side'', ''price'', ''qty'', ''source'', ''quality_flag'']"

definition trade_conflict :: "string list" where
  "trade_conflict = [''symbol'', ''ts'', ''exchange_trade_id'']"

definition tape_record :: "wdict \<Rightarrow> cell list res" where
  "tape_record t =
     bindE (dget t ''symbol'') (\<lambda>sy.
     bindE (dget t ''timestamp'') (\<lambda>t0. bindE (ts_of_wire t0) (\<lambda>ts.
     bindE (dget t ''id'') (\<lambda>tid.
     bindE (dget t ''side'') (\<lambda>side.
     bindE (dget t ''price'') (\<lambda>p0. bindE (dec_of_wire p0) (\<lambda>price.
     bindE (dget t ''amount'') (\<lambda>q0. bindE (dec_of_wire q0) (\<lambda>qty.
     Inr [cell_of_wire sy, CTs ts, cell_of_wire tid, cell_of_wire side, CNum price, CNum qty,
          CText ''mexc_native'', CText ''ok''])))))))))"

definition tape_trade :: "cell list list \<Rightarrow> wdict \<Rightarrow> cell list list io" where
  "tape_trade buffer t =
     catchI (bindI (liftI (tape_record t)) (\<lambda>r. retI (buffer @ [r])))
       (\<lambda>e. bindI (rendered (WDict t)) (\<lambda>p.
            thenI (route_to_dead_letter ''mexc_native'' ''trades_persist_loop''
                     (dget_or t ''symbol'' WNone) (take 8000 p) e)
              (retI buffer)))"

definition trades_body ::
  "rat \<Rightarrow> cell list list \<times> rat \<Rightarrow> wdict list res \<Rightarrow> (cell list list \<times> rat) io" where
  "trades_body flush_seconds s msg =
     on_message ''trades_persist'' [] msg (retI s) (\<lambda>trades.
       bindI (foldI tape_trade (fst s) trades) (\<lambda>buffer.
       flush ''raw_mexc_trades'' ''trades'' trade_columns trade_conflict flush_seconds buffer (snd s)))"

definition trades_persist_loop :: "rat \<Rightarrow> wdict list res list \<Rightarrow> (cell list list \<times> rat) io" where
  "trades_persist_loop flush_seconds msgs =
     thenI (eventI ''ws.connected'' (ws_fields ''trades_persist''))
       (bindI readI (\<lambda>r.
        stream_run (trades_body flush_seconds)
          (eventI ''ws.disconnected'' (ws_fields ''trades_persist'')) ([], rd_mono r) msgs))"

section \<open>liquidations.py\<close>

definition liquidation_columns :: "string list" where
  "liquidation_columns = [''symbol'', ''ts'', ''side'', ''qty'', ''price'', ''source'', ''quality_flag'']"

definition liquidation_conflict :: "string list" where
  "liquidation_conflict = [''symbol'', ''ts'', ''side'', ''qty'', ''price'']"

definition liquidation_record :: "wdict \<Rightarrow> cell list res" where
  "liquidation_record evt =
     (let qty_raw = w_or (w_or (dget_or evt ''amount'' WNone) (dget_or evt ''qty'' WNone)) (WStr ''0'') in
      bindE (dget evt ''symbol'') (\<lambda>sy.
      bindE (dget evt ''timestamp'') (\<lambda>t0. bindE (ts_of_wire t0) (\<lambda>ts.
      bindE (dget evt ''side'') (\<lambda>side.
      bindE (dec_of_wire qty_raw) (\<lambda>qty.
      bindE (dget evt ''price'') (\<lambda>p0. bindE (dec_of_wire p0) (\<lambda>price.
      Inr [cell_of_wire sy, CTs ts, cell_of_wire side, CNum qty, CNum price, CText ''mexc_native'',
           CText ''ok'']))))))))"

definition liquidation_event :: "wdict \<Rightarrow> unit io" where
  "liquidation_event evt =
     catchI
       (bindI (liftI (liquidation_record evt)) (\<lambda>record.
        thenI (thenI (copyI ''raw_mexc_liquidations'' [record] liquidation_columns liquidation_conflict)
                 (retI ()))
        (thenI (fresh_nowI ''mexc_native'' ''liquidations'' (label_of_cell (hd record)))
           (incI ''ingest_rows_total'' [''mexc_native'', ''liquidations''] 1))))
       (\<lambda>e. bindI (rendered (WDict evt)) (\<lambda>p.
            route_to_dead_letter ''mexc_native'' ''watch_liquidations''
              (dget_or evt ''symbol'' WNone) (take 8000 p) e))"

definition liquidations_body :: "unit \<Rightarrow> wdict list res \<Rightarrow> unit io" where
  "liquidations_body u msg =
     on_message ''liquidations'' [] msg (retI ()) (\<lambda>events. forI events liquidation_event)"

text \<open>
  The handler of the loop logs ws.disconnected only for a cancellation. The argument
  \<open>has_watch\<close> is \<open>hasattr(raw, "watch_liquidations")\<close>.
\<close>

definition liquidations_dual_source_loop ::
  "bool \<Rightarrow> string list \<Rightarrow> wdict list res list \<Rightarrow> unit io" where
  "liquidations_dual_source_loop has_watch symbols msgs =
     (if \<not> has_watch
      then thenI (logI ''liquidations.degraded''
                    [(''reason'', WStr ''ws_unavailable_phase1_ships_no_fallback''),
                     (''fallback'', WStr ''coinglass_aggregate_liquidations (plan 01-06)'')])
             (forI symbols (\<lambda>sy. freshI ''mexc_native'' ''liquidations'' sy 0))
      else thenI (logI ''ws.connected'' (ws_fields ''liquidations'' @ [(''mode'', WStr ''ws'')]))
             (\<lambda>w. case foldI liquidations_body () msgs w of
                (Inl e, w') \<Rightarrow>
                  if e = CancelledError
                  then thenI (logI ''ws.disconnected'' (ws_fields ''liquidations'')) (raiseI e) w'
                  else (Inl e, w')
              | (Inr u, w') \<Rightarrow> (Inr u, w')))"

section \<open>funding.py\<close>

definition live_funding_record :: "string \<Rightarrow> wdict \<Rightarrow> cell list res" where
  "live_funding_record sy f =
     bindE (if truthy (dget_or f ''fundingTimestamp'' WNone) then Inr (dget_or f ''fundingTimestamp'' WNone)
            else dget f ''timestamp'') (\<lambda>s0.
     bindE (ts_of_wire s0) (\<lambda>settlement_ts.
     bindE (dget f ''timestamp'') (\<lambda>p0. bindE (ts_of_wire p0) (\<lambda>published_ts.
     bindE (if truthy (dget_or f ''nextFundingTimestamp'' WNone)
            then bindE (ts_of_wire (dget_or f ''nextFundingTimestamp'' WNone)) (\<lambda>t. Inr (CTs t))
            else Inr CNull) (\<lambda>next_funding_ts.
     bindE (dget f ''fundingRate'') (\<lambda>r0. bindE (dec_of_wire r0) (\<lambda>rate.
     Inr [CText sy, CTs settlement_ts, CTs published_ts, CNum rate, next_funding_ts,
          CText ''mexc_native'', CText ''ok''])))))))"

definition funding_message :: "string \<Rightarrow> wdict res \<Rightarrow> unit io" where
  "funding_message sy msg =
     on_message ''funding'' [(''symbol'', WStr sy)] msg (retI ()) (\<lambda>f.
       catchI
         (bindI (liftI (live_funding_record sy f)) (\<lambda>record.
          thenI (thenI (copyI ''raw_mexc_funding'' [record] funding_columns funding_conflict) (retI ()))
          (thenI (fresh_nowI ''mexc_native'' ''funding'' sy)
             (incI ''ingest_rows_total'' [''mexc_native'', ''funding''] 1))))
         (\<lambda>e. bindI (rendered (WDict f)) (\<lambda>p.
              route_to_dead_letter ''mexc_native'' ''watch_funding_rate'' (WStr sy) (take 8000 p) e)))"

text \<open>One pass of \<open>for sym in symbols\<close>; a round gives the answer awaited for each symbol.\<close>

definition funding_pass :: "string list \<Rightarrow> (string \<Rightarrow> wdict res) \<Rightarrow> unit io" where
  "funding_pass symbols answers = forI symbols (\<lambda>sy. funding_message sy (answers sy))"

definition funding_live_loop :: "string list \<Rightarrow> (string \<Rightarrow> wdict res) list \<Rightarrow> unit io" where
  "funding_live_loop symbols rounds =
     thenI (eventI ''ws.connected'' (ws_fields ''funding''))
       (stream_run (\<lambda>_. funding_pass symbols) (eventI ''ws.disconnected'' (ws_fields ''funding'')) () rounds)"

section \<open>orderbook.py\<close>

definition l2_columns :: "string list" where
  "l2_columns = [''symbol'', ''ts'', ''bids'', ''asks'', ''source'', ''quality_flag'']"

definition l2_conflict :: "string list" where
  "l2_conflict = [''symbol'', ''ts'']"

text \<open>The compact JSON text of a list of pairs of strings.\<close>

definition json_char :: "char \<Rightarrow> string" where
  "json_char c =
     (if c = CHR 0x22 \<or> c = CHR 0x5C then [CHR 0x5C, c]
      else if c = CHR 0x08 then [CHR 0x5C, CHR ''b''] else if c = CHR 0x09 then [CHR 0x5C, CHR ''t'']
      else if c = CHR 0x0A then [CHR 0x5C, CHR ''n''] else if c = CHR 0x0C then [CHR 0x5C, CHR ''f'']
      else if c = CHR 0x0D then [CHR 0x5C, CHR ''r'']
      else [c])"

definition json_string :: "string \<Rightarrow> string" where
  "json_string s = CHR 0x22 # concat (map json_char s) @ [CHR 0x22]"

fun comma_sep :: "string list \<Rightarrow> string" where
  "comma_sep [] = []"
| "comma_sep [x] = x"
| "comma_sep (x # y # ys) = x @ '','' @ comma_sep (y # ys)"

definition json_pairs :: "(string \<times> string) list \<Rightarrow> string" where
  "json_pairs ps =
     ''['' @ comma_sep (map (\<lambda>(a, b). ''['' @ json_string a @ '','' @ json_string b @ '']'') ps) @ '']''"

definition level_texts :: "(wire \<Rightarrow> string) \<Rightarrow> wdict \<Rightarrow> string \<Rightarrow> (string \<times> string) list res" where
  "level_texts show_wire book side =
     bindE (dget book side) (\<lambda>v. bindE (elements v) (\<lambda>xs.
       mapE (\<lambda>b. bindE (elements b) (\<lambda>ys. bindE (index ys 0) (\<lambda>p. bindE (index ys 1) (\<lambda>q.
               Inr (show_wire p, show_wire q))))) (take 20 xs)))"

definition l2_record :: "(wire \<Rightarrow> string) \<Rightarrow> string \<Rightarrow> int \<Rightarrow> wdict \<Rightarrow> cell list res" where
  "l2_record show_wire symbol now book =
     bindE (if truthy (dget_or book ''timestamp'' WNone) then ts_of_wire (dget_or book ''timestamp'' WNone)
            else Inr now) (\<lambda>ts.
     bindE (level_texts show_wire book ''bids'') (\<lambda>bids.
     bindE (level_texts show_wire book ''asks'') (\<lambda>asks.
     Inr [CText symbol, CTs ts, CJson (json_pairs bids), CJson (json_pairs asks), CText ''mexc_native'',
          CText ''ok''])))"

definition l2_body :: "string \<Rightarrow> rat \<Rightarrow> rat \<Rightarrow> wdict res \<Rightarrow> rat io" where
  "l2_body symbol sample_seconds last_emit msg =
     on_message ''l2'' [(''symbol'', WStr symbol)] msg (retI last_emit) (\<lambda>book.
       bindI readI (\<lambda>r.
         if fl (rd_mono r - last_emit) < sample_seconds then retI last_emit
         else
           thenI
             (catchI
                (bindI readI (\<lambda>r'.
                 bindI (getI (\<lambda>w. e_str (w_env w))) (\<lambda>show_wire.
                 bindI (liftI (l2_record show_wire symbol (rd_now r') book)) (\<lambda>record.
                 thenI (thenI (copyI ''raw_mexc_l2_top20'' [record] l2_columns l2_conflict) (retI ()))
                 (thenI (fresh_nowI ''mexc_native'' ''l2_top20'' symbol)
                    (incI ''ingest_rows_total'' [''mexc_native'', ''l2_top20''] 1))))))
                (\<lambda>e. route_to_dead_letter ''mexc_native'' ''watch_order_book'' (WStr symbol) '''' e))
             (retI (rd_mono r))))"

definition l2_sample_loop :: "string \<Rightarrow> rat \<Rightarrow> wdict res list \<Rightarrow> rat io" where
  "l2_sample_loop symbol sample_seconds msgs =
     thenI (logI ''ws.connected'' (ws_fields ''l2'' @ [(''symbol'', WStr symbol)]))
       (stream_run (l2_body symbol sample_seconds)
          (logI ''ws.disconnected'' (ws_fields ''l2'' @ [(''symbol'', WStr symbol)])) 0 msgs)"

section \<open>What every loop keeps\<close>

lemma keeps_stream_run [keeps_intros]:
  fixes body :: "'s \<Rightarrow> 'm \<Rightarrow> 's io"
  assumes "\<And>s m. keeps I (body s m)" "keeps I fin"
  shows "keeps I (stream_run body fin s ms)"
proof -
  have "keeps I (foldI body s ms)" "keeps I (thenI fin (raiseI e :: 's io))" for e
    using assms by (intro keeps_intros; simp)+
  then show ?thesis
    unfolding keeps_def stream_run_def by (fastforce split: prod.splits sum.splits)
qed

lemma keeps_on_message [keeps_intros]:
  assumes "keeps I (incI ''ws_reconnects_total'' [''mexc_native'', stream] 1)" "\<And>fs. keeps I (logI ''ws.reconnect'' fs)"
    and "keeps I continue" "\<And>x. keeps I (k x)"
  shows "keeps I (on_message stream fs msg continue k)"
  unfolding on_message_def using assms
  by (cases msg) (auto intro!: keeps_intros)

context ingest_invariant
begin

lemma keeps_flush: "keeps I (flush target dataset columns conflict fsec buffer lst)"
  unfolding flush_def by (intro keeps_intros primitives)

lemma keeps_agg_trade: "keeps I (agg_trade s t)"
  unfolding agg_trade_def by (intro keeps_intros dead_letter_primitives)

lemma keeps_tape_trade: "keeps I (tape_trade s t)"
  unfolding tape_trade_def by (intro keeps_intros dead_letter_primitives)

lemma keeps_trades_aggregator_loop: "keeps I (trades_aggregator_loop fsec msgs)"
  unfolding trades_aggregator_loop_def aggregator_body_def
  by (intro keeps_intros primitives keeps_eventI keeps_flush keeps_agg_trade)

lemma keeps_trades_persist_loop: "keeps I (trades_persist_loop fsec msgs)"
  unfolding trades_persist_loop_def trades_body_def
  by (intro keeps_intros primitives keeps_eventI keeps_flush keeps_tape_trade)

lemma keeps_liquidation_event: "keeps I (liquidation_event evt)"
  unfolding liquidation_event_def by (intro keeps_intros primitives dead_letter_primitives)

lemma keeps_liquidations_loop: "keeps I (liquidations_dual_source_loop has_watch symbols msgs)"
proof -
  have "keeps I (foldI liquidations_body () msgs)"
    unfolding liquidations_body_def by (intro keeps_intros primitives keeps_liquidation_event)
  moreover have "keeps I (thenI (logI ''ws.disconnected'' (ws_fields ''liquidations'')) (raiseI e :: unit io))" for e
    by (intro keeps_intros primitives)
  ultimately have "keeps I (\<lambda>w. case foldI liquidations_body () msgs w of
      (Inl e, w') \<Rightarrow> if e = CancelledError
        then thenI (logI ''ws.disconnected'' (ws_fields ''liquidations'')) (raiseI e) w' else (Inl e, w')
    | (Inr u, w') \<Rightarrow> (Inr u, w'))"
    unfolding keeps_def by (fastforce split: prod.splits sum.splits)
  then show ?thesis
    unfolding liquidations_dual_source_loop_def by (intro keeps_intros primitives)
qed

lemma keeps_funding_live_loop: "keeps I (funding_live_loop symbols rounds)"
  unfolding funding_live_loop_def funding_pass_def funding_message_def
  by (intro keeps_intros primitives keeps_eventI dead_letter_primitives)

lemma keeps_l2_sample_loop: "keeps I (l2_sample_loop symbol sample_seconds msgs)"
  unfolding l2_sample_loop_def l2_body_def
  by (intro keeps_intros primitives dead_letter_primitives)

lemmas keeps_streams = keeps_trades_aggregator_loop keeps_trades_persist_loop keeps_liquidations_loop
  keeps_funding_live_loop keeps_l2_sample_loop

end

definition safe_step :: "world \<Rightarrow> world \<Rightarrow> bool" where
  "safe_step w w' \<longleftrightarrow> wf_db (w_db w') \<and> schema_of (w_db w') = schema_of (w_db w) \<and>
     (\<forall>t. prefix (rows_of (w_db w) t) (rows_of (w_db w') t))"

lemma safe_stepI:
  assumes "wf_db (w_db w)" "keeps (\<lambda>w. wf_db (w_db w)) m" "\<And>s. keeps (\<lambda>w. schema_of (w_db w) = s) m"
    and "\<And>rows. keeps (\<lambda>w. \<forall>t. prefix (rows t) (rows_of (w_db w) t)) m"
  shows "safe_step w (snd (m w))"
  using assms(1,2) assms(3) [of "schema_of (w_db w)"] assms(4) [of "rows_of (w_db w)"]
  by (auto simp: keeps_def safe_step_def)



section \<open>A trade that does not parse ends the loop\<close>

lemma migrated_kept: "(\<And>s. keeps (\<lambda>w. schema_of (w_db w) = s) m) \<Longrightarrow> keeps migrated_dead_letter m"
  unfolding keeps_def migrated_dead_letter_def by metis

lemma tape_trade_fails:
  assumes "migrated_dead_letter w" "tape_record t = Inl e"
  shows "\<exists>f. fst (tape_trade buffer t w) = Inl f"
proof -
  let ?p = "take 8000 (e_str (w_env w) (WDict t))"
  obtain f where "route_to_dead_letter ''mexc_native'' ''trades_persist_loop'' (dget_or t ''symbol'' WNone) ?p e w
      = (Inl (DbError f), w\<lparr>w_pos := w_pos w + 2\<rparr>)"
    using route_fails [OF assms(1)] by blast
  then show ?thesis
    by (simp add: tape_trade_def catchI_def bindI_def liftI_def thenI_def rendered_def getI_def assms(2))
qed

text \<open>On the migrated schema a single trade that does not parse ends the trade tape: whatever was
  delivered before and would be delivered after, the loop raises at that message, because its
  handler's dead-letter write raises (the client promises that validation failures do not
  crash the ingest loop).\<close>

theorem unparsable_trade_ends_tape:
  assumes "schema_of (w_db w) ''dead_letter'' = Some tbl_dead_letter"
    and "t \<in> set trades" "tape_record t = Inl e"
  shows "\<exists>err. fst (trades_persist_loop flush_seconds (before @ Inr trades # after) w) = Inl err"
proof -
  have kept: "keeps migrated_dead_letter (trades_body flush_seconds s m)"
    "keeps migrated_dead_letter (tape_trade b u)" for s m b u
    unfolding trades_body_def
    by (rule migrated_kept; intro keeps_intros schemas.primitives schemas.keeps_flush schemas.keeps_tape_trade)+
  have fold: "\<exists>err. fst (foldI tape_trade b trades v) = Inl err" if "migrated_dead_letter v" for b v
    using foldI_fails [of migrated_dead_letter tape_trade, OF kept(2) that assms(2)] tape_trade_fails [OF _ assms(3)] by blast
  have "\<exists>err. fst (trades_body flush_seconds s (Inr trades) v) = Inl err" if "migrated_dead_letter v" for s v
    using fold [OF that, of "fst s"] unfolding trades_body_def on_message_def bindI_def
    by (auto split: prod.splits sum.splits)
  then have run: "\<exists>err. fst (foldI (trades_body flush_seconds) s (before @ Inr trades # after) v) = Inl err"
    if "migrated_dead_letter v" for s v
    using foldI_fails [of migrated_dead_letter "trades_body flush_seconds", OF kept(1) that, of "Inr trades"] by simp
  have ev: "''ws.connected'' \<in> set EVENTS" "''ws.disconnected'' \<in> set EVENTS" by (simp_all add: EVENTS_def)
  let ?w = "w\<lparr>w_log := w_log w @ [(''ws.connected'', ws_fields ''trades_persist'')], w_pos := Suc (w_pos w)\<rparr>"
  have "migrated_dead_letter ?w" using assms(1) by (simp add: migrated_dead_letter_def)
  from run [OF this, of "([], rd_mono (e_read (w_env w) (w_pos w)))"] show ?thesis
    by (auto simp: trades_persist_loop_def eventI_def ev thenI_def bindI_def liftI_def logI_def updI_def
        readI_def stream_run_def raiseI_def split: prod.splits sum.splits)
qed

lemma unparsable_trade_ends_tape_witness:
  "\<exists>err. fst (trades_persist_loop 60 ([] @ Inr [[(''symbol'', WStr ''BTC'')]] # []) (calm_world 0 dead_letter_db)) = Inl err"
  by (rule unparsable_trade_ends_tape [where t = "[(''symbol'', WStr ''BTC'')]" and e = "KeyError ''timestamp''"])
    (simp_all add: dead_letter_db_def schema_of_def tape_record_def dget_def)

end
