(* ===== verification/Symbols.thy ===== *)
theory Symbols
  imports Events
begin

text \<open>
  The symbols lookup table as its users see it: the upsert and the soft delete of
  universe/snapshot.py, the tier update of universe/tier1.py and the queries of
  scheduler/jobs.py. ORDER BY on text is taken in code point order.
\<close>

section \<open>UPDATE statements\<close>

definition set_cell :: "table_schema \<Rightarrow> string \<Rightarrow> cell \<Rightarrow> cell list \<Rightarrow> cell list" where
  "set_cell sch c v row = (case col_pos (tb_columns sch) c of None \<Rightarrow> row | Some i \<Rightarrow> row[i := v])"

definition update_where ::
  "table_schema \<Rightarrow> (cell list \<Rightarrow> bool) \<Rightarrow> string \<Rightarrow> cell \<Rightarrow> cell list list \<Rightarrow> cell list list" where
  "update_where sch P c v rows = map (\<lambda>r. if P r then set_cell sch c v r else r) rows"

definition on_table :: "string \<Rightarrow> (table_schema \<Rightarrow> cell list list \<Rightarrow> cell list list res) \<Rightarrow> db \<Rightarrow> db res" where
  "on_table t f d =
     (case d t of
        None \<Rightarrow> Inl (DbError (UndefinedTable t))
      | Some ts \<Rightarrow> bindE (f (t_schema ts) (t_rows ts)) (\<lambda>rows. Inr (d(t \<mapsto> ts\<lparr>t_rows := rows\<rparr>))))"

lemma on_table_frame: "on_table t f d = Inr d' \<Longrightarrow> t' \<noteq> t \<Longrightarrow> d' t' = d t'"
  by (auto simp: on_table_def res_simps split: option.splits)

lemma col_pos_inj: "col_pos ks c = Some i \<Longrightarrow> col_pos ks c' = Some i \<Longrightarrow> c = c'"
  by (induction ks arbitrary: i) (auto split: if_splits)

lemma cell_of_set_cell_same:
  "col_pos (tb_columns sch) c = Some i \<Longrightarrow> i < length row \<Longrightarrow> cell_of sch (set_cell sch c v row) c = v"
  by (simp add: cell_of_def set_cell_def)

lemma cell_of_set_cell_other: "c' \<noteq> c \<Longrightarrow> cell_of sch (set_cell sch c v row) c' = cell_of sch row c'"
  by (auto simp: cell_of_def set_cell_def split: option.split dest: col_pos_inj intro!: nth_list_update_neq)

lemma length_set_cell [simp]: "length (set_cell sch c v row) = length row"
  by (simp add: set_cell_def split: option.split)

section \<open>The table\<close>

definition sym_cell :: "cell list \<Rightarrow> string \<Rightarrow> cell" where
  "sym_cell row c = cell_of tbl_symbols row c"

definition symbol_insert_columns :: "string list" where
  "symbol_insert_columns =
     [''symbol'', ''exchange'', ''market_type'', ''mexc_native_symbol'', ''first_seen_at'', ''tier'']"

text \<open>INSERT INTO symbols ... ON CONFLICT (symbol) DO UPDATE SET delisted_at = NULL\<close>

definition upsert_symbol :: "tx \<Rightarrow> string \<Rightarrow> string \<Rightarrow> db \<Rightarrow> db res" where
  "upsert_symbol x symbol native =
     on_table ''symbols'' (\<lambda>sch rows.
       lift_db
         (bindE (stage_row x sch symbol_insert_columns
                   [CText symbol, CText ''mexc'', CText ''swap'', CText native, CTs (tx_now x), CInt 2]) (\<lambda>row.
          bindE (check_row sch row) (\<lambda>_.
          Inr (if row_key sch row \<in> row_keys sch rows
               then update_where sch (\<lambda>r. row_key sch r = row_key sch row) ''delisted_at'' CNull rows
               else rows @ [row])))))"

text \<open>UPDATE symbols SET delisted_at = now() WHERE symbol = :s AND delisted_at IS NULL\<close>

definition delist_symbol :: "tx \<Rightarrow> string \<Rightarrow> db \<Rightarrow> db res" where
  "delist_symbol x symbol =
     on_table ''symbols'' (\<lambda>sch rows.
       Inr (update_where sch
              (\<lambda>r. cell_of sch r ''symbol'' = CText symbol \<and> cell_of sch r ''delisted_at'' = CNull)
              ''delisted_at'' (CTs (tx_now x)) rows))"

text \<open>UPDATE symbols SET tier = t WHERE (symbol in/not in the set) AND delisted_at IS NULL\<close>

definition set_tier :: "(string \<Rightarrow> bool) \<Rightarrow> int \<Rightarrow> db \<Rightarrow> db res" where
  "set_tier member t =
     on_table ''symbols'' (\<lambda>sch rows.
       Inr (update_where sch
              (\<lambda>r. (case cell_of sch r ''symbol'' of CText s \<Rightarrow> member s | _ \<Rightarrow> False) \<and>
                   cell_of sch r ''delisted_at'' = CNull)
              ''tier'' (CInt t) rows))"

section \<open>Queries\<close>

definition is_active :: "cell list \<Rightarrow> bool" where
  "is_active row \<longleftrightarrow> sym_cell row ''delisted_at'' = CNull"

definition active_set :: "db \<Rightarrow> string set" where
  "active_set d = {s. \<exists>row \<in> set (rows_of d ''symbols''). sym_cell row ''symbol'' = CText s \<and> is_active row}"

fun cell_text :: "cell \<Rightarrow> string option" where
  "cell_text (CText s) = Some s"
| "cell_text _ = None"

fun cell_int :: "cell \<Rightarrow> int" where
  "cell_int (CInt i) = i"
| "cell_int _ = 0"

text \<open>... WHERE delisted_at IS NULL ORDER BY tier ASC, symbol ASC\<close>

definition by_tier :: "cell list list \<Rightarrow> cell list list" where
  "by_tier rows =
     sort_key (\<lambda>r. cell_int (sym_cell r ''tier''))
       (sort_key (\<lambda>r. case cell_text (sym_cell r ''symbol'') of None \<Rightarrow> [] | Some s \<Rightarrow> s) rows)"

definition active_by_tier :: "db \<Rightarrow> string list" where
  "active_by_tier d =
     List.map_filter (\<lambda>r. cell_text (sym_cell r ''symbol''))
       (by_tier (filter is_active (rows_of d ''symbols'')))"

text \<open>SELECT symbol, coinglass_symbol ... WHERE coinglass_symbol IS NOT NULL AND delisted_at IS NULL\<close>

definition symbol_pair :: "cell list \<Rightarrow> (string \<times> string) option" where
  "symbol_pair r =
     (case (cell_text (sym_cell r ''symbol''), cell_text (sym_cell r ''coinglass_symbol'')) of
        (Some s, Some c) \<Rightarrow> Some (s, c) | _ \<Rightarrow> None)"

definition coinglass_pairs :: "db \<Rightarrow> (string \<times> string) list" where
  "coinglass_pairs d = List.map_filter symbol_pair (by_tier (filter is_active (rows_of d ''symbols'')))"

section \<open>What the statements do\<close>

text \<open>The table as migrated: every row is complete and keyed by its symbol.\<close>

definition symbols_ok :: "db \<Rightarrow> bool" where
  "symbols_ok d \<longleftrightarrow> (\<exists>ts. d ''symbols'' = Some ts \<and> t_schema ts = tbl_symbols \<and>
     list_all (\<lambda>r. length r = 10 \<and> (\<exists>s. sym_cell r ''symbol'' = CText s)) (t_rows ts) \<and>
     distinct (map (\<lambda>r. sym_cell r ''symbol'') (t_rows ts)))"

lemma symbols_key: "row_key tbl_symbols r = [sym_cell r ''symbol'']"
  by (simp add: row_key_def tbl_symbols_def sym_cell_def)

lemma symbols_pos:
  "col_pos (tb_columns tbl_symbols) ''delisted_at'' = Some 8"
  "col_pos (tb_columns tbl_symbols) ''symbol'' = Some 0"
  "col_pos (tb_columns tbl_symbols) ''tier'' = Some 6"
  "col_pos (tb_columns tbl_symbols) ''coinglass_symbol'' = Some 4"
  by (simp_all add: tbl_symbols_def col_def)

lemma sym_cell_set_cell:
  "length r = 10 \<Longrightarrow> sym_cell (set_cell tbl_symbols ''delisted_at'' v r) c =
     (if c = ''delisted_at'' then v else sym_cell r c)"
  "length r = 10 \<Longrightarrow> sym_cell (set_cell tbl_symbols ''tier'' v r) c =
     (if c = ''tier'' then v else sym_cell r c)"
  using cell_of_set_cell_same [OF symbols_pos(1), of r v] cell_of_set_cell_same [OF symbols_pos(3), of r v]
  by (auto simp: sym_cell_def cell_of_set_cell_other)

lemma symbol_staged:
  "\<exists>row. stage_row x tbl_symbols symbol_insert_columns
      [CText symbol, CText ''mexc'', CText ''swap'', CText native, CTs (tx_now x), CInt 2] = Inr row \<and>
    length row = 10 \<and> sym_cell row ''symbol'' = CText symbol \<and> sym_cell row ''delisted_at'' = CNull \<and>
    sym_cell row ''coinglass_symbol'' = CNull \<and> check_row tbl_symbols row = Inr ()"
  by (simp add: stage_row_def stage_cell_def tbl_symbols_def symbol_insert_columns_def col_def required_def
      sym_cell_def cell_of_def check_row_def)

text \<open>The one row shape both statements need: rows with their symbols, in order.\<close>

definition sym_of :: "cell list \<Rightarrow> string" where
  "sym_of r = (case sym_cell r ''symbol'' of CText s \<Rightarrow> s | _ \<Rightarrow> [])"

definition row_fine :: "cell list \<Rightarrow> bool" where
  "row_fine r \<longleftrightarrow> length r = 10 \<and> (\<exists>s. sym_cell r ''symbol'' = CText s)"

lemma row_fine_sym: "row_fine r \<Longrightarrow> sym_cell r ''symbol'' = CText (sym_of r)"
  by (auto simp: row_fine_def sym_of_def)

lemma active_set_alt:
  assumes "symbols_ok d"
  shows "active_set d = sym_of ` {r \<in> set (rows_of d ''symbols''). is_active r}"
proof -
  have "\<forall>r\<in>set (rows_of d ''symbols''). row_fine r"
    using assms by (auto simp: symbols_ok_def rows_of_def list_all_iff row_fine_def)
  then show ?thesis
    by (auto simp: active_set_def image_iff row_fine_sym)
qed

lemma upsert_symbol_ok:
  assumes "symbols_ok d"
  shows "\<exists>d'. upsert_symbol x s native d = Inr d' \<and> symbols_ok d' \<and>
    active_set d' = insert s (active_set d) \<and> (\<forall>t. t \<noteq> ''symbols'' \<longrightarrow> d' t = d t) \<and>
    (\<forall>r'\<in>set (rows_of d' ''symbols''). sym_cell r' ''coinglass_symbol'' = CNull \<or>
       (\<exists>r\<in>set (rows_of d ''symbols''). sym_cell r' ''coinglass_symbol'' = sym_cell r ''coinglass_symbol''))"
proof -
  obtain ts where ts: "d ''symbols'' = Some ts" "t_schema ts = tbl_symbols"
    "\<forall>r\<in>set (t_rows ts). length r = 10 \<and> (\<exists>s. sym_cell r ''symbol'' = CText s)"
    "distinct (map (\<lambda>r. sym_cell r ''symbol'') (t_rows ts))"
    using assms by (auto simp: symbols_ok_def list_all_iff)
  obtain row where row: "stage_row x tbl_symbols symbol_insert_columns
      [CText s, CText ''mexc'', CText ''swap'', CText native, CTs (tx_now x), CInt 2] = Inr row"
    "length row = 10" "sym_cell row ''symbol'' = CText s" "sym_cell row ''delisted_at'' = CNull"
    "sym_cell row ''coinglass_symbol'' = CNull" "check_row tbl_symbols row = Inr ()"
    using symbol_staged by blast
  let ?rows = "if row_key tbl_symbols row \<in> row_keys tbl_symbols (t_rows ts)
    then update_where tbl_symbols (\<lambda>r. row_key tbl_symbols r = row_key tbl_symbols row) ''delisted_at'' CNull (t_rows ts)
    else t_rows ts @ [row]"
  let ?d = "d(''symbols'' \<mapsto> ts\<lparr>t_rows := ?rows\<rparr>)"
  have up: "upsert_symbol x s native d = Inr ?d"
    using ts(1,2) row(1,6) by (simp add: upsert_symbol_def on_table_def lift_db_def)
  show ?thesis
  proof (cases "row_key tbl_symbols row \<in> row_keys tbl_symbols (t_rows ts)")
    case True
    then obtain r0 where r0: "r0 \<in> set (t_rows ts)" "sym_cell r0 ''symbol'' = CText s"
      by (auto simp: row_keys_def symbols_key row(3))
    define f where "f r = (if sym_cell r ''symbol'' = CText s then set_cell tbl_symbols ''delisted_at'' CNull r else r)" for r
    have rows: "?rows = map f (t_rows ts)"
      using True by (simp add: update_where_def symbols_key row(3) f_def)
    have f: "length (f r) = 10" "sym_cell (f r) ''symbol'' = sym_cell r ''symbol''"
      "sym_cell (f r) ''coinglass_symbol'' = sym_cell r ''coinglass_symbol''"
      "is_active (f r) \<longleftrightarrow> sym_cell r ''symbol'' = CText s \<or> is_active r" if "r \<in> set (t_rows ts)" for r
      using ts(3) that by (auto simp: sym_cell_set_cell is_active_def f_def)
    have "map (\<lambda>r. sym_cell r ''symbol'') (map f (t_rows ts)) = map (\<lambda>r. sym_cell r ''symbol'') (t_rows ts)"
      using f(2) by simp
    then have "distinct (map (\<lambda>r. sym_cell r ''symbol'') (map f (t_rows ts)))" using ts(4) by (simp only:)
    moreover have "\<forall>r\<in>set (map f (t_rows ts)). length r = 10 \<and> (\<exists>s. sym_cell r ''symbol'' = CText s)"
      using f(1,2) ts(3) by auto
    ultimately have "symbols_ok ?d" unfolding rows using ts(2) by (simp add: symbols_ok_def list_all_iff)
    moreover have "active_set ?d = insert s (active_set d)"
      unfolding rows active_set_def rows_of_def using f(2,4) r0 ts(1) by auto
    moreover have "\<forall>r'\<in>set (rows_of ?d ''symbols''). \<exists>r\<in>set (rows_of d ''symbols'').
        sym_cell r' ''coinglass_symbol'' = sym_cell r ''coinglass_symbol''"
      unfolding rows rows_of_def using f(3) ts(1) by auto
    ultimately show ?thesis using up by auto
  next
    case False
    then have rows: "?rows = t_rows ts @ [row]" by simp
    have "CText s \<notin> set (map (\<lambda>r. sym_cell r ''symbol'') (t_rows ts))"
      using False by (auto simp: row_keys_def symbols_key row(3))
    then have "symbols_ok ?d" unfolding rows using ts row(2,3) by (auto simp: symbols_ok_def list_all_iff)
    moreover have "active_set ?d = insert s (active_set d)"
      unfolding rows active_set_def rows_of_def using row(3,4) ts(1) by (auto simp: is_active_def)
    moreover have "\<forall>r'\<in>set (rows_of ?d ''symbols''). sym_cell r' ''coinglass_symbol'' = CNull \<or>
        (\<exists>r\<in>set (rows_of d ''symbols''). sym_cell r' ''coinglass_symbol'' = sym_cell r ''coinglass_symbol'')"
      unfolding rows rows_of_def using row(5) ts(1) by auto
    ultimately show ?thesis using up by auto
  qed
qed

text \<open>An UPDATE that keeps the symbol and the Coinglass name of every row.\<close>

lemma update_rows:
  assumes d: "d ''symbols'' = Some ts" "symbols_ok d"
    and f: "\<And>r. r \<in> set (t_rows ts) \<Longrightarrow> length r = 10 \<Longrightarrow> length (f r) = 10 \<and>
      sym_cell (f r) ''symbol'' = sym_cell r ''symbol'' \<and>
      sym_cell (f r) ''coinglass_symbol'' = sym_cell r ''coinglass_symbol'' \<and> (is_active (f r) \<longleftrightarrow> is_active r \<and> P r)"
  shows "symbols_ok (d(''symbols'' \<mapsto> ts\<lparr>t_rows := map f (t_rows ts)\<rparr>)) \<and>
    active_set (d(''symbols'' \<mapsto> ts\<lparr>t_rows := map f (t_rows ts)\<rparr>)) =
      {s. \<exists>r\<in>set (t_rows ts). sym_cell r ''symbol'' = CText s \<and> is_active r \<and> P r} \<and>
    (\<forall>r'\<in>set (map f (t_rows ts)). \<exists>r\<in>set (t_rows ts).
       sym_cell r' ''coinglass_symbol'' = sym_cell r ''coinglass_symbol'')"
proof -
  have ts: "t_schema ts = tbl_symbols"
    "\<forall>r\<in>set (t_rows ts). length r = 10 \<and> (\<exists>s. sym_cell r ''symbol'' = CText s)"
    "distinct (map (\<lambda>r. sym_cell r ''symbol'') (t_rows ts))"
    using d by (auto simp: symbols_ok_def list_all_iff)
  have g: "length (f r) = 10" "sym_cell (f r) ''symbol'' = sym_cell r ''symbol''"
    "sym_cell (f r) ''coinglass_symbol'' = sym_cell r ''coinglass_symbol''"
    "is_active (f r) \<longleftrightarrow> is_active r \<and> P r" if "r \<in> set (t_rows ts)" for r
    using f [OF that] ts(2) that by auto
  have "map (\<lambda>r. sym_cell r ''symbol'') (map f (t_rows ts)) = map (\<lambda>r. sym_cell r ''symbol'') (t_rows ts)"
    using g(2) by simp
  then have "distinct (map (\<lambda>r. sym_cell r ''symbol'') (map f (t_rows ts)))" using ts(3) by (simp only:)
  moreover have "\<forall>r\<in>set (map f (t_rows ts)). length r = 10 \<and> (\<exists>s. sym_cell r ''symbol'' = CText s)"
    using g(1,2) ts(2) by auto
  ultimately show ?thesis
    using ts(1) g by (auto simp: symbols_ok_def list_all_iff active_set_def rows_of_def)
qed

lemma delist_symbol_ok:
  assumes "symbols_ok d"
  shows "\<exists>d'. delist_symbol x s d = Inr d' \<and> symbols_ok d' \<and> active_set d' = active_set d - {s} \<and>
    (\<forall>t. t \<noteq> ''symbols'' \<longrightarrow> d' t = d t) \<and>
    (\<forall>r'\<in>set (rows_of d' ''symbols''). \<exists>r\<in>set (rows_of d ''symbols'').
       sym_cell r' ''coinglass_symbol'' = sym_cell r ''coinglass_symbol'')"
proof -
  obtain ts where ts: "d ''symbols'' = Some ts" "t_schema ts = tbl_symbols"
    using assms by (auto simp: symbols_ok_def)
  define f where "f r = (if sym_cell r ''symbol'' = CText s \<and> sym_cell r ''delisted_at'' = CNull
    then set_cell tbl_symbols ''delisted_at'' (CTs (tx_now x)) r else r)" for r
  have rows: "update_where tbl_symbols
      (\<lambda>r. cell_of tbl_symbols r ''symbol'' = CText s \<and> cell_of tbl_symbols r ''delisted_at'' = CNull)
      ''delisted_at'' (CTs (tx_now x)) (t_rows ts) = map f (t_rows ts)"
    by (simp add: update_where_def f_def sym_cell_def)
  have "symbols_ok (d(''symbols'' \<mapsto> ts\<lparr>t_rows := map f (t_rows ts)\<rparr>)) \<and>
    active_set (d(''symbols'' \<mapsto> ts\<lparr>t_rows := map f (t_rows ts)\<rparr>)) =
      {y. \<exists>r\<in>set (t_rows ts). sym_cell r ''symbol'' = CText y \<and> is_active r \<and> sym_cell r ''symbol'' \<noteq> CText s} \<and>
    (\<forall>r'\<in>set (map f (t_rows ts)). \<exists>r\<in>set (t_rows ts).
       sym_cell r' ''coinglass_symbol'' = sym_cell r ''coinglass_symbol'')"
    by (rule update_rows [OF ts(1) assms]) (auto simp: f_def sym_cell_set_cell is_active_def)
  then show ?thesis
    using ts by (auto simp: delist_symbol_def on_table_def rows active_set_def rows_of_def)
qed

text \<open>Setting tiers leaves the active symbols alone, and each member of the set gets the tier.\<close>

lemma set_tier_ok:
  assumes "symbols_ok d"
  shows "\<exists>ts. d ''symbols'' = Some ts \<and>
    (let f = (\<lambda>r. if member (sym_of r) \<and> is_active r then set_cell tbl_symbols ''tier'' (CInt t) r else r);
         d' = d(''symbols'' \<mapsto> ts\<lparr>t_rows := map f (t_rows ts)\<rparr>)
     in set_tier member t d = Inr d' \<and> symbols_ok d' \<and> active_set d' = active_set d)"
proof -
  obtain ts where ts: "d ''symbols'' = Some ts" "t_schema ts = tbl_symbols"
    "\<forall>r\<in>set (t_rows ts). length r = 10 \<and> (\<exists>s. sym_cell r ''symbol'' = CText s)"
    using assms by (auto simp: symbols_ok_def list_all_iff)
  define f where "f r = (if member (sym_of r) \<and> is_active r then set_cell tbl_symbols ''tier'' (CInt t) r else r)" for r
  have rows: "update_where tbl_symbols
      (\<lambda>r. (case cell_of tbl_symbols r ''symbol'' of CText s \<Rightarrow> member s | _ \<Rightarrow> False) \<and>
           cell_of tbl_symbols r ''delisted_at'' = CNull) ''tier'' (CInt t) (t_rows ts) = map f (t_rows ts)"
    using ts(3) by (auto simp: update_where_def f_def sym_cell_def sym_of_def is_active_def)
  have "symbols_ok (d(''symbols'' \<mapsto> ts\<lparr>t_rows := map f (t_rows ts)\<rparr>)) \<and>
    active_set (d(''symbols'' \<mapsto> ts\<lparr>t_rows := map f (t_rows ts)\<rparr>)) =
      {y. \<exists>r\<in>set (t_rows ts). sym_cell r ''symbol'' = CText y \<and> is_active r \<and> True} \<and>
    (\<forall>r'\<in>set (map f (t_rows ts)). \<exists>r\<in>set (t_rows ts).
       sym_cell r' ''coinglass_symbol'' = sym_cell r ''coinglass_symbol'')"
    by (rule update_rows [OF ts(1) assms]) (auto simp: f_def sym_cell_set_cell is_active_def)
  then show ?thesis
    unfolding f_def [abs_def, symmetric] Let_def
    using ts by (auto simp: set_tier_def on_table_def rows active_set_def rows_of_def)
qed

section \<open>Without Coinglass names\<close>

definition no_coinglass :: "db \<Rightarrow> bool" where
  "no_coinglass d \<longleftrightarrow> list_all (\<lambda>r. sym_cell r ''coinglass_symbol'' = CNull) (rows_of d ''symbols'')"

lemma no_coinglass_pairs: "no_coinglass d \<Longrightarrow> coinglass_pairs d = []"
  by (auto simp: symbol_pair_def no_coinglass_def coinglass_pairs_def by_tier_def list_all_iff map_filter_def
      filter_empty_conv split: option.splits)

lemma upsert_no_coinglass:
  "symbols_ok d \<Longrightarrow> no_coinglass d \<Longrightarrow> upsert_symbol x s native d = Inr d' \<Longrightarrow> no_coinglass d'"
  using upsert_symbol_ok [of d x s native] by (auto simp: no_coinglass_def list_all_iff)

lemma delist_no_coinglass:
  "symbols_ok d \<Longrightarrow> no_coinglass d \<Longrightarrow> delist_symbol x s d = Inr d' \<Longrightarrow> no_coinglass d'"
  using delist_symbol_ok [of d x s] by (auto simp: no_coinglass_def list_all_iff)

end
