(* ===== verification/Divergence.thy ===== *)
theory Divergence
  imports Live_Streams Symbols
begin

text \<open>
  The cross-REST check of src/shortfire/ingest/mexc/streams.py: every minute one tier-1 symbol's
  stored close is compared with the close of the second-last candle the REST API returns, and a
  row that differs by more than half a percent is flagged. First the quotient of two decimals.
\<close>

section \<open>Decimal division\<close>

text \<open>
  The quotient of the default context: one digit more than the precision, made sticky when the
  division leaves a remainder, then rounded half to even; an exact quotient loses trailing zeros
  down to the ideal exponent.
\<close>

fun strip_zeros :: "nat \<Rightarrow> int \<Rightarrow> int \<Rightarrow> int \<times> int" where
  "strip_zeros 0 c e = (c, e)"
| "strip_zeros (Suc n) c e = (if c mod 10 = 0 then strip_zeros n (c div 10) (e + 1) else (c, e))"

definition quotient :: "int \<Rightarrow> int \<Rightarrow> int \<Rightarrow> int \<Rightarrow> int \<times> int" where
  "quotient c e d f =
     (let shift = int (ndigits d) - int (ndigits c) + int prec + 1;
          num = c * 10 ^ nat shift; den = d * 10 ^ nat (- shift);
          q = num div den; x = e - f - shift
      in if num mod den \<noteq> 0 then (if q mod 5 = 0 then q + 1 else q, x)
         else strip_zeros (nat shift) q x)"

fun dec_div :: "decimal \<Rightarrow> decimal \<Rightarrow> decimal res" where
  "dec_div (Fin c e) (Fin d f) =
     (if d = 0 then Inl (if c = 0 then InvalidOperation else Foreign ''DivisionByZero'')
      else if c = 0 then Inr (Fin 0 (e - f))
      else case quotient \<bar>c\<bar> e \<bar>d\<bar> f of (q, x) \<Rightarrow>
        Inr (fix28 (if (c < 0) \<noteq> (d < 0) then - q else q) x))"
| "dec_div NaN _ = Inr NaN"
| "dec_div _ NaN = Inr NaN"
| "dec_div (Infinity _) (Infinity _) = Inl InvalidOperation"
| "dec_div (Infinity n) (Fin d f) = Inr (Infinity (n \<noteq> (d < 0)))"
| "dec_div (Fin c e) (Infinity _) = Inr (Fin 0 0)"

lemma pow10_add: "pow10 (a + b) = pow10 a * pow10 b"
proof (cases "0 \<le> b")
  case True
  then show ?thesis using pow10_add_nat [of a "nat b"] by (simp add: pow10_def [of b])
next
  case False
  then have "pow10 a = pow10 (a + b) * 10 ^ nat (- b)"
    using pow10_add_nat [of "a + b" "nat (- b)"] by simp
  then show ?thesis using False by (simp add: pow10_def [of b])
qed

lemma pow10_diff: "pow10 (a - b) = pow10 a / pow10 b"
  using pow10_add [of "a - b" b] by simp

lemma pow10_nat: "pow10 (int n) = 10 ^ n"
  by (simp add: pow10_def)

lemma pow10_shift: "(10::rat) ^ nat s / 10 ^ nat (- s) = pow10 s"
  by (simp add: pow10_def)

lemma pow10_mono: "pow10 a \<le> pow10 b \<longleftrightarrow> a \<le> b"
proof
  assume "a \<le> b"
  then have "pow10 b = pow10 a * 10 ^ nat (b - a)" using pow10_add_nat [of a "nat (b - a)"] by simp
  then show "pow10 a \<le> pow10 b" using mult_left_mono [of 1 "10 ^ nat (b - a)" "pow10 a"] by simp
next
  assume le: "pow10 a \<le> pow10 b"
  show "a \<le> b"
  proof (rule ccontr)
    assume "\<not> a \<le> b"
    then have "pow10 a = pow10 b * 10 ^ nat (a - b)" "0 < nat (a - b)"
      using pow10_add_nat [of b "nat (a - b)"] by simp_all
    moreover have "(1::rat) < 10 ^ nat (a - b)" using calculation(2) by simp
    ultimately have "pow10 b < pow10 a" using mult_strict_left_mono [of 1 "10 ^ nat (a - b)" "pow10 b"] by simp
    with le show False by simp
  qed
qed

lemma ndigits_bounds:
  assumes "0 < c"
  shows "10 ^ (ndigits c - 1) \<le> c" "c < 10 ^ ndigits c" "0 < ndigits c"
proof -
  have b: "10 ^ (ndigits c - 1) \<le> nat c" "nat c < 10 ^ ndigits c"
    using floorlog_bounds [of "nat c" 10] assms by (simp_all add: ndigits_def)
  then show "10 ^ (ndigits c - 1) \<le> c" "c < 10 ^ ndigits c" using assms by (simp_all add: le_nat_iff nat_less_iff)
  show "0 < ndigits c" using b(2) assms by (cases "ndigits c") auto
qed

lemma strip_zeros_val: "strip_zeros n c e = (c', e') \<Longrightarrow> of_int c' * pow10 e' = of_int c * pow10 e"
proof (induction n arbitrary: c e)
  case (Suc n)
  show ?case
  proof (cases "c mod 10 = 0")
    case True
    then obtain k where "c = 10 * k" by (metis mod_0_imp_dvd dvd_def)
    moreover have "pow10 (e + 1) = 10 * pow10 e" using pow10_add_nat [of e 1] by simp
    ultimately show ?thesis using Suc by simp
  next
    case False
    then show ?thesis using Suc.prems by simp
  qed
qed simp

lemma strip_zeros_nonneg: "strip_zeros n c e = (c', e') \<Longrightarrow> 0 \<le> c \<Longrightarrow> 0 \<le> c'"
  by (induction n arbitrary: c e) (auto split: if_splits simp: pos_imp_zdiv_nonneg_iff)

text \<open>A quotient of at most half a percent is not rounded above it.\<close>

definition half_percent :: rat where
  "half_percent = 5 * pow10 (- 3)"

lemma threshold_grid: "x \<le> - 3 \<Longrightarrow> half_percent = of_int (5 * 10 ^ nat (- 3 - x)) * pow10 x"
  using pow10_add_nat [of x "nat (- 3 - x)"] by (simp add: half_percent_def)

lemma below_grid:
  assumes "of_int q * pow10 x < half_percent" "x \<le> - 3"
  shows "of_int (q + 1) * pow10 x \<le> half_percent"
proof -
  have "of_int q * pow10 x < of_int (5 * 10 ^ nat (- 3 - x)) * pow10 x"
    using assms(1) threshold_grid [OF assms(2)] by simp
  then have "q < 5 * 10 ^ nat (- 3 - x)" by (simp add: mult_less_cancel_right_pos del: of_int_mult of_int_power)
  then have "(of_int (q + 1) :: rat) \<le> of_int (5 * 10 ^ nat (- 3 - x))" by (simp only: of_int_le_iff)
  then show ?thesis unfolding threshold_grid [OF assms(2)] by (rule mult_right_mono) simp
qed

lemma div_half_even_le:
  assumes "0 < b" "a \<le> n * b"
  shows "div_half_even a b \<le> n"
proof (cases "a = n * b")
  case True
  then show ?thesis using assms(1) by (simp add: div_half_even_def)
next
  case False
  then have "a < n * b" using assms(2) by simp
  moreover have "a div b * b \<le> a" using assms(1) by (simp add: minus_mod_eq_div_mult [symmetric])
  ultimately have "a div b * b < n * b" by linarith
  then have "a div b < n" using assms(1) by (simp add: mult_less_cancel_right_pos)
  then show ?thesis by (simp add: div_half_even_def Let_def)
qed

lemma fix28_below:
  assumes "0 \<le> q" "of_int q * pow10 x \<le> half_percent"
  shows "dval (fix28 q x) \<le> half_percent"
proof (cases "ndigits q \<le> prec")
  case True
  then show ?thesis using assms(2) by simp
next
  case False
  define k where "k = ndigits q - prec"
  define c where "c = div_half_even q (10 ^ k)"
  have "0 < q" using False assms(1) by (cases "q = 0") (simp_all add: ndigits_def floorlog_def)
  note nd = ndigits_bounds [OF this]
  have "(10 :: rat) ^ (ndigits q - 1) \<le> of_int q"
    using nd(1) by (metis of_int_le_iff of_int_numeral of_int_power)
  then have "pow10 (int (ndigits q - 1) + x) \<le> of_int q * pow10 x"
    by (simp only: pow10_add pow10_nat mult_right_mono pow10_nonneg)
  also have "\<dots> < pow10 (- 2)"
    using assms(2) by (simp add: half_percent_def pow10_def)
  finally have "int (ndigits q - 1) + x < - 2" using pow10_mono [of "- 2" "int (ndigits q - 1) + x"] by linarith
  then have x: "x + int k \<le> - 4" using False nd(3) by (simp add: k_def prec_def)
  define n where "n = (5 * 10 ^ nat (- 3 - (x + int k)) :: int)"
  have n: "half_percent = of_int n * pow10 (x + int k)"
    unfolding n_def by (rule threshold_grid) (use x in simp)
  then have "of_int q * pow10 x \<le> of_int (n * 10 ^ k) * pow10 x"
    using assms(2) by (simp add: pow10_add_nat mult.assoc mult.commute mult.left_commute)
  then have "q \<le> n * 10 ^ k" by (simp add: mult_le_cancel_right_pos del: of_int_mult of_int_power)
  then have "c \<le> n" unfolding c_def by (intro div_half_even_le) simp_all
  then have c: "of_int c * pow10 (x + int k) \<le> half_percent"
    unfolding n by (intro mult_right_mono) simp_all
  have "dval (Fin (c div 10) (x + int k + 1)) \<le> of_int c * pow10 (x + int k)"
    using pow10_add_nat [of "x + int k" 1] by (simp add: mult.assoc [symmetric] mult_right_mono) 
  with c show ?thesis using False by (simp add: fix28_def k_def [symmetric] c_def [symmetric] Let_def add.assoc)
qed

lemma pow10_below_half_percent: "pow10 a \<le> half_percent \<Longrightarrow> a \<le> - 3"
proof -
  assume "pow10 a \<le> half_percent"
  also have "half_percent < pow10 (- 2)" by (simp add: half_percent_def pow10_def)
  finally show ?thesis using pow10_mono [of "- 2" a] by linarith
qed

lemma quotient_digits:
  assumes "0 < c" "0 < d" "s = int (ndigits d) - int (ndigits c) + int prec + 1"
  shows "10 ^ prec \<le> c * 10 ^ nat s div (d * 10 ^ nat (- s))"
proof -
  have "10 ^ prec * (d * 10 ^ nat (- s)) \<le> 10 ^ prec * (10 ^ ndigits d * 10 ^ nat (- s))"
    using ndigits_bounds(2) [OF assms(2)] by simp
  also have "\<dots> = 10 ^ (prec + ndigits d + nat (- s))" by (simp add: power_add)
  also have "prec + ndigits d + nat (- s) = ndigits c - 1 + nat s"
    using assms(3) ndigits_bounds(3) [OF assms(1)] by linarith
  also have "(10 :: int) ^ (ndigits c - 1 + nat s) \<le> c * 10 ^ nat s"
    using ndigits_bounds(1) [OF assms(1)] by (simp add: power_add)
  finally have "10 ^ prec * (d * 10 ^ nat (- s)) \<le> c * 10 ^ nat s" .
  then have "10 ^ prec * (d * 10 ^ nat (- s)) div (d * 10 ^ nat (- s)) \<le> c * 10 ^ nat s div (d * 10 ^ nat (- s))"
    using assms(2) by (intro zdiv_mono1) simp_all
  then show ?thesis using assms(2) by simp
qed

lemma quotient_below:
  assumes "0 < c" "0 < d" "of_int c * pow10 e \<le> half_percent * (of_int d * pow10 f)"
    and "quotient c e d f = (q, x)"
  shows "0 \<le> q \<and> of_int q * pow10 x \<le> half_percent"
proof -
  define s where "s = int (ndigits d) - int (ndigits c) + int prec + 1"
  define num where "num = c * 10 ^ nat s"
  define den where "den = d * 10 ^ nat (- s)"
  define q0 where "q0 = num div den"
  define x0 where "x0 = e - f - s"
  have qx: "(if num mod den \<noteq> 0 then (if q0 mod 5 = 0 then q0 + 1 else q0, x0) else strip_zeros (nat s) q0 x0) = (q, x)"
    using assms(4) unfolding quotient_def Let_def s_def num_def den_def q0_def x0_def .
  have den: "0 < den" using assms(2) by (simp add: den_def)
  have q0: "10 ^ prec \<le> q0"
    unfolding q0_def num_def den_def by (rule quotient_digits [OF assms(1,2) s_def])
  have "of_int num / of_int den = of_int c / of_int d * pow10 s"
    by (simp add: num_def den_def pow10_shift [symmetric])
  then have "of_int num / of_int den * pow10 x0 = of_int c * pow10 e / (of_int d * pow10 f)"
    by (simp add: x0_def pow10_diff)
  also have "\<dots> \<le> half_percent" using assms(2,3) by (simp add: divide_le_eq)
  finally have v: "of_int num / of_int den * pow10 x0 \<le> half_percent" .
  have num: "num = q0 * den + num mod den" by (simp add: q0_def)
  show ?thesis
  proof (cases "num mod den = 0")
    case True
    then have "(of_int num :: rat) = of_int q0 * of_int den" using num by (metis add_0_right of_int_mult)
    then have "of_int q0 * pow10 x0 \<le> half_percent" using v den by simp
    moreover have "strip_zeros (nat s) q0 x0 = (q, x)" using qx True by simp
    moreover have "0 \<le> q0" using q0 by (rule order_trans [rotated]) simp
    ultimately show ?thesis using strip_zeros_val strip_zeros_nonneg by metis
  next
    case False
    then have "q0 * den < num" using num den pos_mod_sign [OF den, of num] by linarith
    then have "(of_int q0 :: rat) * of_int den < of_int num" by (metis of_int_less_iff of_int_mult)
    then have "of_int q0 < (of_int num / of_int den :: rat)" using den by (simp add: less_divide_eq)
    then have lt: "of_int q0 * pow10 x0 < half_percent"
      using v mult_strict_right_mono [of "of_int q0" "of_int num / of_int den" "pow10 x0"] by simp
    have "(10 :: rat) ^ prec \<le> of_int q0" using q0 by (metis of_int_le_iff of_int_numeral of_int_power)
    then have "pow10 (int prec + x0) \<le> of_int q0 * pow10 x0"
      by (simp only: pow10_add pow10_nat mult_right_mono pow10_nonneg)
    then have "x0 \<le> - 3" using lt pow10_below_half_percent [of "int prec + x0"] by simp
    note below_grid [OF lt this]
    moreover have "q = q0 \<or> q = q0 + 1" "x = x0" using qx False by (auto split: if_splits)
    moreover have "0 \<le> q0" using q0 by (rule order_trans [rotated]) simp
    ultimately show ?thesis using lt by auto
  qed
qed

section \<open>The comparison\<close>

definition CROSS_REST_DIVERGENCE_THRESHOLD :: decimal where
  "CROSS_REST_DIVERGENCE_THRESHOLD = Fin 5 (- 3)"

text \<open>\<open>abs(ws_close - ref_close) / ref_close\<close>\<close>

definition close_diff :: "decimal \<Rightarrow> decimal \<Rightarrow> decimal res" where
  "close_diff ws_close ref_close = bindE (dec_sub ws_close ref_close) (\<lambda>d. dec_div (dec_abs d) ref_close)"

definition diverges :: "decimal \<Rightarrow> decimal \<Rightarrow> bool res" where
  "diverges ws_close ref_close =
     bindE (close_diff ws_close ref_close) (\<lambda>diff. dec_gt diff CROSS_REST_DIVERGENCE_THRESHOLD)"

lemma ndigits_abs: "ndigits \<bar>c\<bar> = ndigits c"
  by (simp add: ndigits_def)

lemma dec_div_small:
  assumes "0 \<le> n" "0 < d" "of_int n * pow10 m \<le> half_percent * (of_int d * pow10 f)"
  shows "\<exists>r. dec_div (Fin n m) (Fin d f) = Inr r \<and> is_finite r \<and> dval r \<le> half_percent"
proof (cases "n = 0")
  case True
  then show ?thesis using assms(2) by (simp add: half_percent_def)
next
  case False
  then have n: "0 < n" using assms(1) by simp
  obtain q x where q: "quotient n m d f = (q, x)" by fastforce
  from quotient_below [OF n assms(2,3) q] have "0 \<le> q" "of_int q * pow10 x \<le> half_percent" by simp_all
  then have "dval (fix28 q x) \<le> half_percent" by (rule fix28_below)
  then show ?thesis using n assms(2) q by simp
qed

text \<open>C11: The comparison has no false positive: a stored close within half a percent of the REST close does
  not count as divergent, although the difference and the quotient are rounded to 28 digits; the
  premise on the digits of the difference holds for all closes a NUMERIC(28,10) column can hold.\<close>

theorem divergence_no_false_flag:
  assumes "0 < d" "ndigits (scale_to c e (min e f) - scale_to d f (min e f)) \<le> prec"
    and "200 * \<bar>dval (Fin c e) - dval (Fin d f)\<bar> \<le> dval (Fin d f)"
  shows "diverges (Fin c e) (Fin d f) = Inr False"
proof -
  define m where "m = min e f"
  define n where "n = scale_to c e m - scale_to d f m"
  have "of_int n * pow10 m = dval (Fin c e) - dval (Fin d f)"
    by (simp add: n_def m_def left_diff_distrib scale_to_val)
  then have "\<bar>dval (Fin c e) - dval (Fin d f)\<bar> = of_int \<bar>n\<bar> * pow10 m"
    by (metis abs_mult abs_of_nonneg of_int_abs pow10_nonneg)
  then have "of_int \<bar>n\<bar> * pow10 m \<le> half_percent * (of_int d * pow10 f)"
    using assms(3) by (simp add: half_percent_def pow10_def)
  then obtain r where "dec_div (Fin \<bar>n\<bar> m) (Fin d f) = Inr r" "is_finite r" "dval r \<le> half_percent"
    using dec_div_small [of "\<bar>n\<bar>" d m f] assms(1) by auto
  moreover have "dec_sub (Fin c e) (Fin d f) = Inr (Fin n m)"
    using assms(2) by (simp add: dec_sub_def Let_def m_def n_def scale_to_def)
  moreover have "dec_abs (Fin n m) = Fin \<bar>n\<bar> m"
    using assms(2) by (simp add: ndigits_abs n_def m_def)
  ultimately show ?thesis
    by (cases r) (auto simp: diverges_def close_diff_def dec_gt_def CROSS_REST_DIVERGENCE_THRESHOLD_def half_percent_def)
qed

lemma divergence_no_false_flag_witness:
  "diverges (Fin 100400000000 (- 10)) (Fin 10 0) = Inr False"
  by (rule divergence_no_false_flag)
    (simp_all add: scale_to_def ndigits_def prec_def pow10_def compute_floorlog)

section \<open>The check\<close>

text \<open>SELECT close FROM raw_mexc_candles_1m WHERE symbol = :s AND ts = :ts, its first row\<close>

definition candle_at :: "table_schema \<Rightarrow> string \<Rightarrow> int \<Rightarrow> cell list \<Rightarrow> bool" where
  "candle_at sch sy t r \<longleftrightarrow> cell_of sch r ''symbol'' = CText sy \<and> cell_of sch r ''ts'' = CTs t"

definition select_close :: "string \<Rightarrow> int \<Rightarrow> db \<Rightarrow> cell option res" where
  "select_close sy t d =
     (case d ''raw_mexc_candles_1m'' of
        None \<Rightarrow> Inl (DbError (UndefinedTable ''raw_mexc_candles_1m''))
      | Some ts \<Rightarrow>
          Inr (map_option (\<lambda>r. cell_of (t_schema ts) r ''close'') (find (candle_at (t_schema ts) sy t) (t_rows ts))))"

text \<open>\<open>Decimal(str(row[0]))\<close> of a NUMERIC value\<close>

fun close_of_cell :: "cell \<Rightarrow> decimal res" where
  "close_of_cell (CNum d) = Inr d"
| "close_of_cell _ = Inl InvalidOperation"

text \<open>UPDATE ... SET quality_flag = 'ws_rest_divergence' WHERE ... AND quality_flag = 'ok'\<close>

definition flag_divergence :: "string \<Rightarrow> int \<Rightarrow> db \<Rightarrow> db res" where
  "flag_divergence sy t =
     on_table ''raw_mexc_candles_1m'' (\<lambda>sch rows.
       Inr (update_where sch (\<lambda>r. candle_at sch sy t r \<and> cell_of sch r ''quality_flag'' = CText ''ok'')
              ''quality_flag'' (CText ''ws_rest_divergence'') rows))"

text \<open>The stored close of the minute against the REST close; numbers in log fields are kept as values.\<close>

definition compare_close :: "string \<Rightarrow> int \<Rightarrow> decimal \<Rightarrow> unit io" where
  "compare_close sy ref_bucket ref_close =
     bindI (getI w_db) (\<lambda>d.
     bindI (liftI (select_close sy ref_bucket d)) (\<lambda>row.
     case row of
       None \<Rightarrow> retI ()
     | Some v \<Rightarrow>
         bindI (liftI (close_of_cell v)) (\<lambda>ws_close.
         if dec_eq ref_close dec_zero then retI ()
         else
           bindI (liftI (close_diff ws_close ref_close)) (\<lambda>diff.
           bindI (liftI (dec_gt diff CROSS_REST_DIVERGENCE_THRESHOLD)) (\<lambda>over.
           whenI over
             (thenI (logI ''ws.rest.divergence''
                       [(''symbol'', WStr sy), (''bucket'', WInt ref_bucket), (''ws_close'', WFloat ws_close),
                        (''rest_close'', WFloat ref_close), (''diff_pct'', WFloat diff)])
             (bindI (getI w_db) (\<lambda>d'.
              bindI (liftI (flag_divergence sy ref_bucket d')) (\<lambda>d''.
              updI (\<lambda>w. w\<lparr>w_db := d''\<rparr>))))))))))"

text \<open>One iteration for one symbol\<close>

definition divergence_check :: "ohlcv_fetch \<Rightarrow> string \<Rightarrow> unit io" where
  "divergence_check fetch sy =
     catchI
       (bindI readI (\<lambda>r.
        bindI (fetch sy ''1m'' (rd_now r - 180000000) (rd_now r)) (\<lambda>rest_candles.
        if length rest_candles < 2 then retI ()
        else
          let ref_candle = rest_candles ! (length rest_candles - 2) in
          compare_close sy (floor_minute (instant (c_ts ref_candle))) (c_close ref_candle))))
       (\<lambda>e. logI ''ws.rest.divergence.check_failed''
              [(''symbol'', WStr sy), (''error_type'', WStr (exc_name e))])"

text \<open>The rotation over the tier-1 symbols, \<open>passes\<close> iterations before the shutdown event is seen.\<close>

definition divergence_pass :: "ohlcv_fetch \<Rightarrow> string list \<Rightarrow> nat \<Rightarrow> nat io" where
  "divergence_pass fetch symbols cursor =
     thenI (divergence_check fetch (symbols ! (cursor mod length symbols))) (retI (cursor + 1))"

definition cross_rest_divergence_check :: "ohlcv_fetch \<Rightarrow> string list \<Rightarrow> nat \<Rightarrow> nat io" where
  "cross_rest_divergence_check fetch tier1_symbols passes =
     (if tier1_symbols = [] then retI 0
      else foldI (\<lambda>cursor _. divergence_pass fetch tier1_symbols cursor) 0 [0..<passes])"

lemma keeps_table_fetch_ohlcv:
  assumes "t \<noteq> ''dead_letter''"
  shows "keeps (\<lambda>w. w_db w t = v) (fetch_ohlcv api sy tf a b)"
proof -
  have c: "keeps (\<lambda>w. w_db w t = v) (callI r)" for r :: "nat \<Rightarrow> wire list list res"
    by (simp add: keeps_def callI_def)
  show ?thesis
    unfolding fetch_ohlcv_def mexc_retry_def guarded_call_def parse_each_def
    using assms by (intro keeps_intros c keeps_table_dead_letter)
qed

lemma dec_add_error: "dec_add a b = Inl e \<Longrightarrow> e = InvalidOperation"
  by (cases "(a, b)" rule: dec_add.cases) (auto simp: Let_def split: if_splits)

lemma dec_compare_error: "dec_lt a b = Inl e \<Longrightarrow> e = InvalidOperation"
  by (cases "(a, b)" rule: dec_lt.cases) auto

lemma dec_div_error: "dec_div a b = Inl e \<Longrightarrow> e \<in> {InvalidOperation, Foreign ''DivisionByZero''}"
  by (cases "(a, b)" rule: dec_div.cases) (auto split: if_splits prod.splits)

lemma close_diff_error: "close_diff x ref = Inl e \<Longrightarrow> is_Exception e"
  by (auto simp: close_diff_def dec_sub_def res_simps is_Exception_def dest: dec_add_error dec_div_error)

lemma dec_gt_error: "dec_gt a b = Inl e \<Longrightarrow> is_Exception e"
  by (auto simp: dec_gt_def is_Exception_def dest: dec_compare_error)

lemma candle_key: "row_key tbl_raw_mexc_candles_1m r =
    [cell_of tbl_raw_mexc_candles_1m r ''symbol'', cell_of tbl_raw_mexc_candles_1m r ''ts'']"
  by (simp add: row_key_def tbl_raw_mexc_candles_1m_def)

text \<open>The rows an iteration flags.\<close>

definition flag_hit :: "string \<Rightarrow> int \<Rightarrow> decimal \<Rightarrow> cell list \<Rightarrow> bool" where
  "flag_hit sy t ref r \<longleftrightarrow>
     candle_at tbl_raw_mexc_candles_1m sy t r \<and>
     cell_of tbl_raw_mexc_candles_1m r ''quality_flag'' = CText ''ok'' \<and> \<not> dec_eq ref dec_zero \<and>
     (case cell_of tbl_raw_mexc_candles_1m r ''close'' of CNum x \<Rightarrow> diverges x ref = Inr True | _ \<Rightarrow> False)"

definition flagged :: "cell list \<Rightarrow> cell list" where
  "flagged = set_cell tbl_raw_mexc_candles_1m ''quality_flag'' (CText ''ws_rest_divergence'')"

lemma find_unique:
  assumes "wf_rows tbl_raw_mexc_candles_1m rows"
  shows "find (candle_at tbl_raw_mexc_candles_1m sy t) rows = Some r0 \<Longrightarrow>
      r \<in> set rows \<Longrightarrow> candle_at tbl_raw_mexc_candles_1m sy t r \<Longrightarrow> r = r0"
proof -
  assume "find (candle_at tbl_raw_mexc_candles_1m sy t) rows = Some r0"
    and r: "r \<in> set rows" "candle_at tbl_raw_mexc_candles_1m sy t r"
  then have "r0 \<in> set rows" "candle_at tbl_raw_mexc_candles_1m sy t r0"
    by (auto simp: find_Some_iff)
  then show ?thesis
    using r assms inj_onD [of "row_key tbl_raw_mexc_candles_1m" "set rows" r r0]
    by (auto simp: wf_rows_def candle_at_def candle_key distinct_map)
qed

lemma update_hits:
  assumes "wf_rows tbl_raw_mexc_candles_1m rows" "find (candle_at tbl_raw_mexc_candles_1m sy t) rows = Some r0"
    and "cell_of tbl_raw_mexc_candles_1m r0 ''close'' = CNum x" "\<not> dec_eq ref dec_zero" "diverges x ref = Inr True"
  shows "update_where tbl_raw_mexc_candles_1m
      (\<lambda>r. candle_at tbl_raw_mexc_candles_1m sy t r \<and> cell_of tbl_raw_mexc_candles_1m r ''quality_flag'' = CText ''ok'')
      ''quality_flag'' (CText ''ws_rest_divergence'') rows =
    map (\<lambda>r. if flag_hit sy t ref r then flagged r else r) rows"
proof -
  have "cell_of tbl_raw_mexc_candles_1m r ''close'' = CNum x"
    if "r \<in> set rows" "candle_at tbl_raw_mexc_candles_1m sy t r" for r
    using find_unique [OF assms(1,2) that] assms(3) by simp
  then show ?thesis using assms(4,5) by (auto simp: update_where_def flag_hit_def flagged_def)
qed

lemma no_hits:
  assumes "\<And>r. r \<in> set rows \<Longrightarrow> \<not> flag_hit sy t ref r"
  shows "map (\<lambda>r. if flag_hit sy t ref r then flagged r else r) rows = rows"
  using assms by (simp add: map_idI)

text \<open>The part of an iteration after the candles are there.\<close>

lemma no_hit_unless:
  assumes "wf_rows tbl_raw_mexc_candles_1m rows" "find (candle_at tbl_raw_mexc_candles_1m sy t) rows = Some r0"
    and "\<And>x. cell_of tbl_raw_mexc_candles_1m r0 ''close'' = CNum x \<Longrightarrow> \<not> dec_eq ref dec_zero \<Longrightarrow>
      diverges x ref \<noteq> Inr True"
    and "r \<in> set rows"
  shows "\<not> flag_hit sy t ref r"
  using find_unique [OF assms(1,2,4)] assms(3) by (auto simp: flag_hit_def split: cell.splits)

text \<open>The outcome of the comparison: the table with the hit row flagged, or an exception that changes no row.\<close>

definition compared :: "string \<Rightarrow> int \<Rightarrow> decimal \<Rightarrow> tstate \<Rightarrow> world \<Rightarrow> unit res \<times> world \<Rightarrow> bool" where
  "compared sy t ref ts w out \<longleftrightarrow>
     w_db (snd out) = (w_db w)(''raw_mexc_candles_1m'' \<mapsto> ts\<lparr>t_rows := map (\<lambda>r. if flag_hit sy t ref r then flagged r else r) (t_rows ts)\<rparr>) \<and>
     (case fst out of Inl e \<Rightarrow> is_Exception e | Inr _ \<Rightarrow> True)"

lemma compared_nothing:
  assumes "w_db w ''raw_mexc_candles_1m'' = Some ts" "\<And>r. r \<in> set (t_rows ts) \<Longrightarrow> \<not> flag_hit sy t ref r"
    and "\<And>e. fst out = Inl e \<Longrightarrow> is_Exception e" "w_db (snd out) = w_db w"
  shows "compared sy t ref ts w out"
  using assms(1,3,4) no_hits [OF assms(2)] by (cases "fst out") (auto simp: compared_def fun_upd_idem)

lemma compare_number:
  assumes "wf_rows tbl_raw_mexc_candles_1m (t_rows ts)" "w_db w ''raw_mexc_candles_1m'' = Some ts"
    and "t_schema ts = tbl_raw_mexc_candles_1m" "find (candle_at tbl_raw_mexc_candles_1m sy t) (t_rows ts) = Some r0"
    and "cell_of tbl_raw_mexc_candles_1m r0 ''close'' = CNum x" "\<not> dec_eq ref dec_zero"
  shows "compared sy t ref ts w (compare_close sy t ref w)"
proof -
  note run = compare_close_def select_close_def bindI_def getI_def liftI_def retI_def
  note miss = compared_nothing [OF assms(2) no_hit_unless [OF assms(1,4)]]
  show ?thesis
  proof (cases "diverges x ref")
    case (Inl e)
    then consider "close_diff x ref = Inl e" "is_Exception e"
      | diff where "close_diff x ref = Inr diff" "dec_gt diff CROSS_REST_DIVERGENCE_THRESHOLD = Inl e" "is_Exception e"
      by (auto simp: diverges_def res_simps dest: close_diff_error dec_gt_error)
    then show ?thesis by cases (use assms Inl in \<open>auto simp: run intro!: miss\<close>)
  next
    case (Inr over)
    then obtain diff where diff: "close_diff x ref = Inr diff" "dec_gt diff CROSS_REST_DIVERGENCE_THRESHOLD = Inr over"
      by (auto simp: diverges_def res_simps)
    show ?thesis
    proof (cases over)
      case True
      have "flag_divergence sy t (w_db w) = Inr ((w_db w)(''raw_mexc_candles_1m'' \<mapsto> ts\<lparr>t_rows :=
          map (\<lambda>r. if flag_hit sy t ref r then flagged r else r) (t_rows ts)\<rparr>))"
        using assms(2,3) True Inr update_hits [OF assms(1,4-6)] by (simp add: flag_divergence_def on_table_def)
      then show ?thesis
        using diff True assms(2-6) by (simp add: compared_def run whenI_def thenI_def logI_def updI_def)
    next
      case False
      show ?thesis by (rule miss) (use False Inr diff assms in \<open>simp_all add: run whenI_def\<close>)
    qed
  qed
qed

lemma compare_close_compared:
  assumes "wf_rows tbl_raw_mexc_candles_1m (t_rows ts)" "w_db w ''raw_mexc_candles_1m'' = Some ts"
    and "t_schema ts = tbl_raw_mexc_candles_1m"
  shows "compared sy t ref ts w (compare_close sy t ref w)"
proof (cases "find (candle_at tbl_raw_mexc_candles_1m sy t) (t_rows ts)")
  case None
  then have "\<not> flag_hit sy t ref r" if "r \<in> set (t_rows ts)" for r
    using that by (auto simp: find_None_iff flag_hit_def)
  then show ?thesis
    using None assms by (intro compared_nothing)
      (simp_all add: compare_close_def select_close_def bindI_def getI_def liftI_def retI_def)
next
  case (Some r0)
  note run = compare_close_def select_close_def bindI_def getI_def liftI_def retI_def
  note miss = compared_nothing [OF assms(2) no_hit_unless [OF assms(1) Some]]
  show ?thesis
  proof (cases "(\<exists>x. cell_of tbl_raw_mexc_candles_1m r0 ''close'' = CNum x) \<and> \<not> dec_eq ref dec_zero")
    case True
    then show ?thesis using compare_number [OF assms Some] by blast
  next
    case False
    show ?thesis
    proof (cases "cell_of tbl_raw_mexc_candles_1m r0 ''close''")
      case (CNum x)
      then show ?thesis using False Some assms by (intro miss) (simp_all add: run)
    qed (use Some assms in \<open>intro miss; simp add: run is_Exception_def\<close>)+
  qed
qed

text \<open>C10: One iteration of the cross-REST check flags exactly the row of the second-last REST candle's minute,
  and only when it is still marked ok and its stored close diverges from the REST close; the table
  keeps every other cell and row, no other table changes (dead letters apart), and the iteration
  returns whatever the arithmetic does: a NaN close ends in the log.\<close>

theorem divergence_check_flags:
  assumes "wf_db (w_db w)" "w_db w ''raw_mexc_candles_1m'' = Some ts" "t_schema ts = tbl_raw_mexc_candles_1m"
    and now: "now = rd_now (e_read (w_env w) (w_pos w))"
    and fetch: "fetch_ohlcv api sy ''1m'' (now - 180000000) now (w\<lparr>w_pos := Suc (w_pos w)\<rparr>) = (Inr cs, w1)"
    and cs: "2 \<le> length cs" "ref = cs ! (length cs - 2)"
  shows "\<exists>w'. divergence_check (fetch_ohlcv api) sy w = (Inr (), w') \<and>
    w_db w' = (w_db w1)(''raw_mexc_candles_1m'' \<mapsto> ts\<lparr>t_rows :=
      map (\<lambda>r. if flag_hit sy (floor_minute (instant (c_ts ref))) (c_close ref) r then flagged r else r) (t_rows ts)\<rparr>) \<and>
    (\<forall>t. t \<noteq> ''dead_letter'' \<longrightarrow> w_db w1 t = w_db w t)"
proof -
  let ?t = "floor_minute (instant (c_ts ref))" and ?ref = "c_close ref"
  have frame: "w_db w1 t = w_db w t" if "t \<noteq> ''dead_letter''" for t
    using keepsD [OF keeps_table_fetch_ohlcv [OF that, of "w_db w t"] _ fetch] by simp
  then have d1: "w_db w1 ''raw_mexc_candles_1m'' = Some ts" using assms(2) by simp
  have wf: "wf_rows tbl_raw_mexc_candles_1m (t_rows ts)" using assms(1-3) by (metis wf_db_def)
  obtain r w2 where r: "compare_close sy ?t ?ref w1 = (r, w2)" by fastforce
  then have "compared sy ?t ?ref ts w1 (r, w2)" using compare_close_compared [OF wf d1 assms(3), of sy ?t ?ref] by simp
  then show ?thesis
    using r fetch cs frame now
    by (cases r) (auto simp: compared_def divergence_check_def readI_def bindI_def catchI_def Let_def logI_def updI_def)
qed

definition sample_candle :: "int \<Rightarrow> candle" where
  "sample_candle ms = \<lparr>c_symbol = ''BTC'', c_source = Mexc_native, c_timeframe = TF_1m, c_ts = Aware (1000 * ms),
     c_open = Fin 1 0, c_high = Fin 2 0, c_low = Fin 1 0, c_close = Fin 2 0, c_volume = Fin 5 0\<rparr>"

lemma sample_row_parsed: "safe_ms ms \<Longrightarrow> parse_candle ''BTC'' ''1m'' (sample_row ms) = Inr (sample_candle ms)"
  by (simp add: sample_row_def parse_candle_def from_ccxt_row_def ohlcv_to_domain_def sample_candle_def
      safe_ms_def ts_from_ms_exact Candle_def Source_def Timeframe_def literal_def field_defs pow10_def)

definition divergent_row :: "cell list" where
  "divergent_row = [CText ''BTC'', CTs 1700000040000000, CNum (Fin 10000000000 (- 10)), CNum (Fin 30000000000 (- 10)),
     CNum (Fin 10000000000 (- 10)), CNum (Fin 30000000000 (- 10)), CNum (Fin 50000000000 (- 10)), CText ''mexc_native'',
     CText ''ok'', CTs 1700000100000000]"

definition divergent_world :: world where
  "divergent_world = calm_world 1700000220
     [''raw_mexc_candles_1m'' \<mapsto> \<lparr>t_schema = tbl_raw_mexc_candles_1m, t_rows = [divergent_row]\<rparr>]"

definition divergent_api :: ohlcv_api where
  "divergent_api = (\<lambda>_ _ _ _. Inr [sample_row 1700000040000, sample_row 1700000100000])"

lemma divergent_fetch:
  "fetch_ohlcv divergent_api ''BTC'' ''1m'' a b w =
     (Inr [sample_candle 1700000040000, sample_candle 1700000100000], w\<lparr>w_pos := Suc (w_pos w)\<rparr>)"
proof -
  have parsed: "mapE (parse_candle ''BTC'' ''1m'') [sample_row 1700000040000, sample_row 1700000100000] =
      Inr [sample_candle 1700000040000, sample_candle 1700000100000]"
    by (simp add: sample_row_parsed safe_ms_def)
  have "guarded_call ''fetch_ohlcv'' ''BTC'' (divergent_api ''BTC'' ''1m'' (ms_of_ts a)) w =
      (Inr [sample_row 1700000040000, sample_row 1700000100000], w\<lparr>w_pos := Suc (w_pos w)\<rparr>)"
    by (rule guarded_call_ok) (simp add: divergent_api_def)
  then show ?thesis
    using parse_each_ok [OF parsed] by (simp add: fetch_ohlcv_def mexc_retry_def bindI_def eval_nat_numeral)
qed

lemma divergent_wf: "wf_db (w_db divergent_world)"
  by (simp add: divergent_world_def calm_world_def wf_db_def wf_rows_def row_ok_def cells_ok_def check_row_def
      tbl_raw_mexc_candles_1m_def col_def divergent_row_def required_def cell_of_def SOURCE_ENUM_def QUALITY_FLAG_ENUM_def
      scale_to_def)

lemma strip_zeros_numeral:
  "strip_zeros (numeral k) c e = (if c mod 10 = 0 then strip_zeros (pred_numeral k) (c div 10) (e + 1) else (c, e))"
  by (simp add: numeral_eq_Suc)

lemma sample_digits: "ndigits 10000000000 = 11" "ndigits 2 = 1" "ndigits 5000000000 = 10"
  by (simp_all add: ndigits_def compute_floorlog)

lemma divergent_closes: "diverges (Fin 30000000000 (- 10)) (Fin 2 0) = Inr True"
proof -
  have "dec_sub (Fin 30000000000 (- 10)) (Fin 2 0) = Inr (Fin 10000000000 (- 10))"
    by (simp add: dec_sub_def scale_to_def sample_digits prec_def)
  moreover have "dec_abs (Fin 10000000000 (- 10)) = Fin 10000000000 (- 10)"
    by (simp add: sample_digits prec_def)
  moreover have "quotient 10000000000 (- 10) 2 0 = (5000000000, - 10)"
    by (simp add: quotient_def sample_digits prec_def strip_zeros_numeral)
  moreover have "fix28 5000000000 (- 10) = Fin 5000000000 (- 10)" by (simp add: sample_digits prec_def)
  ultimately show ?thesis
    by (simp add: diverges_def close_diff_def dec_gt_def CROSS_REST_DIVERGENCE_THRESHOLD_def pow10_def)
qed

lemma divergent_hit: "flag_hit ''BTC'' 1700000040000000 (Fin 2 0) divergent_row"
  using divergent_closes
  by (simp add: flag_hit_def candle_at_def divergent_row_def cell_of_def tbl_raw_mexc_candles_1m_def col_def
      dec_zero_def pow10_def)

lemma divergence_check_flags_witness:
  "rows_of (w_db (snd (divergence_check (fetch_ohlcv divergent_api) ''BTC'' divergent_world))) ''raw_mexc_candles_1m'' =
     [flagged divergent_row]"
proof -
  have "w_db divergent_world ''raw_mexc_candles_1m'' = Some \<lparr>t_schema = tbl_raw_mexc_candles_1m, t_rows = [divergent_row]\<rparr>"
    by (simp add: divergent_world_def)
  from divergence_check_flags [OF divergent_wf this _ refl divergent_fetch _ refl] divergent_hit
  show ?thesis by (auto simp: sample_candle_def floor_minute_def minute_us_def rows_of_def)
qed

end
