(* ===== verification/Coinglass.thy ===== *)
theory Coinglass
  imports Mexc_Client
begin

text \<open>
  src/shortfire/ingest/coinglass: the client's status routing, the response schemas in
  Pydantic's lax mode, and the four writers. A reply of the HTTP client is a status, the body
  text and the decoded JSON, or a transport exception.
\<close>

section \<open>client.py\<close>

record http_reply =
  hr_status :: int
  hr_text :: string
  hr_json :: "wire res"

definition RETRY_STATUS_CODES :: "int set" where
  "RETRY_STATUS_CODES = {429, 500, 502, 503, 504}"

text \<open>What \<open>_call\<close> makes of a status: raise for a retry, dead-letter, or decode.\<close>

datatype routing = Raise_Retry | Dead_Letter_None | Decode

definition route_status :: "int \<Rightarrow> routing" where
  "route_status status =
     (if status \<in> RETRY_STATUS_CODES then Raise_Retry
      else if status \<ge> 400 then Dead_Letter_None else Decode)"

definition http_call ::
  "string \<Rightarrow> string \<Rightarrow> wire \<Rightarrow> string \<Rightarrow> (nat \<Rightarrow> http_reply res) \<Rightarrow> wire option io" where
  "http_call source endpoint sy warning remote =
     bindI (callI remote) (\<lambda>r.
       case route_status (hr_status r) of
         Raise_Retry \<Rightarrow> raiseI (HTTPStatusError (hr_status r))
       | Dead_Letter_None \<Rightarrow>
           thenI (write_to_dead_letter source endpoint sy (take 8000 (hr_text r)) ''HTTPStatusError''
                    (''HTTP '' @ show_int (hr_status r)))
           (thenI (logI warning [(''endpoint'', WStr endpoint), (''status'', WInt (hr_status r))])
              (retI None))
       | Decode \<Rightarrow> bindI (liftI (hr_json r)) (\<lambda>v. retI (Some v)))"

text \<open>The JSON value null is \<open>None\<close> too; a payload that does not validate is dead-lettered.\<close>

definition validated ::
  "string \<Rightarrow> string \<Rightarrow> wire \<Rightarrow> (wire \<Rightarrow> 'a res) \<Rightarrow> wire option \<Rightarrow> 'a option io" where
  "validated source endpoint sy validate payload =
     (case payload of
        None \<Rightarrow> retI None
      | Some v \<Rightarrow>
          if v = WNone then retI None
          else
            (case validate v of
               Inr x \<Rightarrow> retI (Some x)
             | Inl ValidationError \<Rightarrow>
                 bindI (rendered v) (\<lambda>p.
                 thenI (route_to_dead_letter source endpoint sy (take 8000 p) ValidationError)
                   (retI None))
             | Inl e \<Rightarrow> raiseI e))"

section \<open>schemas.py\<close>

text \<open>Lax coercion of decoded JSON to \<open>Decimal\<close>, \<open>int\<close> and \<open>str\<close> fields.\<close>

fun lax_decimal :: "wire \<Rightarrow> decimal res" where
  "lax_decimal (WInt i) = Inr (Fin i 0)"
| "lax_decimal (WFloat (Fin c e)) = Inr (Fin c e)"
| "lax_decimal (WStr s) =
     (case parse_decimal s of
        Some (Fin c e) \<Rightarrow> Inr (Fin c e)
      | _ \<Rightarrow> Inl ValidationError)"
| "lax_decimal _ = Inl ValidationError"

definition lax_decimal_opt :: "wire \<Rightarrow> decimal option res" where
  "lax_decimal_opt v = (if v = WNone then Inr None else bindE (lax_decimal v) (\<lambda>d. Inr (Some d)))"

fun lax_int :: "wire \<Rightarrow> int res" where
  "lax_int (WInt i) = Inr i"
| "lax_int (WBool b) = Inr (if b then 1 else 0)"
| "lax_int (WFloat (Fin c e)) =
     (if of_int (floor (dval (Fin c e))) = dval (Fin c e) then Inr (floor (dval (Fin c e)))
      else Inl ValidationError)"
| "lax_int (WStr s) = (case parse_int s of None \<Rightarrow> Inl ValidationError | Some i \<Rightarrow> Inr i)"
| "lax_int _ = Inl ValidationError"

definition lax_int_opt :: "wire \<Rightarrow> int option res" where
  "lax_int_opt v = (if v = WNone then Inr None else bindE (lax_int v) (\<lambda>i. Inr (Some i)))"

fun lax_str :: "wire \<Rightarrow> string res" where
  "lax_str (WStr s) = Inr s"
| "lax_str _ = Inl ValidationError"

definition field :: "wdict \<Rightarrow> string \<Rightarrow> wire res" where
  "field d k = (case map_of d k of None \<Rightarrow> Inl ValidationError | Some v \<Rightarrow> Inr v)"

fun as_dict :: "wire \<Rightarrow> wdict res" where
  "as_dict (WDict d) = Inr d"
| "as_dict _ = Inl ValidationError"

text \<open>The field \<open>data: tuple[Row, ...] = ()\<close>.\<close>

definition data_rows :: "(wdict \<Rightarrow> 'r res) \<Rightarrow> wdict \<Rightarrow> 'r list res" where
  "data_rows row d =
     (case map_of d ''data'' of
        None \<Rightarrow> Inr []
      | Some (WList xs) \<Rightarrow> mapE (\<lambda>x. bindE (as_dict x) row) xs
      | Some _ \<Rightarrow> Inl ValidationError)"

record funding_rate_row =
  fr_symbol :: string
  fr_rate :: "decimal option"
  fr_next :: "int option"

definition FundingRateListRow :: "wdict \<Rightarrow> funding_rate_row res" where
  "FundingRateListRow d =
     bindE (field d ''symbol'') (\<lambda>s0. bindE (lax_str s0) (\<lambda>s.
     bindE (lax_decimal_opt (dget_or d ''funding_rate'' WNone)) (\<lambda>r.
     bindE (lax_int_opt (dget_or d ''next_funding_time'' WNone)) (\<lambda>n.
     Inr \<lparr>fr_symbol = s, fr_rate = r, fr_next = n\<rparr>))))"

definition FundingRateListResponse :: "wire \<Rightarrow> funding_rate_row list res" where
  "FundingRateListResponse v =
     bindE (as_dict v) (\<lambda>d.
     bindE (field d ''code'') (\<lambda>c. bindE (lax_int c) (\<lambda>_.
     bindE (field d ''msg'') (\<lambda>m. bindE (lax_str m) (\<lambda>_.
     data_rows FundingRateListRow d)))))"

text \<open>The envelope of the per-symbol series: code and msg have defaults.\<close>

definition series_response :: "(wdict \<Rightarrow> 'r res) \<Rightarrow> wire \<Rightarrow> 'r list res" where
  "series_response row v =
     bindE (as_dict v) (\<lambda>d.
     bindE (lax_int (dget_or d ''code'' (WInt 0))) (\<lambda>_.
     bindE (lax_str (dget_or d ''msg'' (WStr ''''))) (\<lambda>_.
     data_rows row d)))"

record point_row =
  pr_time :: int
  pr_value :: "decimal option"

definition point_row_of :: "string \<Rightarrow> wdict \<Rightarrow> point_row res" where
  "point_row_of value_field d =
     bindE (field d ''time'') (\<lambda>t0. bindE (lax_int t0) (\<lambda>t.
     bindE (lax_decimal_opt (dget_or d value_field WNone)) (\<lambda>v.
     Inr \<lparr>pr_time = t, pr_value = v\<rparr>)))"

definition OpenInterestHistoryRow :: "wdict \<Rightarrow> point_row res" where
  "OpenInterestHistoryRow = point_row_of ''open_interest_usd''"

definition LongShortAccountRatioRow :: "wdict \<Rightarrow> point_row res" where
  "LongShortAccountRatioRow = point_row_of ''long_short_ratio''"

record liq_row =
  lr_time :: int
  lr_long :: "decimal option"
  lr_short :: "decimal option"

definition LiquidationCoinHistoryRow :: "wdict \<Rightarrow> liq_row res" where
  "LiquidationCoinHistoryRow d =
     bindE (field d ''time'') (\<lambda>t0. bindE (lax_int t0) (\<lambda>t.
     bindE (lax_decimal_opt (dget_or d ''liquidation_long_usd'' WNone)) (\<lambda>l.
     bindE (lax_decimal_opt (dget_or d ''liquidation_short_usd'' WNone)) (\<lambda>s.
     Inr \<lparr>lr_time = t, lr_long = l, lr_short = s\<rparr>))))"

definition zero_if_none :: "decimal option \<Rightarrow> decimal" where
  "zero_if_none d = (case d of None \<Rightarrow> dec_zero | Some v \<Rightarrow> v)"

definition oi_records :: "string \<Rightarrow> point_row list \<Rightarrow> cell list list res" where
  "oi_records unified rows =
     mapE (\<lambda>r. bindE (ts_from_ms (pr_time r)) (\<lambda>ts.
       Inr [CText unified, CTs ts, CNum (zero_if_none (pr_value r)), CText ''coinglass_aggregate'',
            CText ''ok''])) rows"

definition lsr_records :: "string \<Rightarrow> point_row list \<Rightarrow> cell list list res" where
  "lsr_records unified rows =
     mapE (\<lambda>r. bindE (ts_from_ms (pr_time r)) (\<lambda>ts.
       Inr [CText unified, CTs ts, (case pr_value r of None \<Rightarrow> CNull | Some d \<Rightarrow> CNum d),
            CText ''coinglass_aggregate'', CText ''ok''])) rows"

definition liq_records :: "string \<Rightarrow> liq_row list \<Rightarrow> cell list list res" where
  "liq_records unified rows =
     bindE (mapE (\<lambda>r. bindE (ts_from_ms (lr_time r)) (\<lambda>ts.
       Inr [[CText unified, CTs ts, CText ''long'', CNum (zero_if_none (lr_long r)),
              CText ''coinglass_aggregate'', CText ''ok''],
            [CText unified, CTs ts, CText ''short'', CNum (zero_if_none (lr_short r)),
              CText ''coinglass_aggregate'', CText ''ok'']])) rows)
       (\<lambda>rss. Inr (concat rss))"

section \<open>Fetches and writers\<close>

definition coinglass_fetch ::
  "string \<Rightarrow> wire \<Rightarrow> (wire \<Rightarrow> 'a res) \<Rightarrow> (nat \<Rightarrow> http_reply res) \<Rightarrow> 'a option io" where
  "coinglass_fetch endpoint sy validate remote =
     coinglass_retry
       (bindI (http_call ''coinglass_aggregate'' endpoint sy ''coinglass._call.4xx_dead_lettered'' remote)
          (validated ''coinglass_aggregate'' endpoint sy validate))"

definition fetch_funding_rate_list :: "(nat \<Rightarrow> http_reply res) \<Rightarrow> funding_rate_row list option io" where
  "fetch_funding_rate_list =
     coinglass_fetch ''/api/futures/funding-rate-list'' WNone FundingRateListResponse"

definition cg_fetch_open_interest :: "string \<Rightarrow> (nat \<Rightarrow> http_reply res) \<Rightarrow> point_row list option io" where
  "cg_fetch_open_interest symbol =
     coinglass_fetch ''/api/futures/open-interest/history'' (WStr symbol)
       (series_response OpenInterestHistoryRow)"

definition fetch_liquidation_coin_history :: "string \<Rightarrow> (nat \<Rightarrow> http_reply res) \<Rightarrow> liq_row list option io" where
  "fetch_liquidation_coin_history symbol =
     coinglass_fetch ''/api/futures/liquidation/coin-history'' (WStr symbol)
       (series_response LiquidationCoinHistoryRow)"

definition fetch_long_short_account_ratio :: "string \<Rightarrow> (nat \<Rightarrow> http_reply res) \<Rightarrow> point_row list option io" where
  "fetch_long_short_account_ratio symbol =
     coinglass_fetch ''/api/futures/long-short-account-ratio'' (WStr symbol)
       (series_response LongShortAccountRatioRow)"

definition funding_agg_columns :: "string list" where
  "funding_agg_columns = [''symbol'', ''ts'', ''funding_rate'', ''source'', ''quality_flag'']"

definition cg_conflict :: "string list" where
  "cg_conflict = [''symbol'', ''ts'', ''source'']"

text \<open>Rows whose coin is mapped and whose rate is present, stamped with the time of the call.\<close>

definition funding_agg_records ::
  "(string \<rightharpoonup> string) \<Rightarrow> int \<Rightarrow> funding_rate_row list \<Rightarrow> cell list list" where
  "funding_agg_records mapping ts_now rows =
     List.map_filter (\<lambda>r.
       case mapping (fr_symbol r) of
         None \<Rightarrow> None
       | Some unified \<Rightarrow>
           map_option (\<lambda>rate. [CText unified, CTs ts_now, CNum rate, CText ''coinglass_aggregate'', CText ''ok''])
             (fr_rate r)) rows"

definition skip_note :: "(string \<rightharpoonup> string) \<Rightarrow> funding_rate_row \<Rightarrow> unit io" where
  "skip_note mapping r =
     (case mapping (fr_symbol r) of
        None \<Rightarrow> logI ''funding_agg.unmapped_symbol'' [(''coinglass_symbol'', WStr (fr_symbol r))]
      | Some unified \<Rightarrow>
          whenI (fr_rate r = None)
            (logI ''funding_agg.null_funding_rate'' [(''coinglass_symbol'', WStr (fr_symbol r))]))"

definition funding_agg_fetch_and_write ::
  "(nat \<Rightarrow> http_reply res) \<Rightarrow> (string \<rightharpoonup> string) \<Rightarrow> nat io" where
  "funding_agg_fetch_and_write remote mapping =
     bindI (fetch_funding_rate_list remote) (\<lambda>resp.
       case resp of
         None \<Rightarrow>
           thenI (logI ''funding_agg.skipped''
                    [(''reason'', WStr ''fetch returned None - dead_letter already logged'')]) (retI 0)
       | Some rows \<Rightarrow>
           bindI readI (\<lambda>r.
           thenI (forI rows (skip_note mapping))
           (bindI (copyI ''raw_coinglass_funding_agg'' (funding_agg_records mapping (rd_now r) rows)
                    funding_agg_columns cg_conflict) (\<lambda>n.
           thenI (logI ''funding_agg.completed'' [(''rows_written'', WInt (int n))]) (retI n)))))"

text \<open>The common body of oi.py, liq.py and lsr.py.\<close>

definition series_fetch_and_write ::
  "string \<Rightarrow> string \<Rightarrow> string \<Rightarrow> string list \<Rightarrow> string list \<Rightarrow> 'r list option io
   \<Rightarrow> ('r list \<Rightarrow> cell list list res) \<Rightarrow> nat io" where
  "series_fetch_and_write name unified target columns conflict fetch to_records =
     bindI fetch (\<lambda>resp.
       case resp of
         None \<Rightarrow> thenI (logI (name @ ''.skipped'') [(''symbol'', WStr unified), (''reason'', WStr ''fetch returned None'')]) (retI 0)
       | Some rows \<Rightarrow>
           bindI (liftI (to_records rows)) (\<lambda>records.
           bindI (copyI target records columns conflict) (\<lambda>n.
           thenI (logI (name @ ''.completed'') [(''symbol'', WStr unified), (''rows_written'', WInt (int n))]) (retI n))))"

definition cg_oi_columns :: "string list" where
  "cg_oi_columns = [''symbol'', ''ts'', ''open_interest'', ''source'', ''quality_flag'']"

definition cg_liq_columns :: "string list" where
  "cg_liq_columns = [''symbol'', ''ts'', ''side'', ''liquidation_usd'', ''source'', ''quality_flag'']"

definition cg_liq_conflict :: "string list" where
  "cg_liq_conflict = [''symbol'', ''ts'', ''source'', ''side'']"

definition cg_lsr_columns :: "string list" where
  "cg_lsr_columns = [''symbol'', ''ts'', ''long_short_ratio'', ''source'', ''quality_flag'']"

definition oi_fetch_and_write :: "(nat \<Rightarrow> http_reply res) \<Rightarrow> string \<Rightarrow> string \<Rightarrow> nat io" where
  "oi_fetch_and_write remote unified coin =
     series_fetch_and_write ''oi'' unified ''raw_coinglass_oi'' cg_oi_columns cg_conflict
       (cg_fetch_open_interest coin remote) (oi_records unified)"

definition liq_fetch_and_write :: "(nat \<Rightarrow> http_reply res) \<Rightarrow> string \<Rightarrow> string \<Rightarrow> nat io" where
  "liq_fetch_and_write remote unified coin =
     series_fetch_and_write ''liq'' unified ''raw_coinglass_liq'' cg_liq_columns cg_liq_conflict
       (fetch_liquidation_coin_history coin remote) (liq_records unified)"

definition lsr_fetch_and_write :: "(nat \<Rightarrow> http_reply res) \<Rightarrow> string \<Rightarrow> string \<Rightarrow> nat io" where
  "lsr_fetch_and_write remote unified coin =
     series_fetch_and_write ''lsr'' unified ''raw_coinglass_lsr'' cg_lsr_columns cg_conflict
       (fetch_long_short_account_ratio coin remote) (lsr_records unified)"

context ingest_invariant
begin

lemma keeps_http_call: "keeps I (http_call source endpoint sy warning remote)"
  unfolding http_call_def
  by (intro keeps_intros keeps_callI) (auto split: routing.split intro!: keeps_intros primitives keeps_write_to_dead_letter)

lemma keeps_validated: "keeps I (validated source endpoint sy validate payload)"
  unfolding validated_def
  by (auto split: option.split sum.split exc.split intro!: keeps_intros dead_letter_primitives)

lemma keeps_coinglass_fetch: "keeps I (coinglass_fetch endpoint sy validate remote)"
  unfolding coinglass_fetch_def coinglass_retry_def by (intro keeps_intros keeps_http_call keeps_validated)

lemma keeps_funding_agg: "keeps I (funding_agg_fetch_and_write remote mapping)"
  unfolding funding_agg_fetch_and_write_def fetch_funding_rate_list_def skip_note_def
  by (intro keeps_intros keeps_coinglass_fetch primitives)

lemma keeps_series: "keeps I fetch \<Longrightarrow> keeps I (series_fetch_and_write name unified target columns conflict fetch rec)"
  unfolding series_fetch_and_write_def by (intro keeps_intros primitives)

lemma keeps_oi_fw: "keeps I (oi_fetch_and_write remote u c)"
  and keeps_liq_fw: "keeps I (liq_fetch_and_write remote u c)"
  and keeps_lsr_fw: "keeps I (lsr_fetch_and_write remote u c)"
  unfolding oi_fetch_and_write_def liq_fetch_and_write_def lsr_fetch_and_write_def
    cg_fetch_open_interest_def fetch_liquidation_coin_history_def fetch_long_short_account_ratio_def
  by (intro keeps_series keeps_coinglass_fetch)+

lemmas keeps_coinglass = keeps_funding_agg keeps_oi_fw keeps_liq_fw keeps_lsr_fw

end

section \<open>Retries\<close>

lemma retryI_exhausts:
  assumes "\<And>v. w_pos w \<le> w_pos v \<Longrightarrow> m v = (Inl e, v\<lparr>w_pos := Suc (w_pos v)\<rparr>)" "p e"
  shows "retryI p n m w = (Inl e, w\<lparr>w_pos := w_pos w + Suc n\<rparr>)"
  using assms(1)
proof (induction n arbitrary: w)
  case 0
  then show ?case by simp
next
  case (Suc n)
  let ?w = "w\<lparr>w_pos := Suc (w_pos w)\<rparr>"
  have "retryI p n m ?w = (Inl e, ?w\<lparr>w_pos := w_pos ?w + Suc n\<rparr>)"
    using Suc.prems by (intro Suc.IH) simp
  then show ?case using Suc.prems [of w] assms(2) by simp
qed

text \<open>A Coinglass endpoint that keeps answering with a retryable status (429, 500, 502, 503, 504) is
  requested exactly five times; then the HTTP error of the last answer escapes and the
  database is untouched. Every other status of 400 and above, also 501 or 520, which the
  documentation counts among the errors that raise, is never raised but routed to the
  dead-letter writer.\<close>

theorem coinglass_retry_bound:
  assumes "\<forall>n. \<exists>r. remote n = Inr r \<and> hr_status r = status" "status \<in> {429, 500, 502, 503, 504}"
  shows "coinglass_fetch endpoint sy validate remote w =
      (Inl (HTTPStatusError status), w\<lparr>w_pos := w_pos w + 5\<rparr>) \<and>
    route_status 501 = Dead_Letter_None \<and> route_status 520 = Dead_Letter_None"
proof -
  let ?m = "bindI (http_call ''coinglass_aggregate'' endpoint sy ''coinglass._call.4xx_dead_lettered'' remote)
    (validated ''coinglass_aggregate'' endpoint sy validate)"
  have route: "route_status status = Raise_Retry"
    using assms(2) by (auto simp: route_status_def RETRY_STATUS_CODES_def)
  have "?m v = (Inl (HTTPStatusError status), v\<lparr>w_pos := Suc (w_pos v)\<rparr>)" for v
  proof -
    obtain r where "remote (w_pos v) = Inr r" "hr_status r = status" using assms(1) by blast
    then show ?thesis using route by (simp add: http_call_def callI_def bindI_def raiseI_def)
  qed
  then have "retryI is_http_error 4 ?m w = (Inl (HTTPStatusError status), w\<lparr>w_pos := w_pos w + Suc 4\<rparr>)"
    by (rule retryI_exhausts) simp
  then show ?thesis
    by (simp add: coinglass_fetch_def coinglass_retry_def route_status_def RETRY_STATUS_CODES_def
        del: retryI.simps)
qed

lemma coinglass_retry_bound_witness:
  "coinglass_fetch ''/e'' WNone FundingRateListResponse
     (\<lambda>_. Inr \<lparr>hr_status = 503, hr_text = [], hr_json = Inl JSONDecodeError\<rparr>) (calm_world 0 dead_letter_db)
   = (Inl (HTTPStatusError 503), (calm_world 0 dead_letter_db)\<lparr>w_pos := 5\<rparr>)"
  using coinglass_retry_bound [of "\<lambda>_. Inr \<lparr>hr_status = 503, hr_text = [], hr_json = Inl JSONDecodeError\<rparr>" 503
      "''/e''" WNone FundingRateListResponse "calm_world 0 dead_letter_db"] by simp

section \<open>Null values\<close>

lemma mapE_Inl_ex: "(\<exists>x\<in>set xs. \<exists>e. f x = Inl e) \<Longrightarrow> \<exists>e. mapE f xs = Inl e"
  by (elim bexE exE) (rule mapE_fails)

lemma lsr_null_fails:
  assumes "sch = tbl_raw_coinglass_lsr"
  shows "\<exists>e. stage_row x sch cg_lsr_columns
    [CText u, CTs ts, CNull, CText ''coinglass_aggregate'', CText ''ok''] = Inl e"
  by (simp add: assms stage_row_def stage_cell_def tbl_raw_coinglass_lsr_def cg_lsr_columns_def col_def required_def)

text \<open>A null in one data point of the long/short ratio series loses the whole series: the null is passed
  on to a column that is NOT NULL, the write raises and stores nothing, although the same null
  in the open interest and liquidation series is replaced by zero.\<close>

theorem lsr_null_rejects_batch:
  assumes "w_db w ''raw_coinglass_lsr'' = Some ts" "t_schema ts = tbl_raw_coinglass_lsr"
    and "\<exists>r\<in>set rows. pr_value r = None" "lsr_records unified rows = Inr records"
  shows "(\<exists>e. fst (copyI ''raw_coinglass_lsr'' records cg_lsr_columns cg_conflict w) = Inl (DbError e)) \<and>
    w_db (snd (copyI ''raw_coinglass_lsr'' records cg_lsr_columns cg_conflict w)) = w_db w \<and>
    (\<forall>rs. oi_records unified rows = Inr rs \<longrightarrow> (\<forall>rec\<in>set rs. CNull \<notin> set rec))"
proof -
  let ?x = "rd_tx (e_read (w_env w) (w_pos w))"
  obtain r where r: "r \<in> set rows" "pr_value r = None" using assms(3) by blast
  let ?row = "\<lambda>t. [CText unified, CTs t, CNull, CText ''coinglass_aggregate'', CText ''ok'']"
  obtain t where "?row t \<in> set records"
  proof -
    obtain i where i: "i < length rows" "rows ! i = r" using r(1) unfolding in_set_conv_nth by blast
    have "length records = length rows"
      using assms(4) unfolding lsr_records_def by (rule mapE_Inr_length)
    moreover have "\<exists>t. records ! i = ?row t"
    proof -
      have "bindE (ts_from_ms (pr_time (rows ! i))) (\<lambda>ts. Inr [CText unified, CTs ts,
          (case pr_value (rows ! i) of None \<Rightarrow> CNull | Some d \<Rightarrow> CNum d),
          CText ''coinglass_aggregate'', CText ''ok'']) = Inr (records ! i)"
        using assms(4) i(1) unfolding lsr_records_def mapE_eq_Inr_iff list_all2_conv_all_nth by blast
      then obtain t where "?row t = records ! i" using i(2) r(2) by (auto simp: res_simps)
      then show ?thesis by metis
    qed
    ultimately show ?thesis using i(1) that by (metis nth_mem)
  qed
  moreover have "\<exists>e. stage_row ?x tbl_raw_coinglass_lsr cg_lsr_columns (?row t) = Inl e"
    by (rule lsr_null_fails) simp
  ultimately have "\<exists>e. mapE (stage_row ?x tbl_raw_coinglass_lsr cg_lsr_columns) records = Inl e" "records \<noteq> []"
    by (auto intro: mapE_Inl_ex)
  then obtain e where "copy_into_hypertable ?x (w_db w) ''raw_coinglass_lsr'' records cg_lsr_columns cg_conflict
      = Inl (DbError e)"
    using copy_stage_fails [where d = "w_db w" and target = "''raw_coinglass_lsr''", OF _ assms(1)] assms(2) by metis
  moreover have "\<forall>rs. oi_records unified rows = Inr rs \<longrightarrow> (\<forall>rec\<in>set rs. CNull \<notin> set rec)"
    by (auto simp: oi_records_def res_simps dest!: mapE_Inr_set)
  ultimately show ?thesis by (simp add: copyI_def readI_def bindI_def)
qed

definition lsr_db :: db where
  "lsr_db = [''raw_coinglass_lsr'' \<mapsto> \<lparr>t_schema = tbl_raw_coinglass_lsr, t_rows = []\<rparr>]"

lemma lsr_null_rejects_batch_witness:
  "\<exists>e. fst (copyI ''raw_coinglass_lsr''
     [[CText ''BTC'', CTs 0, CNull, CText ''coinglass_aggregate'', CText ''ok'']]
     cg_lsr_columns cg_conflict (calm_world 0 lsr_db)) = Inl (DbError e)"
  using lsr_null_rejects_batch [of "calm_world 0 lsr_db" "\<lparr>t_schema = tbl_raw_coinglass_lsr, t_rows = []\<rparr>"
      "[\<lparr>pr_time = 0, pr_value = None\<rparr>]" "''BTC''"]
  by (simp add: lsr_db_def lsr_records_def ts_from_ms_exact)

text \<open>The funding writer attributes every row correctly: each record comes from a row of the answer whose
  coin the mapping knows and whose rate is present, carries the mapped symbol, that rate and the
  source coinglass_aggregate, and every such row yields a record.\<close>

theorem funding_agg_attribution:
  "rec \<in> set (funding_agg_records mapping ts_now rows) \<longleftrightarrow>
   (\<exists>r\<in>set rows. \<exists>unified rate. mapping (fr_symbol r) = Some unified \<and> fr_rate r = Some rate \<and>
      rec = [CText unified, CTs ts_now, CNum rate, CText ''coinglass_aggregate'', CText ''ok''])"
  by (force simp: funding_agg_records_def List.map_filter_def split: option.splits)

end
