(* ===== verification/Coingecko.thy ===== *)
theory Coingecko
  imports Coinglass
begin

text \<open>
  src/shortfire/ingest/coingecko: the strict row models fed by \<open>from_raw\<close>, the client and the
  daily write. Pydantic's parser for ISO datetimes and dates and orjson's rendering are
  third-party: \<open>parse_dt\<close>, \<open>parse_date\<close> and \<open>dumps\<close> are arguments.
\<close>

section \<open>schemas.py\<close>

record market_row =
  cm_id :: string
  cm_symbol :: string
  cm_name :: string
  cm_price :: "decimal option"
  cm_market_cap :: "decimal option"
  cm_volume :: "decimal option"
  cm_raw :: wdict

text \<open>A known field that is present: numbers through \<open>Decimal(str(v))\<close>, a ValueError when that fails.\<close>

definition raw_decimal :: "wdict \<Rightarrow> string \<Rightarrow> decimal option res" where
  "raw_decimal raw k =
     (case map_of raw k of
        None \<Rightarrow> Inr None
      | Some v \<Rightarrow>
          if v = WNone then Inr None
          else (case dec_of_wire v of Inl _ \<Rightarrow> Inl ValueError | Inr d \<Rightarrow> Inr (Some d)))"

fun finite_opt :: "decimal option \<Rightarrow> unit res" where
  "finite_opt None = Inr ()"
| "finite_opt (Some d) = fin_field d"

text \<open>last_updated: a text goes to the lenient parser, anything else must be None already.\<close>

definition raw_last_updated :: "(string \<Rightarrow> unit res) \<Rightarrow> wdict \<Rightarrow> unit res" where
  "raw_last_updated parse_dt raw =
     (case map_of raw ''last_updated'' of
        None \<Rightarrow> Inr ()
      | Some WNone \<Rightarrow> Inr ()
      | Some (WStr s) \<Rightarrow> parse_dt s
      | Some _ \<Rightarrow> Inl ValidationError)"

definition CoinsMarketsRow :: "(string \<Rightarrow> unit res) \<Rightarrow> wdict \<Rightarrow> market_row res" where
  "CoinsMarketsRow parse_dt raw =
     bindE (raw_decimal raw ''current_price'') (\<lambda>price.
     bindE (raw_decimal raw ''market_cap'') (\<lambda>cap.
     bindE (raw_decimal raw ''total_volume'') (\<lambda>vol.
     bindE (raw_last_updated parse_dt raw) (\<lambda>_.
     bindE (field raw ''id'') (\<lambda>i0. bindE (lax_str i0) (\<lambda>i.
     bindE (field raw ''symbol'') (\<lambda>s0. bindE (lax_str s0) (\<lambda>s.
     bindE (field raw ''name'') (\<lambda>n0. bindE (lax_str n0) (\<lambda>n.
     bindE (finite_opt price) (\<lambda>_. bindE (finite_opt cap) (\<lambda>_. bindE (finite_opt vol) (\<lambda>_.
     Inr \<lparr>cm_id = i, cm_symbol = s, cm_name = n, cm_price = price, cm_market_cap = cap,
          cm_volume = vol, cm_raw = raw\<rparr>)))))))))))))"

definition upper :: "string \<Rightarrow> string" where
  "upper = map to_upper_char"

definition num_or_null :: "decimal option \<Rightarrow> cell" where
  "num_or_null d = (case d of None \<Rightarrow> CNull | Some v \<Rightarrow> CNum v)"

text \<open>\<open>to_record(ts)\<close>, with no override of the symbol.\<close>

definition market_record :: "(wire \<Rightarrow> string res) \<Rightarrow> int \<Rightarrow> market_row \<Rightarrow> cell list res" where
  "market_record dumps ts r =
     bindE (dumps (WDict (cm_raw r))) (\<lambda>payload.
       Inr [CText (upper (cm_symbol r)), CTs ts, num_or_null (cm_price r), num_or_null (cm_volume r),
            num_or_null (cm_market_cap r), CNull, CNull, CJson payload, CText ''coingecko'', CText ''ok''])"

record coin_detail =
  cd_id :: string
  cd_symbol :: string
  cd_name :: string
  cd_categories :: "string list"
  cd_genesis :: "int option"

text \<open>A list loses its None items; anything else must be absent, as a strict tuple field.\<close>

definition raw_categories :: "wdict \<Rightarrow> string list res" where
  "raw_categories raw =
     (case map_of raw ''categories'' of
        None \<Rightarrow> Inr []
      | Some (WList xs) \<Rightarrow> mapE lax_str (filter (\<lambda>x. x \<noteq> WNone) xs)
      | Some _ \<Rightarrow> Inl ValidationError)"

definition raw_genesis :: "(string \<Rightarrow> int res) \<Rightarrow> wdict \<Rightarrow> int option res" where
  "raw_genesis parse_date raw =
     (case map_of raw ''genesis_date'' of
        None \<Rightarrow> Inr None
      | Some WNone \<Rightarrow> Inr None
      | Some (WStr s) \<Rightarrow> bindE (parse_date s) (\<lambda>d. Inr (Some d))
      | Some _ \<Rightarrow> Inl ValidationError)"

definition CoinDetailResponse :: "(string \<Rightarrow> int res) \<Rightarrow> wdict \<Rightarrow> coin_detail res" where
  "CoinDetailResponse parse_date raw =
     bindE (raw_genesis parse_date raw) (\<lambda>g.
     bindE (raw_categories raw) (\<lambda>cs.
     bindE (field raw ''id'') (\<lambda>i0. bindE (lax_str i0) (\<lambda>i.
     bindE (field raw ''symbol'') (\<lambda>s0. bindE (lax_str s0) (\<lambda>s.
     bindE (field raw ''name'') (\<lambda>n0. bindE (lax_str n0) (\<lambda>n.
     bindE (info_field (dget_or raw ''market_data'' WNone)) (\<lambda>_.
     Inr \<lparr>cd_id = i, cd_symbol = s, cd_name = n, cd_categories = cs, cd_genesis = g\<rparr>)))))))))"

section \<open>client.py\<close>

definition gecko_call :: "string \<Rightarrow> wire \<Rightarrow> (nat \<Rightarrow> http_reply res) \<Rightarrow> wire option io" where
  "gecko_call endpoint coin remote =
     bindI (callI remote) (\<lambda>r.
       case route_status (hr_status r) of
         Raise_Retry \<Rightarrow> raiseI (HTTPStatusError (hr_status r))
       | Dead_Letter_None \<Rightarrow>
           thenI (write_to_dead_letter ''coingecko'' endpoint coin (take 8000 (hr_text r)) ''HTTPStatusError''
                    (''HTTP '' @ show_int (hr_status r)))
             (retI None)
       | Decode \<Rightarrow> bindI (liftI (hr_json r)) (\<lambda>v. retI (if v = WNone then None else Some v)))"

text \<open>\<open>except (ValidationError, ValueError, TypeError)\<close>: the recorded type is always ValidationError.\<close>

definition gecko_validated ::
  "string \<Rightarrow> wire \<Rightarrow> (wire \<Rightarrow> 'a res) \<Rightarrow> wire option \<Rightarrow> 'a option io" where
  "gecko_validated endpoint coin validate payload =
     (case payload of
        None \<Rightarrow> retI None
      | Some v \<Rightarrow>
          (case validate v of
             Inr x \<Rightarrow> retI (Some x)
           | Inl e \<Rightarrow>
               if e \<in> {ValidationError, ValueError, TypeError}
               then
                 bindI (rendered v) (\<lambda>p.
                 bindI (getI (\<lambda>w. take 2000 (e_msg (w_env w) e))) (\<lambda>msg.
                 thenI (write_to_dead_letter ''coingecko'' endpoint coin (take 8000 p) ''ValidationError'' msg)
                   (retI None)))
               else raiseI e))"

fun market_rows :: "(string \<Rightarrow> unit res) \<Rightarrow> wire \<Rightarrow> market_row list res" where
  "market_rows parse_dt (WList xs) =
     mapE (\<lambda>x. case x of WDict d \<Rightarrow> CoinsMarketsRow parse_dt d | _ \<Rightarrow> Inl TypeError) xs"
| "market_rows parse_dt _ = Inl ValueError"

definition fetch_coins_markets ::
  "(string \<Rightarrow> unit res) \<Rightarrow> (nat \<Rightarrow> http_reply res) \<Rightarrow> market_row list option io" where
  "fetch_coins_markets parse_dt remote =
     coingecko_retry
       (bindI (gecko_call ''/coins/markets'' WNone remote)
          (gecko_validated ''/coins/markets'' WNone (market_rows parse_dt)))"

definition fetch_coin_detail ::
  "(string \<Rightarrow> int res) \<Rightarrow> string \<Rightarrow> (nat \<Rightarrow> http_reply res) \<Rightarrow> coin_detail option io" where
  "fetch_coin_detail parse_date coin_id remote =
     coingecko_retry
       (bindI (gecko_call (''/coins/'' @ coin_id) (WStr coin_id) remote)
          (gecko_validated (''/coins/'' @ coin_id) (WStr coin_id)
             (\<lambda>v. case v of WDict d \<Rightarrow> CoinDetailResponse parse_date d | _ \<Rightarrow> Inl TypeError)))"

section \<open>universe.py\<close>

definition market_columns :: "string list" where
  "market_columns =
     [''symbol'', ''ts'', ''price_usd'', ''volume_24h_usd'', ''market_cap_usd'', ''category'',
      ''listing_date'', ''raw_payload'', ''source'', ''quality_flag'']"

definition market_conflict :: "string list" where
  "market_conflict = [''symbol'', ''ts'', ''source'']"

definition fetch_and_write_daily ::
  "(string \<Rightarrow> unit res) \<Rightarrow> (wire \<Rightarrow> string res) \<Rightarrow> (nat \<Rightarrow> http_reply res) \<Rightarrow> int option \<Rightarrow> nat io" where
  "fetch_and_write_daily parse_dt dumps remote ts0 =
     bindI readI (\<lambda>r.
     let ts = (case ts0 of None \<Rightarrow> rd_now r | Some t \<Rightarrow> t) in
     thenI (logI ''coingecko.universe.fetch_start'' [(''ts'', WInt ts)])
     (bindI (fetch_coins_markets parse_dt remote) (\<lambda>rows.
      if rows = None \<or> rows = Some []
      then thenI (logI ''coingecko.universe.fetch_empty_or_failed'' [(''ts'', WInt ts)]) (retI 0)
      else
        bindI (liftI (mapE (market_record dumps ts) (case rows of None \<Rightarrow> [] | Some rs \<Rightarrow> rs))) (\<lambda>records.
        bindI (copyI ''raw_coingecko_market'' records market_columns market_conflict) (\<lambda>count.
        thenI (logI ''coingecko.universe.wrote'' [(''count'', WInt (int count)), (''ts'', WInt ts)])
          (retI count))))))"

section \<open>One row per ticker\<close>

lemma fold_insert_length:
  "length (fold (insert_do_nothing sch) rs rows) \<le> length rows + card (row_key sch ` set rs - row_keys sch rows)"
proof (induction rs arbitrary: rows)
  case Nil
  then show ?case by simp
next
  case (Cons r rs)
  let ?K = "row_key sch ` set rs" and ?R = "row_keys sch rows"
  show ?case
  proof (cases "row_key sch r \<in> ?R")
    case True
    then have "row_key sch ` set (r # rs) - ?R = ?K - ?R" by auto
    then show ?thesis using Cons.IH [of rows] True by (simp add: insert_do_nothing_def)
  next
    case False
    have R': "row_keys sch (rows @ [r]) = insert (row_key sch r) ?R" by (auto simp: row_keys_def)
    have "row_key sch ` set (r # rs) - ?R = insert (row_key sch r) (?K - insert (row_key sch r) ?R)"
      using False by auto
    then have "card (row_key sch ` set (r # rs) - ?R) = Suc (card (?K - insert (row_key sch r) ?R))"
      by simp
    then show ?thesis using Cons.IH [of "rows @ [r]"] False R' by (simp add: insert_do_nothing_def)
  qed
qed

lemma market_staged_key:
  assumes "market_record dumps ts r = Inr rec" "stage_row x tbl_raw_coingecko_market market_columns rec = Inr row"
  shows "row_key tbl_raw_coingecko_market row = [CText (upper (cm_symbol r)), CTs ts, CText ''coingecko'']"
proof -
  obtain payload where rec: "rec = [CText (upper (cm_symbol r)), CTs ts, num_or_null (cm_price r),
      num_or_null (cm_volume r), num_or_null (cm_market_cap r), CNull, CNull, CJson payload,
      CText ''coingecko'', CText ''ok'']"
    using assms(1) by (auto simp: market_record_def res_simps)
  let ?T = tbl_raw_coingecko_market
  have pos: "col_pos (tb_columns ?T) ''symbol'' = Some 0" "col_type (tb_columns ?T ! 0) = TText"
    "col_pos (tb_columns ?T) ''ts'' = Some 1" "col_type (tb_columns ?T ! 1) = TTimestamptz"
    "col_pos (tb_columns ?T) ''source'' = Some 8" "col_type (tb_columns ?T ! 8) = TText"
    by (simp_all add: tbl_raw_coingecko_market_def col_def)
  have val: "map_of (zip market_columns rec) ''symbol'' = Some (CText (upper (cm_symbol r)))"
    "map_of (zip market_columns rec) ''ts'' = Some (CTs ts)"
    "map_of (zip market_columns rec) ''source'' = Some (CText ''coingecko'')"
    by (simp_all add: rec market_columns_def)
  note cell = staged_cell [OF assms(2)]
  have pk: "tb_pk ?T = [''symbol'', ''ts'', ''source'']" by (simp add: tbl_raw_coingecko_market_def)
  show ?thesis
    using cell [OF pos(1) val(1)] cell [OF pos(3) val(2)] cell [OF pos(5) val(3)]
    by (simp add: row_key_def pos pos(4) [simplified] pk)
qed

text \<open>A daily CoinGecko batch stores at most one row per ticker: coins that share a ticker (upper-cased
  symbol) collide on the key, the first of the batch wins, and the batch reports more rows than
  it stored.\<close>

theorem coingecko_one_row_per_ticker:
  assumes "schema_of (w_db w) ''raw_coingecko_market'' = Some tbl_raw_coingecko_market"
    and "mapE (market_record dumps ts) rs = Inr records"
    and "copyI ''raw_coingecko_market'' records market_columns market_conflict w = (Inr n, w')"
  shows "n = length rs \<and>
    length (rows_of (w_db w') ''raw_coingecko_market'') \<le>
      length (rows_of (w_db w) ''raw_coingecko_market'') + card ((\<lambda>r. upper (cm_symbol r)) ` set rs)"
proof -
  let ?x = "rd_tx (e_read (w_env w) (w_pos w))"
  obtain d' where c: "copy_into_hypertable ?x (w_db w) ''raw_coingecko_market'' records market_columns market_conflict
      = Inr (d', n)" and w': "w_db w' = d'"
    using assms(3) by (auto simp: copyI_def readI_def bindI_def split: sum.splits prod.splits)
  have len: "length records = length rs" using mapE_Inr_length [OF assms(2)] .
  from c show ?thesis
  proof (cases rule: copy_cases)
    case empty
    then show ?thesis using w' len by simp
  next
    case (merged t staged)
    have sch: "t_schema t = tbl_raw_coingecko_market" using assms(1) merged(2) by (simp add: schema_of_def)
    have key: "row_key (t_schema t) s \<in> (\<lambda>r. [CText (upper (cm_symbol r)), CTs ts, CText ''coingecko'']) ` set rs"
      if s: "s \<in> set staged" for s
    proof -
      obtain rec where rec: "rec \<in> set records" "stage_row ?x (t_schema t) market_columns rec = Inr s"
        using mapE_Inr_set [OF merged(5) s] by blast
      obtain r where "r \<in> set rs" "market_record dumps ts r = Inr rec"
        using mapE_Inr_set [OF assms(2) rec(1)] by blast
      then show ?thesis using market_staged_key rec(2) sch by fastforce
    qed
    let ?F = "\<lambda>sy. [CText sy, CTs ts, CText ''coingecko'']"
    have sub: "row_key (t_schema t) ` set staged \<subseteq> ?F ` ((\<lambda>r. upper (cm_symbol r)) ` set rs)"
      using key by (auto simp: image_image)
    have "card (row_key (t_schema t) ` set staged - row_keys (t_schema t) (t_rows t)) \<le>
        card (?F ` ((\<lambda>r. upper (cm_symbol r)) ` set rs))"
      by (rule card_mono) (use sub in auto)
    also have "\<dots> \<le> card ((\<lambda>r. upper (cm_symbol r)) ` set rs)" by (rule card_image_le) simp
    finally have "length (fold (insert_do_nothing (t_schema t)) staged (t_rows t)) \<le>
        length (t_rows t) + card ((\<lambda>r. upper (cm_symbol r)) ` set rs)"
      using fold_insert_length [of "t_schema t" staged "t_rows t"] by linarith
    then show ?thesis using merged(2,3,8) w' len by (simp add: rows_of_def)
  qed
qed

definition gecko_db :: db where
  "gecko_db = [''raw_coingecko_market'' \<mapsto> \<lparr>t_schema = tbl_raw_coingecko_market, t_rows = []\<rparr>]"

definition gecko_row :: "string \<Rightarrow> market_row" where
  "gecko_row i = \<lparr>cm_id = i, cm_symbol = ''pepe'', cm_name = i, cm_price = None, cm_market_cap = None,
     cm_volume = None, cm_raw = []\<rparr>"

definition gecko_records :: "cell list list" where
  "gecko_records = replicate 2
     [CText ''PEPE'', CTs 0, CNull, CNull, CNull, CNull, CNull, CJson ''{}'', CText ''coingecko'', CText ''ok'']"

lemma gecko_copy:
  "fst (copyI ''raw_coingecko_market'' gecko_records market_columns market_conflict (calm_world 0 gecko_db)) = Inr 2"
  by code_simp

lemma gecko_upper: "upper ''pepe'' = ''PEPE''"
  by code_simp

lemma coingecko_one_row_per_ticker_witness:
  "let (r, w') = copyI ''raw_coingecko_market'' gecko_records market_columns market_conflict (calm_world 0 gecko_db)
   in r = Inr 2 \<and> length (rows_of (w_db w') ''raw_coingecko_market'') \<le> 1"
proof -
  have m: "mapE (market_record (\<lambda>_. Inr ''{}'') 0) [gecko_row ''pepe'', gecko_row ''based-pepe''] = Inr gecko_records"
    by (simp add: market_record_def gecko_row_def gecko_upper num_or_null_def numeral_2_eq_2 gecko_records_def)
  have s: "schema_of (w_db (calm_world 0 gecko_db)) ''raw_coingecko_market'' = Some tbl_raw_coingecko_market"
    by (simp add: gecko_db_def schema_of_def)
  obtain w' where w': "copyI ''raw_coingecko_market'' gecko_records market_columns market_conflict
      (calm_world 0 gecko_db) = (Inr 2, w')"
    using gecko_copy by (metis prod.collapse)
  from coingecko_one_row_per_ticker [OF s m this] w'
  show ?thesis by (simp add: gecko_row_def gecko_db_def rows_of_def)
qed

end
