(* ===== verification/Universe.thy ===== *)
theory Universe
  imports Symbols Dead_Letter "HOL-Library.Product_Lexorder"
begin

text \<open>
  src/shortfire/ingest/universe: the daily snapshot of every USDT perpetual, the diff that
  maintains the symbols table, the point-in-time query and the tier-1 ranking. A ticker reply
  is the dictionary of ccxt in its order. The order in which Python iterates a set is an
  argument \<open>enum\<close>, any enumeration of the elements. ORDER BY keeps ties in row order.
\<close>

section \<open>Filter\<close>

definition QUALIFYING_VOLUME_USD :: decimal where
  "QUALIFYING_VOLUME_USD = Fin 500000 0"

record ticker_info =
  ti_volume :: decimal
  ti_price :: "decimal option"
  ti_qualifying :: bool

definition raw_volume :: "wdict \<Rightarrow> wire" where
  "raw_volume ticker =
     (let v = dget_or ticker ''quoteVolume'' (WInt 0) in if v = WNone then WInt 0 else v)"

definition ticker_info_of :: "wdict \<Rightarrow> ticker_info res" where
  "ticker_info_of ticker =
     (let vol_usd = (case dec_of_wire (raw_volume ticker) of Inl _ \<Rightarrow> dec_zero | Inr d \<Rightarrow> d);
          raw_price = dget_or ticker ''last'' WNone;
          price_usd = (if raw_price = WNone then None
                       else case dec_of_wire raw_price of Inl _ \<Rightarrow> None | Inr d \<Rightarrow> Some d)
      in bindE (dec_gt vol_usd QUALIFYING_VOLUME_USD) (\<lambda>q.
         Inr \<lparr>ti_volume = vol_usd, ti_price = price_usd, ti_qualifying = q\<rparr>))"

definition filter_qualifying_tickers :: "(string \<times> wdict) list \<Rightarrow> (string \<times> ticker_info) list res" where
  "filter_qualifying_tickers tickers =
     mapE (\<lambda>(sy, t). bindE (ticker_info_of t) (\<lambda>i. Inr (sy, i)))
       (filter (\<lambda>(sy, _). suffix '':USDT'' sy) tickers)"

section \<open>Snapshot rows\<close>

text \<open>
  \<open>float(d)\<close> and what asyncpg makes of the float in a NUMERIC column: the exact decimal
  of the nearest double.
\<close>

definition exact_dec :: "rat \<Rightarrow> decimal" where
  "exact_dec x =
     (case quotient_of x of (p, q) \<Rightarrow>
        let k = floorlog 2 (nat q) - 1 in Fin (p * 5 ^ k) (- int k))"

fun py_float :: "decimal \<Rightarrow> decimal" where
  "py_float (Fin c e) =
     (let x = fl (dval (Fin c e))
      in if 2 ^ 1024 \<le> \<bar>x\<bar> then Infinity (x < 0) else exact_dec x)"
| "py_float d = d"

definition snapshot_columns :: "string list" where
  "snapshot_columns =
     [''snapshot_date'', ''symbol'', ''volume_24h_usd'', ''price_usd'', ''is_qualifying'', ''source'',
      ''quality_flag'']"

definition snapshot_conflict :: "string list" where
  "snapshot_conflict = [''snapshot_date'', ''symbol'']"

definition snapshot_record :: "int \<Rightarrow> string \<times> ticker_info \<Rightarrow> cell list" where
  "snapshot_record day si =
     [CDate day, CText (fst si), CNum (py_float (ti_volume (snd si))),
      (case ti_price (snd si) of None \<Rightarrow> CNull | Some p \<Rightarrow> CNum (py_float p)),
      CBool (ti_qualifying (snd si)), CText ''mexc_native'', CText ''ok'']"

text \<open>The UTC date of an instant, as a number of days since the epoch.\<close>

definition utc_date :: "int \<Rightarrow> int" where
  "utc_date us = us div 86400000000"

definition snap_cell :: "cell list \<Rightarrow> string \<Rightarrow> cell" where
  "snap_cell row c = cell_of tbl_universe_snapshots row c"

definition snapshot_symbols :: "db \<Rightarrow> int \<Rightarrow> string list" where
  "snapshot_symbols d day =
     List.map_filter (\<lambda>r. if snap_cell r ''snapshot_date'' = CDate day
                          then cell_text (snap_cell r ''symbol'') else None)
       (rows_of d ''universe_snapshots'')"

definition universe_at :: "db \<Rightarrow> int \<Rightarrow> string set" where
  "universe_at d day =
     set (List.map_filter (\<lambda>r. if snap_cell r ''snapshot_date'' = CDate day \<and>
                                 snap_cell r ''is_qualifying'' = CBool True
                              then cell_text (snap_cell r ''symbol'') else None)
            (rows_of d ''universe_snapshots''))"

section \<open>The job\<close>

text \<open>One session: its statements work on the database and are committed at the end.\<close>

definition note_symbol :: "string \<Rightarrow> int \<Rightarrow> string \<Rightarrow> unit io" where
  "note_symbol event day sy = eventI event [(''symbol'', WStr sy), (''snapshot_date'', WInt day)]"

definition add_symbol :: "tx \<Rightarrow> int \<Rightarrow> db \<Rightarrow> string \<Rightarrow> db io" where
  "add_symbol x day d sy =
     thenI (note_symbol ''universe.symbol.new'' day sy)
       (liftI (upsert_symbol x sy (str_replace ''/USDT:USDT'' ''_USDT'' sy) d))"

definition drop_symbol :: "tx \<Rightarrow> int \<Rightarrow> db \<Rightarrow> string \<Rightarrow> db io" where
  "drop_symbol x day d sy =
     thenI (note_symbol ''universe.symbol.delisted'' day sy) (liftI (delist_symbol x sy d))"

definition update_symbols :: "int \<Rightarrow> string list \<Rightarrow> string list \<Rightarrow> unit io" where
  "update_symbols day new_symbols delisted_symbols =
     bindI readI (\<lambda>r.
     bindI (getI w_db) (\<lambda>d.
     bindI (foldI (add_symbol (rd_tx r) day) d new_symbols) (\<lambda>d'.
     bindI (foldI (drop_symbol (rd_tx r) day) d' delisted_symbols) (\<lambda>d''.
     updI (\<lambda>w. w\<lparr>w_db := d''\<rparr>)))))"

definition write_snapshot ::
  "(string list \<Rightarrow> string list) \<Rightarrow> int \<Rightarrow> (string \<times> ticker_info) list \<Rightarrow> nat io" where
  "write_snapshot enum day qualifying =
     bindI (copyI ''universe_snapshots'' (map (snapshot_record day) qualifying) snapshot_columns
              snapshot_conflict) (\<lambda>n.
     bindI (getI (\<lambda>w. snapshot_symbols (w_db w) (day - 1))) (\<lambda>yesterday.
     let today = map fst qualifying;
         new_symbols = enum (filter (\<lambda>sy. sy \<notin> set yesterday) today);
         delisted_symbols = enum (filter (\<lambda>sy. sy \<notin> set today) yesterday);
         n_qualifying = length (filter (\<lambda>si. ti_qualifying (snd si)) qualifying) in
     thenI (update_symbols day new_symbols delisted_symbols)
     (thenI (setI ''universe_symbols_count'' [''qualifying''] (of_nat n_qualifying))
     (thenI (setI ''universe_symbols_count'' [''non_qualifying''] (of_nat (length qualifying - n_qualifying)))
     (thenI (eventI ''universe.snapshot.created''
               [(''snapshot_date'', WInt day), (''n_qualifying'', WInt (int n_qualifying)),
                (''n_new'', WInt (int (length new_symbols))),
                (''n_delisted'', WInt (int (length delisted_symbols)))])
        (retI n))))))"

text \<open>The job after its clock reading.\<close>

definition snapshot_on :: "(string list \<Rightarrow> string list) \<Rightarrow> (string \<times> wdict) list res \<Rightarrow> int \<Rightarrow> nat io" where
  "snapshot_on enum tickers day =
       bindI
         (catchI (bindI (liftI tickers) (\<lambda>ts. retI (Some ts)))
            (\<lambda>e. thenI (catchI (route_to_dead_letter ''mexc_native'' ''fetch_tickers'' WNone '''' e)
                          (\<lambda>_. retI ()))
                 (thenI (logI ''universe.snapshot.fetch_tickers_failed'' []) (retI None))))
         (\<lambda>fetched.
            case fetched of
              None \<Rightarrow> retI 0
            | Some ts \<Rightarrow>
                bindI (liftI (filter_qualifying_tickers ts)) (\<lambda>qualifying.
                if qualifying = []
                then thenI (logI ''universe.snapshot.empty'' [(''snapshot_date'', WInt day)]) (retI 0)
                else write_snapshot enum day qualifying))"

definition universe_snapshot_job ::
  "(string list \<Rightarrow> string list) \<Rightarrow> (string \<times> wdict) list res \<Rightarrow> nat io" where
  "universe_snapshot_job enum tickers =
     bindI readI (\<lambda>r. snapshot_on enum tickers (utc_date (rd_now r)))"

section \<open>Tier 1\<close>

text \<open>SUM(volume) per symbol over the last seven days; a NaN makes a sum NaN, which sorts as greatest.\<close>

definition d1_cell :: "cell list \<Rightarrow> string \<Rightarrow> cell" where
  "d1_cell row c = cell_of tbl_raw_mexc_candles_1d row c"

definition recent_1d :: "int \<Rightarrow> cell list list \<Rightarrow> cell list list" where
  "recent_1d now rows =
     filter (\<lambda>r. case d1_cell r ''ts'' of CTs t \<Rightarrow> now - 7 * 86400000000 \<le> t | _ \<Rightarrow> False) rows"

definition tier_volume :: "cell list list \<Rightarrow> string \<Rightarrow> rat option" where
  "tier_volume rows sy =
     (let vs = map (\<lambda>r. d1_cell r ''volume'') (filter (\<lambda>r. d1_cell r ''symbol'' = CText sy) rows)
      in if CNum NaN \<in> set vs then None
         else Some (sum_list (map (\<lambda>v. case v of CNum d \<Rightarrow> dval d | _ \<Rightarrow> 0) vs)))"

definition rank_key :: "rat option \<Rightarrow> nat \<times> rat" where
  "rank_key v = (case v of None \<Rightarrow> (0, 0) | Some x \<Rightarrow> (1, - x))"

definition top_symbols :: "int \<Rightarrow> nat \<Rightarrow> cell list list \<Rightarrow> string list" where
  "top_symbols now n rows =
     (let recent = recent_1d now rows;
          syms = remdups (List.map_filter (\<lambda>r. cell_text (d1_cell r ''symbol'')) recent)
      in take n (sort_key (\<lambda>s. rank_key (tier_volume recent s)) syms))"

definition recompute_tier1 :: "nat \<Rightarrow> unit io" where
  "recompute_tier1 top_n =
     bindI readI (\<lambda>r.
     bindI (getI (\<lambda>w. top_symbols (tx_now (rd_tx r)) top_n (rows_of (w_db w) ''raw_mexc_candles_1d''))) (\<lambda>top.
       if top = []
       then logI ''universe.tier1.recomputed''
              [(''n_tier1'', WInt 0), (''reason'', WStr ''no 1d candle data available'')]
       else
         bindI (getI w_db) (\<lambda>d.
         bindI (liftI (bindE (set_tier (\<lambda>s. s \<in> set top) 1 d) (set_tier (\<lambda>s. s \<notin> set top) 2))) (\<lambda>d'.
         thenI (updI (\<lambda>w. w\<lparr>w_db := d'\<rparr>))
           (logI ''universe.tier1.recomputed'' [(''n_tier1'', WInt (int (length top)))])))))"

section \<open>The symbols table after the diff\<close>

lemma note_symbol_ok:
  "event \<in> set EVENTS \<Longrightarrow> note_symbol event day sy w =
     (Inr (), w\<lparr>w_log := w_log w @ [(event, [(''symbol'', WStr sy), (''snapshot_date'', WInt day)])]\<rparr>)"
  by (simp add: note_symbol_def eventI_def io_defs logI_def)

lemma universe_events: "''universe.symbol.new'' \<in> set EVENTS" "''universe.symbol.delisted'' \<in> set EVENTS"
  "''universe.snapshot.created'' \<in> set EVENTS"
  by (simp_all add: EVENTS_def)

lemma add_symbols:
  assumes "symbols_ok d"
  shows "\<exists>d' l. foldI (add_symbol x day) d ss w = (Inr d', w\<lparr>w_log := l\<rparr>) \<and> symbols_ok d' \<and>
    active_set d' = active_set d \<union> set ss \<and> (\<forall>t. t \<noteq> ''symbols'' \<longrightarrow> d' t = d t) \<and>
    (no_coinglass d \<longrightarrow> no_coinglass d')"
  using assms
proof (induction ss arbitrary: d w)
  case Nil
  then show ?case by (auto simp: retI_def intro: exI [of _ "w_log w"])
next
  case (Cons s ss)
  let ?native = "str_replace ''/USDT:USDT'' ''_USDT'' s"
  obtain d1 where d1: "upsert_symbol x s ?native d = Inr d1" "symbols_ok d1"
    "active_set d1 = insert s (active_set d)" "\<forall>t. t \<noteq> ''symbols'' \<longrightarrow> d1 t = d t"
    using upsert_symbol_ok [OF Cons.prems] by blast
  have c: "no_coinglass d \<longrightarrow> no_coinglass d1" using upsert_no_coinglass [OF Cons.prems _ d1(1)] by blast
  let ?w = "w\<lparr>w_log := w_log w @ [(''universe.symbol.new'', [(''symbol'', WStr s), (''snapshot_date'', WInt day)])]\<rparr>"
  have step: "add_symbol x day d s w = (Inr d1, ?w)"
    using d1(1) by (simp add: add_symbol_def thenI_def bindI_def liftI_def note_symbol_ok universe_events)
  obtain d' l where "foldI (add_symbol x day) d1 ss ?w = (Inr d', ?w\<lparr>w_log := l\<rparr>)" "symbols_ok d'"
    "active_set d' = active_set d1 \<union> set ss" "\<forall>t. t \<noteq> ''symbols'' \<longrightarrow> d' t = d1 t"
    "no_coinglass d1 \<longrightarrow> no_coinglass d'"
    using Cons.IH [OF d1(2), of ?w] by blast
  then show ?case using step d1(3,4) c by (intro exI [of _ d'] exI [of _ l]) (auto simp: bindI_def)
qed

lemma drop_symbols:
  assumes "symbols_ok d"
  shows "\<exists>d' l. foldI (drop_symbol x day) d ss w = (Inr d', w\<lparr>w_log := l\<rparr>) \<and> symbols_ok d' \<and>
    active_set d' = active_set d - set ss \<and> (\<forall>t. t \<noteq> ''symbols'' \<longrightarrow> d' t = d t) \<and>
    (no_coinglass d \<longrightarrow> no_coinglass d')"
  using assms
proof (induction ss arbitrary: d w)
  case Nil
  then show ?case by (auto simp: retI_def intro: exI [of _ "w_log w"])
next
  case (Cons s ss)
  obtain d1 where d1: "delist_symbol x s d = Inr d1" "symbols_ok d1"
    "active_set d1 = active_set d - {s}" "\<forall>t. t \<noteq> ''symbols'' \<longrightarrow> d1 t = d t"
    using delist_symbol_ok [OF Cons.prems] by blast
  have c: "no_coinglass d \<longrightarrow> no_coinglass d1" using delist_no_coinglass [OF Cons.prems _ d1(1)] by blast
  let ?w = "w\<lparr>w_log := w_log w @ [(''universe.symbol.delisted'', [(''symbol'', WStr s), (''snapshot_date'', WInt day)])]\<rparr>"
  have step: "drop_symbol x day d s w = (Inr d1, ?w)"
    using d1(1) by (simp add: drop_symbol_def thenI_def bindI_def liftI_def note_symbol_ok universe_events)
  obtain d' l where "foldI (drop_symbol x day) d1 ss ?w = (Inr d', ?w\<lparr>w_log := l\<rparr>)" "symbols_ok d'"
    "active_set d' = active_set d1 - set ss" "\<forall>t. t \<noteq> ''symbols'' \<longrightarrow> d' t = d1 t"
    "no_coinglass d1 \<longrightarrow> no_coinglass d'"
    using Cons.IH [OF d1(2), of ?w] by blast
  then show ?case using step d1(3,4) c by (intro exI [of _ d'] exI [of _ l]) (auto simp: bindI_def)
qed

lemma update_symbols_ok:
  assumes "symbols_ok (w_db w)"
  shows "\<exists>d' l. update_symbols day news gone w =
      (Inr (), w\<lparr>w_pos := Suc (w_pos w), w_log := l, w_db := d'\<rparr>) \<and> symbols_ok d' \<and>
    active_set d' = (active_set (w_db w) \<union> set news) - set gone \<and>
    (\<forall>t. t \<noteq> ''symbols'' \<longrightarrow> d' t = w_db w t) \<and> (no_coinglass (w_db w) \<longrightarrow> no_coinglass d')"
proof -
  let ?r = "e_read (w_env w) (w_pos w)" and ?w = "w\<lparr>w_pos := Suc (w_pos w)\<rparr>"
  obtain d1 l1 where a: "foldI (add_symbol (rd_tx ?r) day) (w_db w) news ?w = (Inr d1, ?w\<lparr>w_log := l1\<rparr>)"
    "symbols_ok d1" "active_set d1 = active_set (w_db w) \<union> set news"
    "\<forall>t. t \<noteq> ''symbols'' \<longrightarrow> d1 t = w_db w t" "no_coinglass (w_db w) \<longrightarrow> no_coinglass d1"
    using add_symbols [OF assms] by blast
  obtain d2 l2 where b: "foldI (drop_symbol (rd_tx ?r) day) d1 gone (?w\<lparr>w_log := l1\<rparr>) =
      (Inr d2, (?w\<lparr>w_log := l1\<rparr>)\<lparr>w_log := l2\<rparr>)"
    "symbols_ok d2" "active_set d2 = active_set d1 - set gone"
    "\<forall>t. t \<noteq> ''symbols'' \<longrightarrow> d2 t = d1 t" "no_coinglass d1 \<longrightarrow> no_coinglass d2"
    using drop_symbols [OF a(2)] by blast
  show ?thesis
    using a b by (auto simp: update_symbols_def readI_def getI_def updI_def bindI_def)
qed

section \<open>Past snapshots\<close>

lemma staged_date:
  assumes "stage_row x tbl_universe_snapshots snapshot_columns (snapshot_record day si) = Inr row"
  shows "snap_cell row ''snapshot_date'' = CDate day"
  using assms
  by (auto simp: stage_row_def snapshot_columns_def snapshot_record_def tbl_universe_snapshots_def col_def
      stage_cell_def snap_cell_def cell_of_def res_simps split: if_splits)

definition only_adds :: "int \<Rightarrow> cell list list \<Rightarrow> world \<Rightarrow> bool" where
  "only_adds day rows w \<longleftrightarrow>
     schema_of (w_db w) ''universe_snapshots'' = Some tbl_universe_snapshots \<and>
     (\<exists>extra. rows_of (w_db w) ''universe_snapshots'' = rows @ extra \<and>
        (\<forall>r\<in>set extra. snap_cell r ''snapshot_date'' = CDate day))"

lemma only_adds_frame:
  "w_db w' ''universe_snapshots'' = w_db w ''universe_snapshots'' \<Longrightarrow> only_adds day rows w' = only_adds day rows w"
  by (simp add: only_adds_def schema_of_def rows_of_def)

lemma keeps_frame:
  assumes "\<And>v. keeps (\<lambda>w. w_db w ''universe_snapshots'' = v) m"
  shows "keeps (only_adds day rows) m"
  using assms only_adds_frame unfolding keeps_def by metis

lemma copy_snapshot:
  assumes c: "copy_into_hypertable x d ''universe_snapshots'' (map (snapshot_record day) qs) snapshot_columns
      snapshot_conflict = Inr (d', n)"
    and s: "schema_of d ''universe_snapshots'' = Some tbl_universe_snapshots"
  shows "\<exists>extra. rows_of d' ''universe_snapshots'' = rows_of d ''universe_snapshots'' @ extra \<and>
    (\<forall>r\<in>set extra. snap_cell r ''snapshot_date'' = CDate day)"
  using c
proof (cases rule: copy_cases)
  case empty
  then show ?thesis by simp
next
  case (merged ts staged)
  have sch: "t_schema ts = tbl_universe_snapshots" using s merged(2) by (simp add: schema_of_def)
  obtain extra where extra: "fold (insert_do_nothing (t_schema ts)) staged (t_rows ts) = t_rows ts @ extra"
    "set extra \<subseteq> set staged"
    using fold_insert_extra by blast
  have "snap_cell r ''snapshot_date'' = CDate day" if "r \<in> set staged" for r
    using mapE_Inr_set [OF merged(5) that] by (auto simp: sch dest!: staged_date)
  then show ?thesis using merged(2,8) extra by (auto simp: rows_of_def)
qed

lemma keeps_copy_snapshot:
  "keeps (only_adds day rows) (copyI ''universe_snapshots'' (map (snapshot_record day) qs) snapshot_columns
     snapshot_conflict)"
  unfolding keeps_def
proof (intro allI impI)
  fix w assume I: "only_adds day rows w"
  let ?x = "rd_tx (e_read (w_env w) (w_pos w))"
  let ?c = "copy_into_hypertable ?x (w_db w) ''universe_snapshots'' (map (snapshot_record day) qs)
    snapshot_columns snapshot_conflict"
  show "only_adds day rows (snd (copyI ''universe_snapshots'' (map (snapshot_record day) qs) snapshot_columns
     snapshot_conflict w))"
  proof (cases ?c)
    case (Inl e)
    then show ?thesis using I by (simp add: copyI_def readI_def bindI_def only_adds_def)
  next
    case (Inr dn)
    then obtain d' n where c: "?c = Inr (d', n)" by (cases dn) auto
    have s: "schema_of (w_db w) ''universe_snapshots'' = Some tbl_universe_snapshots"
      using I by (simp add: only_adds_def)
    have "only_adds day rows (w\<lparr>w_pos := p, w_db := d'\<rparr>)" for p
      using copy_snapshot [OF c s] copy_frame(2) [OF c] I by (auto simp: only_adds_def)
    then show ?thesis using c by (simp add: copyI_def readI_def bindI_def)
  qed
qed

text \<open>Every run of the job, whatever its outcome, only adds snapshot rows of its own day.\<close>

lemma keeps_universe_effects:
  "keeps (only_adds day rows) (logI name fs)" "keeps (only_adds day rows) (setI name ls v)"
  "keeps (only_adds day rows) (eventI name fs)" "keeps (only_adds day rows) readI"
  "keeps (only_adds day rows) (route_to_dead_letter s ep sy p e)"
  by (rule keeps_frame, simp add: keeps_table keeps_table_eventI keeps_table_dead_letter)+

lemma symbol_step_frame:
  assumes "t \<noteq> ''symbols''"
  shows "add_symbol x day d sy w = (Inr d', w') \<Longrightarrow> d' t = d t"
    and "drop_symbol x day d sy w = (Inr d', w') \<Longrightarrow> d' t = d t"
  using assms
  by (auto simp: add_symbol_def drop_symbol_def upsert_symbol_def delist_symbol_def thenI_def bindI_def
      liftI_def on_table_frame split: sum.splits prod.splits)

lemma keeps_update_symbols:
  assumes t: "t \<noteq> ''symbols''"
  shows "keeps (\<lambda>w. w_db w t = v) (update_symbols day news gone)"
  unfolding keeps_def
proof (intro allI impI)
  fix w :: world assume I: "w_db w t = v"
  have k: "keeps (\<lambda>w. w_db w t = v) (foldI (add_symbol x day) d ss)"
    "keeps (\<lambda>w. w_db w t = v) (foldI (drop_symbol x day) d ss)" for x d ss
    unfolding add_symbol_def drop_symbol_def note_symbol_def
    by (intro keeps_foldI keeps_thenI keeps_table_eventI keeps_liftI)+
  have a: "d' t = v" if "d t = v" "foldI (add_symbol x day) d ss w1 = (Inr d', w2)" for x d ss w1 d' w2
    using foldI_state [where P = "\<lambda>d. d t = v", OF _ that] symbol_step_frame(1) [OF t] by metis
  have b: "d' t = v" if "d t = v" "foldI (drop_symbol x day) d ss w1 = (Inr d', w2)" for x d ss w1 d' w2
    using foldI_state [where P = "\<lambda>d. d t = v", OF _ that] symbol_step_frame(2) [OF t] by metis
  let ?r = "e_read (w_env w) (w_pos w)" and ?w = "w\<lparr>w_pos := Suc (w_pos w)\<rparr>"
  obtain r1 w1 where f1: "foldI (add_symbol (rd_tx ?r) day) (w_db w) news ?w = (r1, w1)" by fastforce
  have w1: "w_db w1 t = v" using keepsD [OF k(1) _ f1] I by simp
  show "w_db (snd (update_symbols day news gone w)) t = v"
  proof (cases r1)
    case (Inl e)
    then show ?thesis using f1 w1 by (simp add: update_symbols_def readI_def getI_def bindI_def)
  next
    case (Inr d1)
    obtain r2 w2 where f2: "foldI (drop_symbol (rd_tx ?r) day) d1 gone w1 = (r2, w2)" by fastforce
    have w2: "w_db w2 t = v" using keepsD [OF k(2) w1 f2] .
    show ?thesis using f1 f2 w2 a [where d = "w_db w", OF I] b Inr
      by (cases r2) (auto simp: update_symbols_def readI_def getI_def updI_def bindI_def)
  qed
qed

lemma universe_job_at:
  "universe_snapshot_job enum tickers w =
     snapshot_on enum tickers (utc_date (rd_now (e_read (w_env w) (w_pos w)))) (w\<lparr>w_pos := Suc (w_pos w)\<rparr>)"
  by (simp add: universe_snapshot_job_def bindI_def readI_def)

lemma keeps_snapshot_on: "keeps (only_adds day rows) (snapshot_on enum tickers day)"
proof -
  have "keeps (only_adds day rows) (write_snapshot enum day qs)" for qs
    unfolding write_snapshot_def Let_def
    by (intro keeps_intros keeps_copy_snapshot keeps_universe_effects keeps_frame [OF keeps_update_symbols]) simp
  then show ?thesis
    unfolding snapshot_on_def by (intro keeps_intros keeps_universe_effects)
qed

text \<open>C32: The point-in-time universe of a day is settled by that day: a run of the snapshot job on any other
  day, whatever the exchange answers and whether or not it fails, leaves the set of qualifying
  symbols recorded for it unchanged.\<close>

theorem universe_at_stable:
  assumes "schema_of (w_db w) ''universe_snapshots'' = Some tbl_universe_snapshots"
    and "utc_date (rd_now (e_read (w_env w) (w_pos w))) \<noteq> day"
  shows "universe_at (w_db (snd (universe_snapshot_job enum tickers w))) day = universe_at (w_db w) day"
proof -
  let ?today = "utc_date (rd_now (e_read (w_env w) (w_pos w)))"
  have "only_adds ?today (rows_of (w_db w) ''universe_snapshots'') (w\<lparr>w_pos := Suc (w_pos w)\<rparr>)"
    using assms(1) by (simp add: only_adds_def)
  then have "only_adds ?today (rows_of (w_db w) ''universe_snapshots'') (snd (universe_snapshot_job enum tickers w))"
    using keeps_snapshot_on unfolding keeps_def universe_job_at by blast
  then obtain extra where "rows_of (w_db (snd (universe_snapshot_job enum tickers w))) ''universe_snapshots'' =
      rows_of (w_db w) ''universe_snapshots'' @ extra" "\<forall>r\<in>set extra. snap_cell r ''snapshot_date'' = CDate ?today"
    by (auto simp: only_adds_def)
  then show ?thesis
    using assms(2) by (simp add: universe_at_def map_filter_append map_filter_none)
qed

section \<open>The diff\<close>

lemma snapshot_symbols_copy:
  assumes "copy_into_hypertable x d ''universe_snapshots'' (map (snapshot_record day) qs) snapshot_columns
      snapshot_conflict = Inr (d', n)"
    and "schema_of d ''universe_snapshots'' = Some tbl_universe_snapshots"
  shows "snapshot_symbols d' (day - 1) = snapshot_symbols d (day - 1)"
proof -
  obtain extra where "rows_of d' ''universe_snapshots'' = rows_of d ''universe_snapshots'' @ extra"
    "\<forall>r\<in>set extra. snap_cell r ''snapshot_date'' = CDate day"
    using copy_snapshot [OF assms] by blast
  then show ?thesis by (simp add: snapshot_symbols_def map_filter_append map_filter_none)
qed

lemma symbols_ok_cong: "d' ''symbols'' = d ''symbols'' \<Longrightarrow> symbols_ok d' = symbols_ok d"
  and active_set_cong: "d' ''symbols'' = d ''symbols'' \<Longrightarrow> active_set d' = active_set d"
  and no_coinglass_cong: "d' ''symbols'' = d ''symbols'' \<Longrightarrow> no_coinglass d' = no_coinglass d"
  by (simp_all add: symbols_ok_def active_set_def no_coinglass_def rows_of_def)

lemma write_snapshot_ok:
  assumes s: "symbols_ok (w_db w)" and enum: "\<And>xs. set (enum xs) = set xs"
    and u: "schema_of (w_db w) ''universe_snapshots'' = Some tbl_universe_snapshots"
    and ok: "write_snapshot enum day qs w = (Inr n, w')"
  shows "n = length qs \<and> symbols_ok (w_db w') \<and>
    active_set (w_db w') =
      (active_set (w_db w) \<union> (fst ` set qs - set (snapshot_symbols (w_db w) (day - 1)))) -
        (set (snapshot_symbols (w_db w) (day - 1)) - fst ` set qs) \<and>
    (no_coinglass (w_db w) \<longrightarrow> no_coinglass (w_db w'))"
proof -
  let ?x = "rd_tx (e_read (w_env w) (w_pos w))"
  let ?c = "copy_into_hypertable ?x (w_db w) ''universe_snapshots'' (map (snapshot_record day) qs)
      snapshot_columns snapshot_conflict"
  obtain d1 n1 where c: "?c = Inr (d1, n1)"
    using ok by (cases ?c) (auto simp: write_snapshot_def copyI_def readI_def bindI_def)
  have n1: "n1 = length qs" using copy_count [OF c] by simp
  let ?w1 = "w\<lparr>w_pos := Suc (w_pos w), w_db := d1\<rparr>"
  let ?y = "snapshot_symbols (w_db w) (day - 1)" and ?t = "map fst qs"
  let ?new = "enum (filter (\<lambda>sy. sy \<notin> set ?y) ?t)" and ?gone = "enum (filter (\<lambda>sy. sy \<notin> set ?t) ?y)"
  have d1: "d1 ''symbols'' = w_db w ''symbols''" by (rule copy_frame(1) [OF c]) simp
  have s1: "symbols_ok (w_db ?w1)" using s symbols_ok_cong [of d1 "w_db w", OF d1] by simp
  obtain d2 l where u2: "update_symbols day ?new ?gone ?w1 =
      (Inr (), ?w1\<lparr>w_pos := Suc (w_pos ?w1), w_log := l, w_db := d2\<rparr>)" "symbols_ok d2"
    "active_set d2 = (active_set (w_db ?w1) \<union> set ?new) - set ?gone"
    "no_coinglass (w_db ?w1) \<longrightarrow> no_coinglass d2"
    using update_symbols_ok [OF s1, of day ?new ?gone] by blast
  have y: "snapshot_symbols d1 (day - 1) = ?y" by (rule snapshot_symbols_copy [OF c u])
  have "n = n1 \<and> w_db w' = d2"
    using ok c u2(1)
    by (auto simp: write_snapshot_def copyI_def readI_def getI_def bindI_def thenI_def y Let_def setI_def
        eventI_def universe_events logI_def updI_def liftI_def retI_def simp del: set_map)
  then show ?thesis
    using n1 u2 active_set_cong [of d1 "w_db w", OF d1] no_coinglass_cong [of d1 "w_db w", OF d1] by (auto simp: enum)
qed

text \<open>The run comes through when the numbers fit their columns.\<close>

definition info_fits :: "ticker_info \<Rightarrow> bool" where
  "info_fits i \<longleftrightarrow> to_numeric 28 10 (py_float (ti_volume i)) \<noteq> None \<and>
     (case ti_price i of None \<Rightarrow> True | Some p \<Rightarrow> to_numeric 20 10 (py_float p) \<noteq> None)"

lemma snapshot_staged:
  assumes "info_fits (snd si)"
  shows "\<exists>row. stage_row x tbl_universe_snapshots snapshot_columns (snapshot_record day si) = Inr row \<and>
    check_row tbl_universe_snapshots row = Inr ()"
proof -
  obtain v where v: "to_numeric 28 10 (py_float (ti_volume (snd si))) = Some v"
    using assms by (auto simp: info_fits_def)
  note facts = v stage_row_def snapshot_columns_def snapshot_record_def tbl_universe_snapshots_def
    col_def stage_cell_def required_def check_row_def cell_of_def SOURCE_ENUM_def QUALITY_FLAG_ENUM_def
  show ?thesis
  proof (cases "ti_price (snd si)")
    case None
    then show ?thesis by (simp add: facts)
  next
    case (Some p)
    then obtain u where "to_numeric 20 10 (py_float p) = Some u"
      using assms by (auto simp: info_fits_def)
    with Some show ?thesis by (simp add: facts)
  qed
qed

lemma copy_snapshot_returns:
  assumes "schema_of d ''universe_snapshots'' = Some tbl_universe_snapshots" "\<forall>si\<in>set qs. info_fits (snd si)"
  shows "\<exists>d'. copy_into_hypertable x d ''universe_snapshots'' (map (snapshot_record day) qs) snapshot_columns
      snapshot_conflict = Inr (d', length qs)"
proof (cases "qs = []")
  case True
  then show ?thesis by (simp add: copy_into_hypertable_def)
next
  case False
  obtain ts where ts: "d ''universe_snapshots'' = Some ts" "t_schema ts = tbl_universe_snapshots"
    using assms(1) by (auto simp: schema_of_def)
  let ?recs = "map (snapshot_record day) qs"
  have "\<exists>staged. mapE (stage_row x tbl_universe_snapshots snapshot_columns) ?recs = Inr staged"
  proof (rule mapE_exists)
    fix r assume "r \<in> set ?recs"
    then obtain si where "si \<in> set qs" "r = snapshot_record day si" by auto
    then show "\<exists>y. stage_row x tbl_universe_snapshots snapshot_columns r = Inr y"
      using snapshot_staged [of si x day] assms(2) by blast
  qed
  then obtain staged where st: "mapE (stage_row x tbl_universe_snapshots snapshot_columns) ?recs = Inr staged" ..
  have "check_row tbl_universe_snapshots r = Inr ()" if r: "r \<in> set staged" for r
  proof -
    obtain si where "si \<in> set qs" "stage_row x tbl_universe_snapshots snapshot_columns (snapshot_record day si) = Inr r"
      using mapE_Inr_set [OF st r] by auto
    then show ?thesis using snapshot_staged [of si x day] assms(2) by auto
  qed
  then have "\<exists>us. mapE (check_row tbl_universe_snapshots) staged = Inr us" by (intro mapE_exists) auto
  moreover have "has_arbiter tbl_universe_snapshots snapshot_conflict"
    "undefined_column tbl_universe_snapshots snapshot_columns = None"
    by (auto simp: has_arbiter_def tbl_universe_snapshots_def snapshot_conflict_def undefined_column_def
        snapshot_columns_def col_names_def col_def find_None_iff)
  ultimately show ?thesis
    using False ts st by (auto simp: copy_into_hypertable_def merge_rows_def lift_db_def guardE_def)
qed

lemma write_snapshot_returns:
  assumes "symbols_ok (w_db w)" "schema_of (w_db w) ''universe_snapshots'' = Some tbl_universe_snapshots"
    and "\<forall>si\<in>set qs. info_fits (snd si)"
  shows "\<exists>w'. write_snapshot enum day qs w = (Inr (length qs), w')"
proof -
  obtain d1 where c: "copy_into_hypertable (rd_tx (e_read (w_env w) (w_pos w))) (w_db w) ''universe_snapshots''
      (map (snapshot_record day) qs) snapshot_columns snapshot_conflict = Inr (d1, length qs)"
    using copy_snapshot_returns [OF assms(2,3)] by blast
  let ?w1 = "w\<lparr>w_pos := Suc (w_pos w), w_db := d1\<rparr>"
  have d1: "d1 ''symbols'' = w_db w ''symbols''" by (rule copy_frame(1) [OF c]) simp
  have s1: "symbols_ok (w_db ?w1)" using assms(1) symbols_ok_cong [of d1 "w_db w", OF d1] by simp
  let ?y = "snapshot_symbols d1 (day - 1)" and ?t = "map fst qs"
  obtain d2 l where "update_symbols day (enum (filter (\<lambda>sy. sy \<notin> set ?y) ?t)) (enum (filter (\<lambda>sy. sy \<notin> set ?t) ?y)) ?w1 =
      (Inr (), ?w1\<lparr>w_pos := Suc (w_pos ?w1), w_log := l, w_db := d2\<rparr>)"
    using update_symbols_ok [OF s1] by blast
  then show ?thesis
    using c
    by (auto simp: write_snapshot_def copyI_def readI_def getI_def bindI_def thenI_def Let_def setI_def
        eventI_def universe_events logI_def updI_def liftI_def retI_def simp del: set_map)
qed

text \<open>C31: The daily diff keeps the symbols table in step with the exchange: when the reported numbers fit
  their columns the run succeeds with one row per listed perpetual, and afterwards the active
  symbols are the former ones, plus those listed today but not yesterday, minus those in
  yesterday's snapshot but not listed today. A symbol that vanishes while yesterday's snapshot is
  missing therefore stays active.\<close>

theorem universe_diff:
  assumes "symbols_ok (w_db w)" "\<And>xs. set (enum xs) = set xs"
    and "schema_of (w_db w) ''universe_snapshots'' = Some tbl_universe_snapshots"
    and "filter_qualifying_tickers tickers = Inr qs" "qs \<noteq> []" "\<forall>si\<in>set qs. info_fits (snd si)"
  shows "let yesterday = set (snapshot_symbols (w_db w) (utc_date (rd_now (e_read (w_env w) (w_pos w))) - 1));
             today = fst ` set qs;
             (r, w') = universe_snapshot_job enum (Inr tickers) w in
    r = Inr (length qs) \<and> symbols_ok (w_db w') \<and>
    active_set (w_db w') = (active_set (w_db w) \<union> (today - yesterday)) - (yesterday - today) \<and>
    (yesterday = {} \<longrightarrow> active_set (w_db w) \<subseteq> active_set (w_db w'))"
proof -
  let ?day = "utc_date (rd_now (e_read (w_env w) (w_pos w)))" and ?w = "w\<lparr>w_pos := Suc (w_pos w)\<rparr>"
  obtain w' where w': "write_snapshot enum ?day qs ?w = (Inr (length qs), w')"
    using write_snapshot_returns [of ?w qs enum ?day] assms(1,3,6) by auto
  then have "universe_snapshot_job enum (Inr tickers) w = (Inr (length qs), w')"
    using assms(4,5) by (simp add: universe_job_at snapshot_on_def catchI_def bindI_def liftI_def retI_def)
  with write_snapshot_ok [OF _ assms(2) _ w'] assms(1,3)
  show ?thesis by (auto simp: Let_def)
qed

text \<open>A small database: one active symbol, seen yesterday.\<close>

definition universe_db :: db where
  "universe_db =
     [''symbols'' \<mapsto> \<lparr>t_schema = tbl_symbols, t_rows =
        [[CText ''A/USDT:USDT'', CText ''mexc'', CText ''swap'', CText ''A_USDT'', CNull, CNull, CInt 2, CTs 0, CNull, CNull]]\<rparr>,
      ''universe_snapshots'' \<mapsto> \<lparr>t_schema = tbl_universe_snapshots, t_rows =
        [[CDate 0, CText ''A/USDT:USDT'', CNum (Fin 0 (- 10)), CNull, CBool True, CText ''mexc_native'', CText ''ok'', CTs 0]]\<rparr>]"

definition universe_world :: world where
  "universe_world = calm_world 86400 universe_db"

lemma universe_db_ok: "symbols_ok universe_db" "active_set universe_db = {''A/USDT:USDT''}"
  "schema_of universe_db ''universe_snapshots'' = Some tbl_universe_snapshots"
  "set (snapshot_symbols universe_db 0) = {''A/USDT:USDT''}" "universe_at universe_db 0 = {''A/USDT:USDT''}"
  by (auto simp: symbols_ok_def universe_db_def active_set_def rows_of_def sym_cell_def is_active_def cell_of_def
      tbl_symbols_def col_def schema_of_def snapshot_symbols_def snap_cell_def tbl_universe_snapshots_def
      List.map_filter_def universe_at_def)

lemma universe_filter:
  "filter_qualifying_tickers [(''B/USDT:USDT'', []), (''C/USDC:USDC'', [])] =
     Inr [(''B/USDT:USDT'', \<lparr>ti_volume = Fin 0 0, ti_price = None, ti_qualifying = False\<rparr>)]"
  by (simp add: filter_qualifying_tickers_def ticker_info_of_def raw_volume_def dget_or_def dec_gt_def
      QUALIFYING_VOLUME_USD_def pow10_def suffix_def)

lemma universe_diff_witness:
  "let (r, w') = universe_snapshot_job id (Inr [(''B/USDT:USDT'', []), (''C/USDC:USDC'', [])]) universe_world
   in r = Inr 1 \<and> active_set (w_db w') = {''B/USDT:USDT''}"
proof -
  let ?qs = "[(''B/USDT:USDT'', \<lparr>ti_volume = Fin 0 0, ti_price = None, ti_qualifying = False\<rparr>)]"
  have "\<forall>si\<in>set ?qs. info_fits (snd si)"
    by (simp add: info_fits_def fl_def exact_dec_def floorlog_def scale_to_def div_half_away_def)
  from universe_diff [of universe_world id, OF _ _ _ universe_filter _ this] universe_db_ok
  show ?thesis by (auto simp: Let_def universe_world_def utc_date_def split: prod.splits)
qed

lemma universe_at_stable_witness:
  "universe_at (w_db (snd (universe_snapshot_job id (Inl TimeoutError) universe_world))) 0 = {''A/USDT:USDT''}"
  using universe_at_stable [of universe_world 0 id "Inl TimeoutError"] universe_db_ok
  by (simp add: universe_world_def utc_date_def)

section \<open>Not a number\<close>

lemma dec_lt_error: "dec_lt a b = Inl e \<Longrightarrow> e = InvalidOperation"
  by (cases "(a, b)" rule: dec_lt.cases) auto

lemma ticker_info_error: "ticker_info_of t = Inl e \<Longrightarrow> e = InvalidOperation"
  by (auto simp: ticker_info_of_def Let_def res_simps dec_gt_def dec_lt_error split: sum.splits)

text \<open>One perpetual whose quote volume reads as NaN costs the day its snapshot: the comparison with the
  threshold is outside the handler that guards the conversion, so the job raises
  InvalidOperation before anything is written, and nothing is logged or dead-lettered.\<close>

theorem nan_volume_fails_snapshot:
  assumes "(sy, t) \<in> set tickers" "suffix '':USDT'' sy" "dec_of_wire (raw_volume t) = Inr NaN"
  shows "universe_snapshot_job enum (Inr tickers) w = (Inl InvalidOperation, w\<lparr>w_pos := Suc (w_pos w)\<rparr>)"
proof -
  have "ticker_info_of t = Inl InvalidOperation"
    using assms(3) by (simp add: ticker_info_of_def dec_gt_def QUALIFYING_VOLUME_USD_def)
  then obtain e where e: "filter_qualifying_tickers tickers = Inl e"
    using assms(1,2) mapE_fails [of "(sy, t)" "filter (\<lambda>(sy, _). suffix '':USDT'' sy) tickers"
        "\<lambda>(sy, t). bindE (ticker_info_of t) (\<lambda>i. Inr (sy, i))" InvalidOperation]
    by (auto simp: filter_qualifying_tickers_def)
  then have "e = InvalidOperation"
    by (auto simp: filter_qualifying_tickers_def res_simps dest!: mapE_Inl_witness ticker_info_error)
  with e show ?thesis
    by (simp add: universe_job_at snapshot_on_def catchI_def bindI_def liftI_def retI_def)
qed

lemma nan_volume_fails_snapshot_witness:
  "universe_snapshot_job id (Inr [(''B/USDT:USDT'', []), (''C/USDT:USDT'', [(''quoteVolume'', WFloat NaN)])])
     universe_world = (Inl InvalidOperation, universe_world\<lparr>w_pos := 1\<rparr>)"
  using nan_volume_fails_snapshot [of "''C/USDT:USDT''" "[(''quoteVolume'', WFloat NaN)]"
      "[(''B/USDT:USDT'', []), (''C/USDT:USDT'', [(''quoteVolume'', WFloat NaN)])]" id universe_world]
  by (simp add: raw_volume_def dget_or_def suffix_def universe_world_def)

section \<open>The ranking\<close>

text \<open>At least as much volume; no number (a NaN sum) counts as most.\<close>

fun at_least :: "rat option \<Rightarrow> rat option \<Rightarrow> bool" where
  "at_least None v = True"
| "at_least (Some x) None = False"
| "at_least (Some x) (Some y) = (y \<le> x)"

lemma rank_key_le: "rank_key u \<le> rank_key v \<longleftrightarrow> at_least u v"
  by (cases u; cases v) (auto simp: rank_key_def less_eq_prod_def)

lemma top_symbols_best:
  assumes "a \<in> set (top_symbols now n rows)"
    and "b \<in> set (List.map_filter (\<lambda>r. cell_text (d1_cell r ''symbol'')) (recent_1d now rows))"
    and "b \<notin> set (top_symbols now n rows)"
  shows "at_least (tier_volume (recent_1d now rows) a) (tier_volume (recent_1d now rows) b)"
proof -
  let ?k = "\<lambda>s. rank_key (tier_volume (recent_1d now rows) s)"
  let ?syms = "remdups (List.map_filter (\<lambda>r. cell_text (d1_cell r ''symbol'')) (recent_1d now rows))"
  let ?s = "sort_key ?k ?syms"
  have top: "top_symbols now n rows = take n ?s" by (simp add: top_symbols_def Let_def)
  have "b \<in> set ?s" using assms(2) by simp
  then have "b \<in> set (drop n ?s)"
    using assms(3) top by (metis Un_iff append_take_drop_id set_append)
  moreover have "sorted (map ?k (take n ?s) @ map ?k (drop n ?s))"
    by (simp only: map_append [symmetric] append_take_drop_id) simp
  ultimately have "?k a \<le> ?k b"
    using assms(1) top by (auto simp: sorted_append simp del: set_sort)
  then show ?thesis by (simp add: rank_key_le)
qed

lemma sym_of_set_cell: "length r = 10 \<Longrightarrow> sym_of (set_cell tbl_symbols ''tier'' v r) = sym_of r"
  "length r = 10 \<Longrightarrow> is_active (set_cell tbl_symbols ''tier'' v r) = is_active r"
  by (simp_all add: sym_of_def is_active_def sym_cell_set_cell)

text \<open>When there are recent daily candles, the ranking gives tier 1 to at most n active symbols and tier
  2 to all other active ones, never touching a delisted one; no symbol left out of the ranking has
  more volume over the seven days than one inside, and the set of active symbols is unchanged.\<close>

theorem tier1_ranking:
  assumes "symbols_ok (w_db w)"
    and "now = tx_now (rd_tx (e_read (w_env w) (w_pos w)))"
    and "best = top_symbols now n (rows_of (w_db w) ''raw_mexc_candles_1d'')" "best \<noteq> []"
  shows "\<exists>d'. w_db (snd (recompute_tier1 n w)) = d' \<and> fst (recompute_tier1 n w) = Inr () \<and> symbols_ok d' \<and>
    active_set d' = active_set (w_db w) \<and> length best \<le> n \<and>
    (\<forall>a\<in>set best. \<forall>b\<in>set (List.map_filter (\<lambda>r. cell_text (d1_cell r ''symbol''))
          (recent_1d now (rows_of (w_db w) ''raw_mexc_candles_1d''))).
       b \<notin> set best \<longrightarrow>
       at_least (tier_volume (recent_1d now (rows_of (w_db w) ''raw_mexc_candles_1d'')) a)
                (tier_volume (recent_1d now (rows_of (w_db w) ''raw_mexc_candles_1d'')) b)) \<and>
    list_all2 (\<lambda>r r'. if is_active r
        then sym_cell r' ''tier'' = CInt (if sym_of r \<in> set best then 1 else 2) \<and> sym_of r' = sym_of r
        else r' = r)
      (rows_of (w_db w) ''symbols'') (rows_of d' ''symbols'')"
proof -
  let ?f = "\<lambda>m t r. if m (sym_of r) \<and> is_active r then set_cell tbl_symbols ''tier'' (CInt t) r else r"
  obtain ts where ts: "w_db w ''symbols'' = Some ts"
    "\<forall>r\<in>set (t_rows ts). length r = 10" using assms(1) by (auto simp: symbols_ok_def list_all_iff)
  obtain d1 where d1: "set_tier (\<lambda>s. s \<in> set best) 1 (w_db w) = Inr d1" "symbols_ok d1"
      "active_set d1 = active_set (w_db w)"
      "d1 ''symbols'' = Some (ts\<lparr>t_rows := map (?f (\<lambda>s. s \<in> set best) 1) (t_rows ts)\<rparr>)"
    using set_tier_ok [OF assms(1), of "\<lambda>s. s \<in> set best" 1] ts(1) by (auto simp: Let_def)
  obtain d2 where d2: "set_tier (\<lambda>s. s \<notin> set best) 2 d1 = Inr d2" "symbols_ok d2"
      "active_set d2 = active_set d1"
      "d2 ''symbols'' = Some (ts\<lparr>t_rows := map (?f (\<lambda>s. s \<notin> set best) 2) (map (?f (\<lambda>s. s \<in> set best) 1) (t_rows ts))\<rparr>)"
    using set_tier_ok [OF d1(2), of "\<lambda>s. s \<notin> set best" 2] d1(4) by (auto simp: Let_def)
  have run: "recompute_tier1 n w = (Inr (), w\<lparr>w_pos := Suc (w_pos w), w_db := d2,
      w_log := w_log w @ [(''universe.tier1.recomputed'', [(''n_tier1'', WInt (int (length best)))])]\<rparr>)"
    using assms(2-4) d1(1) d2(1)
    by (simp add: recompute_tier1_def readI_def getI_def bindI_def liftI_def thenI_def updI_def logI_def)
  have "length best \<le> n" using assms(3) by (simp add: top_symbols_def Let_def)
  moreover have "list_all2 (\<lambda>r r'. if is_active r
        then sym_cell r' ''tier'' = CInt (if sym_of r \<in> set best then 1 else 2) \<and> sym_of r' = sym_of r
        else r' = r) (t_rows ts) (rows_of d2 ''symbols'')"
    using ts(2) d2(4)
    by (auto simp: rows_of_def list.rel_map list_all2_same sym_of_set_cell sym_cell_set_cell)
  moreover note top_symbols_best [where n = n and now = now and rows = "rows_of (w_db w) ''raw_mexc_candles_1d''",
      folded assms(3)]
  ultimately show ?thesis using run d1(3) d2(2,3) ts(1) by (simp add: rows_of_def [of "w_db w"])
qed

definition tier_world :: world where
  "tier_world = calm_world 86400 (universe_db(''raw_mexc_candles_1d'' \<mapsto> \<lparr>t_schema = tbl_raw_mexc_candles_1d, t_rows =
     [[CText ''A/USDT:USDT'', CTs 0, CNum (Fin 1 0), CNum (Fin 1 0), CNum (Fin 1 0), CNum (Fin 1 0), CNum (Fin 5 0),
       CText ''mexc_native'', CText ''ok'', CTs 0]]\<rparr>))"

lemma tier_top: "top_symbols 86400000000 1 (rows_of (w_db tier_world) ''raw_mexc_candles_1d'') = [''A/USDT:USDT'']"
  by (simp add: top_symbols_def recent_1d_def tier_world_def rows_of_def d1_cell_def cell_of_def
      tbl_raw_mexc_candles_1d_def col_def List.map_filter_def Let_def)

lemma tier1_ranking_witness:
  "map (\<lambda>r. sym_cell r ''tier'') (rows_of (w_db (snd (recompute_tier1 1 tier_world))) ''symbols'') = [CInt 1]"
proof -
  have ok: "symbols_ok (w_db tier_world)" by (rule symbols_ok_cong [THEN iffD2, OF _ universe_db_ok(1)]) (simp add: tier_world_def)
  have rows: "rows_of (w_db tier_world) ''symbols'' =
      [[CText ''A/USDT:USDT'', CText ''mexc'', CText ''swap'', CText ''A_USDT'', CNull, CNull, CInt 2, CTs 0, CNull, CNull]]"
    by (simp add: tier_world_def universe_db_def rows_of_def)
  have "86400000000 = tx_now (rd_tx (e_read (w_env tier_world) (w_pos tier_world)))" by (simp add: tier_world_def)
  from tier1_ranking [OF ok this tier_top [symmetric]] rows
  show ?thesis
    by (auto simp: list_all2_Cons1 is_active_def sym_cell_def sym_of_def cell_of_def tbl_symbols_def col_def)
qed

end
