(* ===== verification/Kv_State.thy ===== *)
theory Kv_State
  imports Mexc_Client
begin

text \<open>
  src/shortfire/ingest/state/kv_state.py: the cursor dictionary a round-robin job keeps in
  ingest_runs. The dictionaries that occur map identifiers to integers; their JSON text is
  written by \<open>json.dumps\<close> and read back by \<open>json.loads\<close>. The server returns a JSONB value in the
  same layout. That SQLAlchemy binds the parameter in front of the cast of the statement, so
  that the row is inserted, is taken from the source.
\<close>

type_synonym kv = "(string \<times> int) list"

section \<open>JSON\<close>

definition kv_member :: "string \<times> int \<Rightarrow> string" where
  "kv_member m = CHR 0x22 # fst m @ CHR 0x22 # '': '' @ show_int (snd m)"

fun kv_members :: "kv \<Rightarrow> string" where
  "kv_members [] = []"
| "kv_members [m] = kv_member m"
| "kv_members (m # ms) = kv_member m @ '', '' @ kv_members ms"

definition kv_dumps :: "kv \<Rightarrow> string" where
  "kv_dumps kv = ''{'' @ kv_members kv @ ''}''"

definition number_char :: "char \<Rightarrow> bool" where
  "number_char c \<longleftrightarrow> is_digit c \<or> c = CHR ''-''"

text \<open>One member: the key, its value and the rest of the text.\<close>

definition kv_load_member :: "string \<Rightarrow> (string \<times> int \<times> string) option" where
  "kv_load_member s =
     (if take 1 s \<noteq> [CHR 0x22] then None
      else let k = takeWhile (\<lambda>c. c \<noteq> CHR 0x22) (drop 1 s); r = drop (length k + 1) s
           in if take 3 r \<noteq> CHR 0x22 # '': '' then None
              else let num = takeWhile number_char (drop 3 r); rest = dropWhile number_char (drop 3 r)
                   in map_option (\<lambda>v. (k, v, rest)) (parse_int num))"

fun kv_load_members :: "nat \<Rightarrow> string \<Rightarrow> kv option" where
  "kv_load_members 0 s = None"
| "kv_load_members (Suc n) s =
     (case kv_load_member s of
        None \<Rightarrow> None
      | Some (k, v, rest) \<Rightarrow>
          if rest = ''}'' then Some [(k, v)]
          else if take 2 rest = '', ''
          then map_option ((#) (k, v)) (kv_load_members n (drop 2 rest))
          else None)"

definition kv_loads :: "string \<Rightarrow> kv option" where
  "kv_loads s =
     (if s = ''{}'' then Some []
      else if take 1 s = ''{'' then kv_load_members (length s) (drop 1 s) else None)"

section \<open>load_kv_state, save_kv_state\<close>

definition run_cell :: "cell list \<Rightarrow> string \<Rightarrow> cell" where
  "run_cell row c = cell_of tbl_ingest_runs row c"

definition run_ts :: "cell list \<Rightarrow> int" where
  "run_ts row = (case run_cell row ''ts'' of CTs t \<Rightarrow> t | _ \<Rightarrow> 0)"

definition kv_rows :: "db \<Rightarrow> string \<Rightarrow> cell list list" where
  "kv_rows d job_id =
     filter (\<lambda>r. run_cell r ''job_id'' = CText job_id \<and> run_cell r ''kv_state'' \<noteq> CNull)
       (rows_of d ''ingest_runs'')"

text \<open>ORDER BY ts DESC LIMIT 1; of equal instants the earlier row.\<close>

definition newest :: "cell list list \<Rightarrow> cell list option" where
  "newest rows =
     foldl (\<lambda>best r. case best of
        None \<Rightarrow> Some r
      | Some b \<Rightarrow> if run_ts b < run_ts r then Some r else Some b) None rows"

definition kv_of_row :: "cell list \<Rightarrow> kv res" where
  "kv_of_row r =
     (case run_cell r ''kv_state'' of
        CJson s \<Rightarrow> (case kv_loads s of None \<Rightarrow> Inl JSONDecodeError | Some kv \<Rightarrow> Inr kv)
      | _ \<Rightarrow> Inr [])"

definition stored_kv :: "db \<Rightarrow> string \<Rightarrow> kv res" where
  "stored_kv d job_id = (case newest (kv_rows d job_id) of None \<Rightarrow> Inr [] | Some r \<Rightarrow> kv_of_row r)"

definition load_kv_state :: "string \<Rightarrow> kv io" where
  "load_kv_state job_id = bindI (getI (\<lambda>w. stored_kv (w_db w) job_id)) liftI"

definition kv_source :: "string \<Rightarrow> string" where
  "kv_source job_id =
     (if startswith job_id ''coinglass'' then ''coinglass_aggregate''
      else if startswith job_id ''coingecko'' then ''coingecko''
      else if startswith job_id ''mexc'' then ''mexc_native''
      else ''mexc_native'')"

definition kv_dataset :: "string \<Rightarrow> string" where
  "kv_dataset job_id = (case split1 ''.'' job_id of None \<Rightarrow> job_id | Some (_, rest) \<Rightarrow> rest)"

definition run_columns :: "string list" where
  "run_columns =
     [''id'', ''ts'', ''source'', ''dataset'', ''job_id'', ''started_at'', ''finished_at'', ''status'',
      ''rows_written'', ''kv_state'', ''quality_flag'']"

definition run_record :: "nat \<Rightarrow> int \<Rightarrow> string \<Rightarrow> kv \<Rightarrow> cell list" where
  "run_record uuid now job_id kv =
     [CUuid uuid, CTs now, CText (kv_source job_id), CText (kv_dataset job_id), CText job_id, CTs now,
      CTs now, CText ''succeeded'', CInt 0, CJson (kv_dumps kv), CText ''ok'']"

definition save_kv_state :: "string \<Rightarrow> kv \<Rightarrow> unit io" where
  "save_kv_state job_id kv =
     bindI readI (\<lambda>r.
     bindI (getI w_db) (\<lambda>d.
     bindI (liftI (insert_row (rd_tx r) d ''ingest_runs'' (run_record (rd_uuid r) (rd_now r) job_id kv)
                     run_columns)) (\<lambda>d'.
     thenI (updI (\<lambda>w. w\<lparr>w_db := d'\<rparr>))
       (logI ''kv_state.saved''
          [(''job_id'', WStr job_id), (''state_keys'', WList (map (\<lambda>m. WStr (fst m)) kv))]))))"

section \<open>Round trip\<close>

lemma of_digit: "k < 10 \<Longrightarrow> (of_char (char_of (48 + k) :: char) :: int) = 48 + int k" for k :: nat
proof -
  assume "k < 10"
  have "(of_char (char_of (48 + k) :: char) :: int) = int (of_char (char_of (48 + k) :: char))"
    by (simp only: of_nat_of_char)
  then show ?thesis using \<open>k < 10\<close> by simp
qed

lemma digits_val_append: "digits_val (s @ [c]) = 10 * digits_val s + (of_char c - 48)"
  by (simp add: digits_val_def)

lemma digits_val_show_nat: "digits_val (show_nat n) = int n"
proof (induction n rule: show_nat.induct)
  case (1 n)
  show ?case
  proof (cases "n < 10")
    case True
    then show ?thesis by (subst show_nat.simps) (simp add: digits_val_def of_digit)
  next
    case False
    with 1 have "digits_val (show_nat (n div 10)) = int (n div 10)" by simp
    moreover have "10 * int (n div 10) + int (n mod 10) = int n" by presburger
    ultimately show ?thesis using False by (subst show_nat.simps) (simp add: digits_val_append of_digit)
  qed
qed

lemma digit_not_space: "is_digit c \<Longrightarrow> \<not> is_space c"
  by (auto simp: is_digit_def is_space_def)

lemma number_not_space: "number_char c \<Longrightarrow> \<not> is_space c"
  by (auto simp: number_char_def digit_not_space) (simp add: is_space_def)

lemma strip_id: "(\<And>c. c \<in> set s \<Longrightarrow> \<not> is_space c) \<Longrightarrow> strip s = s"
proof -
  assume a: "\<And>c. c \<in> set s \<Longrightarrow> \<not> is_space c"
  have "dropWhile is_space s = s" using a by (cases s) auto
  moreover have "dropWhile is_space (rev s) = rev s" using a by (cases "rev s") (auto simp: rev_eq_Cons_iff)
  ultimately show ?thesis by (simp add: strip_def)
qed

lemma show_int_chars: "c \<in> set (show_int i) \<Longrightarrow> number_char c"
  using show_nat_digits by (auto simp: show_int_def number_char_def split: if_splits)

lemma parse_show_int: "parse_int (show_int i) = Some i"
proof -
  have st: "strip (show_int i) = show_int i"
    by (rule strip_id) (use show_int_chars number_not_space in blast)
  have dig: "list_all is_digit (show_nat n)" for n
    using show_nat_digits by (auto simp: list_all_iff)
  have hd: "split_sign (show_nat n) = (False, show_nat n)" for n
  proof -
    obtain c s where cs: "show_nat n = c # s" using show_nat_nonempty [of n] by (cases "show_nat n") auto
    then have "is_digit c" using show_nat_digits [of n] by auto
    then have "c \<noteq> CHR ''-''" "c \<noteq> CHR ''+''" by (auto simp: is_digit_def)
    then show ?thesis by (simp add: cs)
  qed
  have "parse_int (show_int i) = (case split_sign (show_int i) of (neg, ds) \<Rightarrow>
      if ds \<noteq> [] \<and> list_all is_digit ds
      then Some (if neg then - digits_val ds else digits_val ds) else None)"
    by (simp only: parse_int.simps st)
  then show ?thesis
    by (cases "i < 0") (simp_all add: show_int_def hd dig show_nat_nonempty digits_val_show_nat del: parse_int.simps)
qed

lemma kv_load_member_dump:
  assumes "CHR 0x22 \<notin> set (fst m)" "rest = [] \<or> \<not> number_char (hd rest)"
  shows "kv_load_member (kv_member m @ rest) = Some (fst m, snd m, rest)"
proof -
  let ?n = "show_int (snd m)"
  have k: "takeWhile (\<lambda>c. c \<noteq> CHR 0x22) (fst m @ CHR 0x22 # y) = fst m" for y
    using assms(1) by (subst takeWhile_append2) auto
  have r: "takeWhile number_char rest = []" "dropWhile number_char rest = rest"
    using assms(2) by (cases rest; simp)+
  have n: "takeWhile number_char (?n @ rest) = ?n" "dropWhile number_char (?n @ rest) = rest"
    using show_int_chars r by (simp_all add: takeWhile_append2 dropWhile_append2)
  show ?thesis
    by (simp add: kv_load_member_def kv_member_def k n parse_show_int Let_def del: parse_int.simps)
qed

lemma kv_load_members_dump:
  assumes "kv \<noteq> []" "\<forall>m\<in>set kv. CHR 0x22 \<notin> set (fst m)" "length kv \<le> n"
  shows "kv_load_members n (kv_members kv @ ''}'') = Some kv"
  using assms
proof (induction kv arbitrary: n rule: kv_members.induct)
  case 1
  then show ?case by simp
next
  case (2 m)
  then obtain k where "n = Suc k" by (cases n) auto
  then show ?case
    using 2 kv_load_member_dump [of m "''}''"] by (simp add: number_char_def is_digit_def)
next
  case (3 m m' ms)
  then obtain k where k: "n = Suc k" by (cases n) auto
  let ?rest = "'', '' @ kv_members (m' # ms) @ ''}''"
  have "kv_load_member (kv_member m @ ?rest) = Some (fst m, snd m, ?rest)"
    using 3 by (intro kv_load_member_dump) (simp_all add: number_char_def is_digit_def)
  moreover have "kv_load_members k (kv_members (m' # ms) @ ''}'') = Some (m' # ms)"
    using 3 k by (intro "3.IH") auto
  ultimately show ?case using k by simp
qed

lemma kv_loads_dumps:
  assumes "\<forall>m\<in>set kv. CHR 0x22 \<notin> set (fst m)"
  shows "kv_loads (kv_dumps kv) = Some kv"
proof (cases "kv = []")
  case True
  then show ?thesis by (simp add: kv_loads_def kv_dumps_def)
next
  case False
  have len: "length ms \<le> length (kv_members ms)" for ms
    by (induction ms rule: kv_members.induct) (auto simp: kv_member_def)
  have "hd (kv_members kv @ ''}'') = CHR 0x22"
    using False by (cases kv rule: kv_members.cases) (simp_all add: kv_member_def)
  moreover obtain c s where cs: "kv_members kv @ ''}'' = c # s" by (cases "kv_members kv @ ''}''") auto
  ultimately have "kv_dumps kv \<noteq> ''{}''" by (auto simp: kv_dumps_def)
  moreover have "kv_load_members (length (kv_dumps kv)) (kv_members kv @ ''}'') = Some kv"
    using False assms len [of kv] by (intro kv_load_members_dump) (auto simp: kv_dumps_def)
  ultimately show ?thesis by (simp add: kv_loads_def kv_dumps_def)
qed

section \<open>Saving and loading\<close>

lemma newest_snoc:
  "newest (rows @ [r]) =
     (case newest rows of None \<Rightarrow> Some r | Some b \<Rightarrow> if run_ts b < run_ts r then Some r else Some b)"
  by (simp add: newest_def)

lemma newest_in: "newest rows = Some b \<Longrightarrow> b \<in> set rows"
proof (induction rows arbitrary: b rule: rev_induct)
  case Nil
  then show ?case by (simp add: newest_def)
next
  case (snoc r rows)
  then show ?case by (auto simp: newest_snoc split: option.splits if_splits)
qed

lemma newest_last:
  "(\<And>b. b \<in> set rows \<Longrightarrow> run_ts b < run_ts r) \<Longrightarrow> newest (rows @ [r]) = Some r"
  by (auto simp: newest_snoc split: option.split dest: newest_in)

definition migrated_runs :: "world \<Rightarrow> bool" where
  "migrated_runs w \<longleftrightarrow> schema_of (w_db w) ''ingest_runs'' = Some tbl_ingest_runs"

lemma kv_source_enum: "CText (kv_source job_id) \<in> set SOURCE_ENUM"
  by (simp add: kv_source_def SOURCE_ENUM_def)

lemma run_staged:
  "\<exists>row. stage_row x tbl_ingest_runs run_columns (run_record u now job kv) = Inr row \<and>
    check_row tbl_ingest_runs row = Inr () \<and> row_key tbl_ingest_runs row = [CUuid u, CTs now] \<and>
    run_cell row ''job_id'' = CText job \<and> run_cell row ''ts'' = CTs now \<and>
    run_cell row ''kv_state'' = CJson (kv_dumps kv)"
  using kv_source_enum [of job]
  by (simp add: stage_row_def run_columns_def run_record_def tbl_ingest_runs_def col_def stage_cell_def
      required_def check_row_def cell_of_def row_key_def run_cell_def QUALITY_FLAG_ENUM_def)

lemma save_kv_ok:
  assumes "migrated_runs w"
    and r: "r = e_read (w_env w) (w_pos w)"
    and fresh: "\<forall>row\<in>set (rows_of (w_db w) ''ingest_runs''). run_ts row < rd_now r"
  shows "\<exists>d'. fst (save_kv_state job kv w) = Inr () \<and> w_db (snd (save_kv_state job kv w)) = d' \<and>
    schema_of d' = schema_of (w_db w) \<and> (\<forall>t. t \<noteq> ''ingest_runs'' \<longrightarrow> d' t = w_db w t) \<and>
    (\<exists>row. rows_of d' ''ingest_runs'' = rows_of (w_db w) ''ingest_runs'' @ [row] \<and>
      run_cell row ''job_id'' = CText job \<and> run_ts row = rd_now r \<and>
      run_cell row ''kv_state'' = CJson (kv_dumps kv))"
proof -
  obtain ts where ts: "w_db w ''ingest_runs'' = Some ts" "t_schema ts = tbl_ingest_runs"
    using assms(1) by (auto simp: migrated_runs_def schema_of_def)
  obtain row where row: "stage_row (rd_tx r) tbl_ingest_runs run_columns (run_record (rd_uuid r) (rd_now r) job kv) = Inr row"
    "check_row tbl_ingest_runs row = Inr ()" "row_key tbl_ingest_runs row = [CUuid (rd_uuid r), CTs (rd_now r)]"
    "run_cell row ''job_id'' = CText job" "run_cell row ''ts'' = CTs (rd_now r)"
    "run_cell row ''kv_state'' = CJson (kv_dumps kv)"
    using run_staged by blast
  have "row_key tbl_ingest_runs row \<noteq> row_key tbl_ingest_runs b" if "b \<in> set (t_rows ts)" for b
  proof
    assume "row_key tbl_ingest_runs row = row_key tbl_ingest_runs b"
    then have "run_cell b ''ts'' = CTs (rd_now r)"
      using row(3) by (simp add: row_key_def tbl_ingest_runs_def run_cell_def)
    then have "run_ts b = rd_now r" by (simp add: run_ts_def)
    then show False using fresh that ts(1) by (auto simp: rows_of_def)
  qed
  then have "row_key tbl_ingest_runs row \<notin> row_keys tbl_ingest_runs (t_rows ts)" by (auto simp: row_keys_def)
  moreover have "undefined_column tbl_ingest_runs run_columns = None"
    by (simp add: undefined_column_def run_columns_def tbl_ingest_runs_def col_names_def col_def find_None_iff)
  ultimately have ins: "insert_row (rd_tx r) (w_db w) ''ingest_runs'' (run_record (rd_uuid r) (rd_now r) job kv) run_columns
      = Inr ((w_db w)(''ingest_runs'' \<mapsto> ts\<lparr>t_rows := t_rows ts @ [row]\<rparr>))"
    using ts row(1,2) by (simp add: insert_row_def lift_db_def guardE_def)
  have "schema_of ((w_db w)(''ingest_runs'' \<mapsto> ts\<lparr>t_rows := t_rows ts @ [row]\<rparr>)) = schema_of (w_db w)"
    using ts by (auto simp: schema_of_def fun_eq_iff)
  with ins show ?thesis
    using row(4-6) ts(1) r
    by (simp add: save_kv_state_def readI_def getI_def bindI_def liftI_def thenI_def updI_def logI_def rows_of_def run_ts_def)
qed

text \<open>A cursor survives a restart: on the migrated schema, when the clock is past every recorded run,
  saving the state of a job succeeds and the next load of that job returns exactly the saved
  dictionary, while the state of every other job stays as it was.\<close>

theorem kv_state_round_trip:
  assumes "schema_of (w_db w) ''ingest_runs'' = Some tbl_ingest_runs"
    and "\<forall>row\<in>set (rows_of (w_db w) ''ingest_runs''). run_ts row < rd_now (e_read (w_env w) (w_pos w))"
    and "\<forall>m\<in>set kv. CHR 0x22 \<notin> set (fst m)"
  shows "let (r, w') = save_kv_state job kv w in
    r = Inr () \<and> fst (load_kv_state job w') = Inr kv \<and>
    (\<forall>other. other \<noteq> job \<longrightarrow> fst (load_kv_state other w') = fst (load_kv_state other w))"
proof -
  obtain row where run: "fst (save_kv_state job kv w) = Inr ()"
    "rows_of (w_db (snd (save_kv_state job kv w))) ''ingest_runs'' = rows_of (w_db w) ''ingest_runs'' @ [row]"
    "run_cell row ''job_id'' = CText job" "run_ts row = rd_now (e_read (w_env w) (w_pos w))"
    "run_cell row ''kv_state'' = CJson (kv_dumps kv)"
    using save_kv_ok [of w _ job kv] assms(1,2) by (auto simp: migrated_runs_def)
  let ?d = "w_db (snd (save_kv_state job kv w))"
  have "kv_rows ?d job = kv_rows (w_db w) job @ [row]" using run(2,3,5) by (simp add: kv_rows_def)
  moreover have "newest (kv_rows (w_db w) job @ [row]) = Some row"
    using assms(2) run(4) by (intro newest_last) (auto simp: kv_rows_def)
  ultimately have "stored_kv ?d job = Inr kv"
    using run(5) kv_loads_dumps [OF assms(3)] by (simp add: stored_kv_def kv_of_row_def)
  moreover have "stored_kv ?d other = stored_kv (w_db w) other" if "other \<noteq> job" for other
    using that run(2,3) by (simp add: stored_kv_def kv_rows_def)
  ultimately show ?thesis
    using run(1) by (auto simp: load_kv_state_def getI_def bindI_def liftI_def split: prod.splits)
qed

definition runs_db :: db where
  "runs_db = [''ingest_runs'' \<mapsto> \<lparr>t_schema = tbl_ingest_runs, t_rows = []\<rparr>]"

lemma kv_state_round_trip_witness:
  "fst (load_kv_state ''mexc.oi.poll''
     (snd (save_kv_state ''mexc.oi.poll'' [(''last_symbol_index'', 20)] (calm_world 5 runs_db)))) =
   Inr [(''last_symbol_index'', 20)]"
  using kv_state_round_trip [of "calm_world 5 runs_db" "[(''last_symbol_index'', 20)]" "''mexc.oi.poll''"]
  by (simp add: runs_db_def schema_of_def rows_of_def Let_def split: prod.splits)

end
