(* ===== verification/Round_Robin.thy ===== *)
theory Round_Robin
  imports Kv_State
begin

text \<open>
  The round-robin polling: the cursor arithmetic that src/shortfire/ingest/mexc/oi.py and the
  Coinglass jobs of scheduler/jobs.py share, and the open-interest step of oi.py itself.
\<close>

section \<open>The cursor\<close>

definition kv_cursor :: "kv \<Rightarrow> int" where
  "kv_cursor kv = (case map_of kv ''last_symbol_index'' of None \<Rightarrow> 0 | Some i \<Rightarrow> i)"

definition rr_start :: "kv \<Rightarrow> 'a list \<Rightarrow> nat" where
  "rr_start kv xs = nat (kv_cursor kv mod int (max (length xs) 1))"

definition rr_end :: "kv \<Rightarrow> nat \<Rightarrow> 'a list \<Rightarrow> nat" where
  "rr_end kv batch_size xs = min (rr_start kv xs + batch_size) (length xs)"

definition rr_slice :: "kv \<Rightarrow> nat \<Rightarrow> 'a list \<Rightarrow> 'a list" where
  "rr_slice kv batch_size xs = drop (rr_start kv xs) (take (rr_end kv batch_size xs) xs)"

text \<open>\<open>kv["last_symbol_index"] = end if end < len(symbols) else 0\<close>\<close>

definition rr_advance :: "kv \<Rightarrow> nat \<Rightarrow> 'a list \<Rightarrow> kv" where
  "rr_advance kv batch_size xs =
     (let e = rr_end kv batch_size xs
      in AList.update ''last_symbol_index'' (if e < length xs then int e else 0) kv)"

text \<open>The slices of consecutive steps over an unchanged list.\<close>

fun rr_run :: "nat \<Rightarrow> kv \<Rightarrow> nat \<Rightarrow> 'a list \<Rightarrow> 'a list list" where
  "rr_run 0 kv b xs = []"
| "rr_run (Suc k) kv b xs = rr_slice kv b xs # rr_run k (rr_advance kv b xs) b xs"

lemma kv_cursor_advance:
  "kv_cursor (rr_advance kv b xs) =
     (if rr_end kv b xs < length xs then int (rr_end kv b xs) else 0)"
  by (simp add: kv_cursor_def rr_advance_def Let_def update_conv')

lemma rr_start_bound: "xs \<noteq> [] \<Longrightarrow> rr_start kv xs < length xs"
  by (simp add: rr_start_def nat_less_iff Suc_le_eq max_absorb1)

lemma rr_start_cursor: "kv_cursor kv = int c \<Longrightarrow> c < length xs \<Longrightarrow> rr_start kv xs = c"
  by (simp add: rr_start_def Suc_le_eq max_absorb1)

text \<open>From the cursor \<open>c\<close> the remaining steps of the cycle deliver the rest of the list.\<close>

lemma rr_run_rest:
  assumes "0 < b" "kv_cursor kv = int c" "c < length xs" "k = (length xs - c + b - 1) div b"
  shows "concat (rr_run k kv b xs) = drop c xs \<and>
    kv_cursor (((\<lambda>kv. rr_advance kv b xs) ^^ k) kv) = 0"
  using assms(2-4)
proof (induction "length xs - c" arbitrary: c kv k rule: less_induct)
  case less
  have s: "rr_start kv xs = c" using less.prems by (intro rr_start_cursor)
  have e: "rr_end kv b xs = min (c + b) (length xs)" by (simp add: rr_end_def s)
  show ?case
  proof (cases "c + b < length xs")
    case True
    have k: "k = Suc ((length xs - (c + b) + b - 1) div b)"
    proof -
      have "length xs - c + b - 1 = (length xs - (c + b) + b - 1) + b" using True assms(1) by linarith
      then have "k = ((length xs - (c + b) + b - 1) + b) div b" using less.prems(3) by (simp only:)
      then show ?thesis using assms(1) by (simp only: div_add_self2 Suc_eq_plus1)
    qed
    have c': "kv_cursor (rr_advance kv b xs) = int (c + b)" using True e by (simp add: kv_cursor_advance)
    have IH: "concat (rr_run (k - 1) (rr_advance kv b xs) b xs) = drop (c + b) xs \<and>
        kv_cursor (((\<lambda>kv. rr_advance kv b xs) ^^ (k - 1)) (rr_advance kv b xs)) = 0"
      using True k assms(1) by (intro less.hyps [OF _ c']) auto
    have "drop c (take (c + b) xs) @ drop (c + b) xs = drop c xs"
      by (metis add.commute append_take_drop_id drop_drop take_drop)
    then show ?thesis using IH k e s True
      by (simp add: rr_slice_def funpow_Suc_right del: funpow.simps(2))
  next
    case False
    then have "(length xs - c + b - 1) div b = Suc 0"
      using less.prems(2) assms(1) by (intro div_nat_eqI) auto
    then have k: "k = Suc 0" using less.prems(3) by simp
    show ?thesis using False e s k by (simp add: rr_slice_def kv_cursor_advance)
  qed
qed

text \<open>C33: The round robin is fair: from a fresh or finished cycle, over an unchanged list of n items, ceil(n / b)
  consecutive steps of batch size b poll every item exactly once, in the order of the list, and
  leave the cursor at 0 for the next cycle; no step polls more than b items, and every stored
  cursor, also one left by a longer list, selects a nonempty slice.\<close>

theorem round_robin_cycle:
  assumes "0 < b" "xs \<noteq> []" "kv_cursor kv = 0" "k = (length xs + b - 1) div b"
  shows "concat (rr_run k kv b xs) = xs \<and> kv_cursor (((\<lambda>kv. rr_advance kv b xs) ^^ k) kv) = 0 \<and>
    (\<forall>kv. length (rr_slice kv b xs) \<le> b \<and> rr_slice kv b xs \<noteq> [])"
proof -
  have "length (rr_slice kv' b xs) \<le> b \<and> rr_slice kv' b xs \<noteq> []" for kv'
    using rr_start_bound [OF assms(2), of kv'] assms(1) by (auto simp: rr_slice_def rr_end_def)
  then show ?thesis using rr_run_rest [OF assms(1), of kv 0 xs k] assms by simp
qed

lemma round_robin_cycle_witness:
  "concat (rr_run 3 [] 2 [''A'', ''B'', ''C'', ''D'', ''E'']) = [''A'', ''B'', ''C'', ''D'', ''E'']"
  using round_robin_cycle [of 2 "[''A'', ''B'', ''C'', ''D'', ''E'']" "[]" 3] by (simp add: kv_cursor_def)

section \<open>oi.py\<close>

text \<open>The rows of one symbol become records until one of them raises.\<close>

fun until_error :: "('a \<Rightarrow> 'b res) \<Rightarrow> 'a list \<Rightarrow> 'b list \<times> exc option" where
  "until_error f [] = ([], None)"
| "until_error f (x # xs) =
     (case f x of
        Inl e \<Rightarrow> ([], Some e)
      | Inr y \<Rightarrow> (case until_error f xs of (ys, err) \<Rightarrow> (y # ys, err)))"

text \<open>Truth of a Decimal: every value but zero.\<close>

fun dec_truthy :: "decimal \<Rightarrow> bool" where
  "dec_truthy (Fin c e) = (c \<noteq> 0)"
| "dec_truthy _ = True"

definition oi_poll_record :: "string \<Rightarrow> oi_row \<Rightarrow> cell list res" where
  "oi_poll_record sy row =
     bindE (ts_from_ms (mi_timestamp row)) (\<lambda>ts.
       Inr [CText sy, CTs ts, CNum (if dec_truthy (mi_amount row) then mi_amount row else dec_zero),
            CText ''mexc_native'', CText ''ok''])"

definition mexc_oi_columns :: "string list" where
  "mexc_oi_columns = [''symbol'', ''ts'', ''open_interest'', ''source'', ''quality_flag'']"

definition mexc_oi_conflict :: "string list" where
  "mexc_oi_conflict = [''symbol'', ''ts'']"

type_synonym oi_api = "string \<Rightarrow> string \<Rightarrow> nat \<Rightarrow> wdict list res"

definition oi_dead_letter :: "string \<Rightarrow> exc \<Rightarrow> unit io" where
  "oi_dead_letter sy e = route_to_dead_letter ''mexc_native'' ''fetch_open_interest_history'' (WStr sy) '''' e"

definition oi_poll_symbol :: "oi_api \<Rightarrow> cell list list \<Rightarrow> string \<Rightarrow> cell list list io" where
  "oi_poll_symbol api records sy =
     bindI
       (catchI (bindI (fetch_open_interest_history api sy ''1h'') (\<lambda>rows. retI (Some rows)))
          (\<lambda>e. thenI (oi_dead_letter sy e) (retI None)))
       (\<lambda>fetched.
          case fetched of
            None \<Rightarrow> retI records
          | Some rows \<Rightarrow>
              (case until_error (oi_poll_record sy) rows of
                 (rs, None) \<Rightarrow> retI (records @ rs)
               | (rs, Some e) \<Rightarrow> thenI (oi_dead_letter sy e) (retI (records @ rs))))"

definition oi_round_robin_step :: "oi_api \<Rightarrow> string list \<Rightarrow> nat \<Rightarrow> kv \<Rightarrow> kv io" where
  "oi_round_robin_step api symbols batch_size kv_state =
     bindI (foldI (oi_poll_symbol api) [] (rr_slice kv_state batch_size symbols)) (\<lambda>records.
     thenI
       (if records = [] then retI ()
        else
          bindI (copyI ''raw_mexc_oi'' records mexc_oi_columns mexc_oi_conflict) (\<lambda>n.
          thenI (forI (map label_of_cell (remdups (map hd records)))
                   (\<lambda>sy. fresh_nowI ''mexc_native'' ''oi'' sy))
            (incI ''ingest_rows_total'' [''mexc_native'', ''oi''] n)))
       (retI (rr_advance kv_state batch_size symbols)))"

section \<open>A symbol that cannot be fetched\<close>

text \<open>On the migrated schema the polling step leaves the database alone until it copies.\<close>

definition same_db :: "db \<Rightarrow> world \<Rightarrow> bool" where
  "same_db d w \<longleftrightarrow> w_db w = d \<and> schema_of d ''dead_letter'' = Some tbl_dead_letter"

lemma same_db_dead_letter:
  "keeps (same_db d) (write_to_dead_letter s ep sy p ty m)" "keeps (same_db d) (route_to_dead_letter s ep sy p e)"
proof -
  show k: "keeps (same_db d) (write_to_dead_letter s ep sy p ty m)" for s ep sy p ty m
    unfolding keeps_def
  proof (intro allI impI)
    fix w assume w: "same_db d w"
    then have "migrated_dead_letter w" by (simp add: same_db_def migrated_dead_letter_def)
    from write_fails [OF this, of s ep sy p ty m] w
    show "same_db d (snd (write_to_dead_letter s ep sy p ty m w))" by (auto simp: same_db_def)
  qed
  show "keeps (same_db d) (route_to_dead_letter s ep sy p e)"
    unfolding route_to_dead_letter_def by (intro keeps_intros k)
qed

lemma same_db_effects:
  "keeps (same_db d) (callI remote)" "keeps (same_db d) (rendered v)" "keeps (same_db d) (logI name fs)"
  "keeps (same_db d) readI"
  by (auto simp: keeps_def same_db_def callI_def rendered_def logI_def readI_def io_defs)

lemma same_db_poll: "keeps (same_db d) (oi_poll_symbol api records sy)"
  unfolding oi_poll_symbol_def fetch_open_interest_history_def mexc_retry_def guarded_call_def parse_each_def
    oi_dead_letter_def
  by (intro keeps_intros same_db_effects same_db_dead_letter)

lemma oi_poll_fails:
  assumes "same_db d w" "api sy ''1h'' (w_pos w) = Inl e" "is_Exception e"
  shows "\<exists>f. fst (oi_poll_symbol api records sy w) = Inl (DbError f)"
proof -
  have m: "migrated_dead_letter w" using assms(1) by (simp add: same_db_def migrated_dead_letter_def)
  obtain f where g: "guarded_call ''fetch_open_interest_history'' sy (api sy ''1h'') w =
      (Inl (DbError f), w\<lparr>w_pos := w_pos w + 3\<rparr>)"
    using guarded_call_fails [where remote = "api sy ''1h''", OF m assms(2,3)] by blast
  let ?w = "w\<lparr>w_pos := w_pos w + 3\<rparr>"
  have r: "fetch_open_interest_history api sy ''1h'' w = (Inl (DbError f), ?w)"
    unfolding fetch_open_interest_history_def mexc_retry_def
    by (intro retryI_not_retried) (simp_all add: bindI_def g)
  have "migrated_dead_letter ?w" using m by (simp add: migrated_dead_letter_def)
  from route_fails [OF this] obtain f' where
    "route_to_dead_letter ''mexc_native'' ''fetch_open_interest_history'' (WStr sy) '''' (DbError f) ?w =
      (Inl (DbError f'), ?w\<lparr>w_pos := w_pos ?w + 2\<rparr>)" by blast
  then show ?thesis
    using r by (simp add: oi_poll_symbol_def oi_dead_letter_def bindI_def thenI_def catchI_def is_Exception_def)
qed

lemma oi_step_fails:
  assumes "same_db d w" "sy \<in> set (rr_slice kv b symbols)" "\<forall>n. \<exists>e. api sy ''1h'' n = Inl e \<and> is_Exception e"
  shows "(\<exists>e. fst (oi_round_robin_step api symbols b kv w) = Inl e) \<and>
    w_db (snd (oi_round_robin_step api symbols b kv w)) = d"
proof -
  have f: "\<exists>e. fst (oi_poll_symbol api s sy v) = Inl e" if "same_db d v" for s v
    using oi_poll_fails [OF that] assms(3) by blast
  have "(\<exists>e. fst (foldI (oi_poll_symbol api) [] (rr_slice kv b symbols) w) = Inl e) \<and>
      same_db d (snd (foldI (oi_poll_symbol api) [] (rr_slice kv b symbols) w))"
    by (rule foldI_fails_keeps [where I = "same_db d" and f = "oi_poll_symbol api" and ?x0.0 = sy])
      (use f assms(1,2) same_db_poll in auto)
  then show ?thesis
    by (auto simp: oi_round_robin_step_def bindI_def same_db_def split: sum.splits prod.splits)
qed

end
