(* ===== verification/Telegram.thy ===== *)
theory Telegram
  imports Events Settings
begin

text \<open>
  src/shortfire/observability/telegram.py. Message texts are lists of Unicode code points
  (Python str), so that the truncation counts what the code counts; the answer of the HTTP
  client, a status or an exception, is a reading.
\<close>

definition code_points :: "string \<Rightarrow> nat list" where
  "code_points s = map of_char s"

text \<open>The severity prefixes: a sign with variation selector, then the word.\<close>

definition SEVERITY_PREFIX :: "(string \<times> nat list) list" where
  "SEVERITY_PREFIX =
     [(''warn'', 0x26A0 # 0xFE0F # code_points '' WARN''),
      (''crit'', 0x1F6A8 # code_points '' CRIT''),
      (''info'', 0x2139 # 0xFE0F # code_points '' INFO'')]"

definition MAX_MESSAGE_LEN :: nat where
  "MAX_MESSAGE_LEN = 4000"

definition severity_upper :: "string \<Rightarrow> string" where
  "severity_upper = map to_upper_char"

definition alert_text :: "string \<Rightarrow> string \<Rightarrow> nat list" where
  "alert_text severity body =
     take MAX_MESSAGE_LEN
       ((case map_of SEVERITY_PREFIX severity of None \<Rightarrow> code_points (severity_upper severity) | Some p \<Rightarrow> p)
        @ code_points '' | '' @ code_points body)"

text \<open>
  The lazily created client is one per process (a counter \<open>httpx.AsyncClient\<close> counts the
  constructions); \<open>raise_for_status\<close> raises on every status that is not 2xx.
\<close>

definition get_telegram_client :: "unit io" where
  "get_telegram_client =
     bindI (getI (\<lambda>w. map_of (w_count w) (''httpx.AsyncClient'', [])))
       (\<lambda>c. whenI (c = None) (incI ''httpx.AsyncClient'' [] 1))"

text \<open>The singleton is discarded only when aclose has returned.\<close>

definition close_telegram_client :: "unit res \<Rightarrow> unit io" where
  "close_telegram_client aclose =
     bindI (getI (\<lambda>w. map_of (w_count w) (''httpx.AsyncClient'', [])))
       (\<lambda>c. whenI (c \<noteq> None)
          (thenI (liftI aclose) (updI (\<lambda>w. w\<lparr>w_count := AList.delete (''httpx.AsyncClient'', []) (w_count w)\<rparr>))))"

lemma close_then_get:
  "\<exists>w'. close_telegram_client (Inr ()) w = (Inr (), w') \<and> map_of (w_count w') (''httpx.AsyncClient'', []) = None \<and>
    close_telegram_client r w' = (Inr (), w')"
  by (cases "map_of (w_count w) (''httpx.AsyncClient'', [])")
    (simp_all add: close_telegram_client_def io_defs bindI_def thenI_def delete_conv')

definition raise_for_status :: "int \<Rightarrow> unit res" where
  "raise_for_status status = guardE (200 \<le> status \<and> status < 300) (HTTPStatusError status)"

definition send_telegram_alert ::
  "telegram_settings option \<Rightarrow> string \<Rightarrow> string \<Rightarrow> unit io" where
  "send_telegram_alert tg severity body =
     (case tg of
        None \<Rightarrow>
          logI ''telegram.skipped''
            [(''reason'', WStr ''telegram not configured in settings''),
             (''severity'', WStr severity), (''body_preview'', WStr (take 200 body))]
      | Some _ \<Rightarrow>
          catchI
            (thenI get_telegram_client
            (bindI readI (\<lambda>r.
             thenI (updI (\<lambda>w. w\<lparr>w_posts := w_posts w @ [alert_text severity body]\<rparr>))
             (bindI (liftI (rd_http r)) (\<lambda>status.
              liftI (raise_for_status status))))))
            (\<lambda>e. logI ''telegram.send.failed''
               [(''severity'', WStr severity), (''exc_info'', WStr (exc_name e))]))"

context ingest_invariant
begin

lemma keeps_alert: "keeps I (send_telegram_alert tg severity body)"
  unfolding send_telegram_alert_def get_telegram_client_def
  by (intro keeps_intros primitives)

end

lemma send_result:
  "fst (send_telegram_alert tg severity body w) = Inr () \<or>
   fst (send_telegram_alert tg severity body w) = Inl CancelledError"
  by (auto simp: send_telegram_alert_def io_defs logI_def is_Exception_def
      split: option.splits prod.splits sum.splits)

text \<open>Sending an alert never raises an ordinary exception, whatever the HTTP client answers:
  only a cancellation of the surrounding task escapes; the database and the gauges are left
  as they were.\<close>

theorem send_never_raises:
  "(fst (send_telegram_alert tg severity body w) \<in> {Inr (), Inl CancelledError}) \<and>
   w_db (snd (send_telegram_alert tg severity body w)) = w_db w \<and>
   w_fresh (snd (send_telegram_alert tg severity body w)) = w_fresh w"
proof -
  have "keeps (\<lambda>v. w_db v = w_db w \<and> w_fresh v = w_fresh w) (send_telegram_alert tg severity body)"
    unfolding send_telegram_alert_def get_telegram_client_def
    by (intro keeps_intros) (auto simp: keeps_def io_defs readI_def logI_def incI_def)
  then show ?thesis using send_result [of tg severity body w] by (auto simp: keeps_def)
qed

text \<open>A configured alert posts exactly one message: the severity prefix, a bar and the body,
  cut to 4000 code points, and never longer than the 4096 the Bot API accepts.\<close>

theorem send_posts_once:
  "w_posts (snd (send_telegram_alert (Some t) severity body w)) = w_posts w @ [alert_text severity body]
   \<and> length (alert_text severity body) \<le> 4000
   \<and> (length body \<le> 3980 \<and> severity \<in> {''warn'', ''crit'', ''info''} \<longrightarrow>
      (\<exists>p. alert_text severity body = p @ code_points body))"
proof -
  have "(\<exists>p. alert_text severity body = p @ code_points body)"
    if "length body \<le> 3980" "severity \<in> {''warn'', ''crit'', ''info''}"
    using that by (auto simp: alert_text_def SEVERITY_PREFIX_def MAX_MESSAGE_LEN_def code_points_def)
  then show ?thesis
    by (auto simp: send_telegram_alert_def get_telegram_client_def io_defs readI_def logI_def incI_def
        alert_text_def MAX_MESSAGE_LEN_def
        split: option.splits prod.splits sum.splits)
qed

lemma send_posts_once_witness:
  "\<exists>p. alert_text ''warn'' ''stale'' = p @ code_points ''stale''"
  using send_posts_once [where severity = "''warn''" and body = "''stale''"] by simp

end
