(* ===== verification/Freshness.thy ===== *)
theory Freshness
  imports Telegram
begin

text \<open>
  The freshness monitor: src/shortfire/ingest/freshness (gauges.py, alerter.py), the gauge
  check of the stream watchdog (mexc/streams.py) and the dead-letter spike alerter
  (dead_letter/alerter.py). The module-level set \<open>_degraded_set\<close> is a list that the job
  takes and returns; a Python set is kept as a list without repetitions.
\<close>

type_synonym fkey = "string \<times> string \<times> string"

definition EXPECTED_LAG :: "((string \<times> string) \<times> int) list" where
  "EXPECTED_LAG =
    [((''mexc_native'', ''candles_1m''), 90),
     ((''mexc_native'', ''funding''), 8 * 3600),
     ((''mexc_native'', ''oi''), 5 * 60),
     ((''mexc_native'', ''l2_top20''), 30),
     ((''mexc_native'', ''trades''), 90),
     ((''mexc_native'', ''liquidations''), 5 * 60),
     ((''coinglass_aggregate'', ''funding_agg''), 6 * 60),
     ((''coinglass_aggregate'', ''oi''), 6 * 60),
     ((''coinglass_aggregate'', ''liq''), 12 * 60),
     ((''coinglass_aggregate'', ''lsr''), 18 * 60),
     ((''coingecko'', ''market''), 25 * 3600)]"

definition expected_lag :: "string \<Rightarrow> string \<Rightarrow> int" where
  "expected_lag source dataset =
     (case map_of EXPECTED_LAG (source, dataset) of None \<Rightarrow> 600 | Some e \<Rightarrow> e)"

section \<open>Gauges\<close>

text \<open>\<open>update_freshness_gauge\<close>: one reading of the clock for all symbols; empty records are ignored.\<close>

definition update_freshness_gauge :: "string \<Rightarrow> string \<Rightarrow> cell list list \<Rightarrow> unit io" where
  "update_freshness_gauge source dataset records =
     (let seen = remdups (map (label_of_cell \<circ> hd) (filter (\<lambda>r. r \<noteq> []) records)) in
      if seen = [] then retI ()
      else bindI readI (\<lambda>r.
        thenI (forI seen (\<lambda>sy. freshI source dataset sy (rd_time r)))
          (logI ''freshness.gauge.updated''
            [(''source'', WStr source), (''dataset'', WStr dataset),
             (''n_symbols'', WInt (int (length seen)))])))"

section \<open>The alerter job\<close>

definition lag_of :: "rat \<Rightarrow> rat \<Rightarrow> rat" where
  "lag_of now gauge = fl (now - gauge)"

definition stale :: "rat \<Rightarrow> fkey \<times> rat \<Rightarrow> bool" where
  "stale now s = (case s of ((source, dataset, sy), g) \<Rightarrow>
     \<not> g \<le> 0 \<and> lag_of now g > of_int (2 * expected_lag source dataset))"

definition stale_message :: "rat \<Rightarrow> fkey \<times> rat \<Rightarrow> string" where
  "stale_message now s = (case s of ((source, dataset, sy), g) \<Rightarrow>
     ''stale: '' @ source @ ''/'' @ dataset @ ''/'' @ sy @ '' lag='' @ show_int (py_int (lag_of now g))
     @ ''s threshold='' @ show_int (2 * expected_lag source dataset) @ ''s'')"

definition degraded_entry :: "rat \<Rightarrow> fkey \<times> rat \<Rightarrow> log_entry" where
  "degraded_entry now s = (case s of ((source, dataset, sy), g) \<Rightarrow>
     (''freshness.degraded'',
      [(''source'', WStr source), (''dataset'', WStr dataset), (''symbol'', WStr sy),
       (''lag_s'', WInt (py_int (lag_of now g))),
       (''threshold_s'', WInt (2 * expected_lag source dataset)),
       (''expected_s'', WInt (expected_lag source dataset))]))"

definition recovered_entry :: "fkey \<Rightarrow> log_entry" where
  "recovered_entry k = (case k of (source, dataset, sy) \<Rightarrow>
     (''freshness.recovered'',
      [(''source'', WStr source), (''dataset'', WStr dataset), (''symbol'', WStr sy)]))"

definition set_add :: "'a \<Rightarrow> 'a list \<Rightarrow> 'a list" where
  "set_add x xs = (if x \<in> set xs then xs else xs @ [x])"

definition check_sample ::
  "telegram_settings option \<Rightarrow> rat \<Rightarrow> fkey list \<Rightarrow> fkey list \<Rightarrow> fkey \<times> rat \<Rightarrow> fkey list io" where
  "check_sample tg now degraded current s =
     (if stale now s then
        thenI
          (whenI (fst s \<notin> set degraded)
            (thenI (eventI ''freshness.degraded'' (snd (degraded_entry now s)))
                   (send_telegram_alert tg ''warn'' (stale_message now s))))
          (retI (set_add (fst s) current))
      else retI current)"

definition freshness_check_job :: "telegram_settings option \<Rightarrow> fkey list \<Rightarrow> fkey list io" where
  "freshness_check_job tg degraded =
     bindI readI (\<lambda>r.
     bindI (getI w_fresh) (\<lambda>samples.
     bindI (foldI (check_sample tg (rd_time r) degraded) [] samples) (\<lambda>current.
     thenI (forI (filter (\<lambda>k. k \<notin> set current) degraded)
              (\<lambda>k. eventI ''freshness.recovered'' (snd (recovered_entry k))))
       (retI current))))"

section \<open>The stream watchdog\<close>

definition HEARTBEAT_TIMEOUT_S :: rat where
  "HEARTBEAT_TIMEOUT_S = 60"

definition stream_names :: "string list" where
  "stream_names = [''candles_1m'', ''funding'', ''trades'', ''l2_top20'', ''liquidations'']"

definition watch_sample :: "string list \<Rightarrow> rat \<Rightarrow> fkey \<times> rat \<Rightarrow> unit io" where
  "watch_sample names now s = (case s of ((source, dataset, sy), g) \<Rightarrow>
     whenI (source = ''mexc_native'' \<and> dataset \<in> set names \<and> \<not> g \<le> 0
            \<and> lag_of now g > HEARTBEAT_TIMEOUT_S)
       (thenI (eventI ''ws.stale''
          [(''source'', WStr ''mexc_native''), (''stream'', WStr dataset),
           (''lag_s'', WInt (py_int (lag_of now g))), (''threshold_s'', WInt 60)])
        (raiseI (RuntimeError (''mexc_native/'' @ dataset @ '' stale '' @
           show_int (py_int (lag_of now g)) @ ''s > 60.0s - respawn'')))))"

definition watchdog_tick :: "string list \<Rightarrow> unit io" where
  "watchdog_tick names =
     bindI readI (\<lambda>r. bindI (getI w_fresh) (\<lambda>samples. forI samples (watch_sample names (rd_time r))))"

section \<open>The dead-letter alerter\<close>

definition DEAD_LETTER_THRESHOLD_PER_HOUR :: nat where
  "DEAD_LETTER_THRESHOLD_PER_HOUR = 10"

text \<open>
  The grouped query: groups of the rows of the last hour, those with more than the threshold,
  largest first; ties keep the order of first appearance.
\<close>

definition recent_groups :: "int \<Rightarrow> table_schema \<Rightarrow> cell list list \<Rightarrow> (cell \<times> cell) list" where
  "recent_groups now sch rows =
     map (\<lambda>r. (cell_of sch r ''source'', cell_of sch r ''error_type''))
       (filter (\<lambda>r. case cell_of sch r ''ts'' of CTs t \<Rightarrow> now - 3600 * 1000000 \<le> t | _ \<Rightarrow> False) rows)"

definition offenders :: "int \<Rightarrow> table_schema \<Rightarrow> cell list list \<Rightarrow> ((cell \<times> cell) \<times> nat) list" where
  "offenders now sch rows =
     (let gs = recent_groups now sch rows in
      sort_key (\<lambda>g. - int (snd g))
        (filter (\<lambda>g. DEAD_LETTER_THRESHOLD_PER_HOUR < snd g)
          (map (\<lambda>g. (g, count_list gs g)) (remdups gs))))"

definition newline :: string where
  "newline = [char_of (10::nat)]"

definition offender_line :: "(cell \<times> cell) \<times> nat \<Rightarrow> string" where
  "offender_line g = (case g of ((src, et), n) \<Rightarrow>
     newline @ ''  '' @ label_of_cell src @ '' / '' @ label_of_cell et @ '': '' @ show_nat n)"

definition dead_letter_alerter_job :: "telegram_settings option \<Rightarrow> unit io" where
  "dead_letter_alerter_job tg =
     bindI readI (\<lambda>r.
     bindI (getI w_db) (\<lambda>d.
       case d ''dead_letter'' of
         None \<Rightarrow> raiseI (DbError (UndefinedTable ''dead_letter''))
       | Some ts \<Rightarrow>
           (let off = offenders (tx_now (rd_tx r)) (t_schema ts) (t_rows ts) in
            whenI (off \<noteq> [])
              (thenI (send_telegram_alert tg ''warn''
                 (''dead_letter spike (last 1h):'' @ concat (map offender_line off)))
              (thenI (liftI (assert_event_registered ''ingest.dead_letter''))
                 (logI ''dead_letter.alert.fired''
                    [(''offenders'', WInt (int (length off)))]))))))"

section \<open>What the job reports\<close>

context ingest_invariant
begin

lemma keeps_update_freshness_gauge: "keeps I (update_freshness_gauge source dataset records)"
  unfolding update_freshness_gauge_def Let_def by (intro keeps_intros primitives)

lemma keeps_check_sample: "keeps I (check_sample tg now degraded current s)"
  unfolding check_sample_def by (intro keeps_intros primitives keeps_eventI keeps_alert)

lemma keeps_freshness_check_job: "keeps I (freshness_check_job tg degraded)"
  unfolding freshness_check_job_def
  by (intro keeps_intros primitives keeps_eventI keeps_check_sample)

lemma keeps_dead_letter_alerter_job: "keeps I (dead_letter_alerter_job tg)"
  unfolding dead_letter_alerter_job_def Let_def by (intro keeps_intros primitives keeps_alert)

end

definition log_of :: "string \<Rightarrow> world \<Rightarrow> log_entry list" where
  "log_of name w = filter (\<lambda>e. fst e = name) (w_log w)"

definition no_cancel :: "env \<Rightarrow> bool" where
  "no_cancel e \<longleftrightarrow> (\<forall>n. rd_http (e_read e n) \<noteq> Inl CancelledError)"

lemma send_frame:
  assumes "send_telegram_alert tg severity body w = (r, w')"
  shows "w_env w' = w_env w" "w_fresh w' = w_fresh w"
    and "name \<notin> {''telegram.skipped'', ''telegram.send.failed''} \<Longrightarrow> log_of name w' = log_of name w"
    and "w_posts w' = (case tg of None \<Rightarrow> w_posts w | Some _ \<Rightarrow> w_posts w @ [alert_text severity body])"
    and "no_cancel (w_env w) \<Longrightarrow> r = Inr ()"
  using assms
  by (auto simp: send_telegram_alert_def get_telegram_client_def io_defs readI_def logI_def incI_def
      log_of_def no_cancel_def raise_for_status_def guardE_def is_Exception_def
      split: option.splits prod.splits sum.splits if_splits)

lemma eventI_registered:
  "name \<in> set EVENTS \<Longrightarrow> eventI name fs w = (Inr (), w\<lparr>w_log := w_log w @ [(name, fs)]\<rparr>)"
  by (simp add: eventI_def io_defs logI_def)

lemma freshness_events: "''freshness.degraded'' \<in> set EVENTS" "''freshness.recovered'' \<in> set EVENTS"
  "''ws.stale'' \<in> set EVENTS"
  by (simp_all add: EVENTS_def)

lemma degraded_entry_name: "degraded_entry now s = (''freshness.degraded'', snd (degraded_entry now s))"
  by (auto simp: degraded_entry_def split: prod.splits)

lemma recovered_entry_name: "recovered_entry k = (''freshness.recovered'', snd (recovered_entry k))"
  by (auto simp: recovered_entry_def split: prod.splits)

text \<open>The samples a pass reports: stale, and not reported since they were last fresh.\<close>

definition newly_stale :: "rat \<Rightarrow> fkey list \<Rightarrow> (fkey \<times> rat) list \<Rightarrow> (fkey \<times> rat) list" where
  "newly_stale now degraded samples = filter (\<lambda>s. stale now s \<and> fst s \<notin> set degraded) samples"

lemma log_of_snoc: "log_of name (w\<lparr>w_log := w_log w @ [e]\<rparr>) = log_of name w @ (if fst e = name then [e] else [])"
  by (simp add: log_of_def)

lemma fst_degraded_entry: "fst (degraded_entry now s) = ''freshness.degraded''"
  by (simp add: degraded_entry_def split: prod.splits)

lemma send_frame_freshness:
  assumes "send_telegram_alert tg severity body w = (r, w')"
  shows "log_of ''freshness.degraded'' w' = log_of ''freshness.degraded'' w"
    and "log_of ''freshness.recovered'' w' = log_of ''freshness.recovered'' w"
  using send_frame(3) [OF assms] by simp_all

lemma check_sample_step:
  assumes "check_sample tg now degraded current s w = (Inr current', w')"
  shows "current' = (if stale now s then set_add (fst s) current else current)"
    "w_env w' = w_env w" "w_fresh w' = w_fresh w"
    "log_of ''freshness.degraded'' w' = log_of ''freshness.degraded'' w
       @ map (degraded_entry now) (newly_stale now degraded [s])"
    "log_of ''freshness.recovered'' w' = log_of ''freshness.recovered'' w"
    "tg = Some t \<Longrightarrow> w_posts w' = w_posts w
       @ map (\<lambda>s. alert_text ''warn'' (stale_message now s)) (newly_stale now degraded [s])"
proof -
  let ?w1 = "w\<lparr>w_log := w_log w @ [(''freshness.degraded'', snd (degraded_entry now s))]\<rparr>"
  consider (quiet) "newly_stale now degraded [s] = []" "w' = w"
      "current' = (if stale now s then set_add (fst s) current else current)"
    | (fire) "newly_stale now degraded [s] = [s]" "stale now s" "current' = set_add (fst s) current"
      "send_telegram_alert tg ''warn'' (stale_message now s) ?w1 = (Inr (), w')"
    using assms
    by (auto simp: check_sample_def eventI_registered [OF freshness_events(1)] newly_stale_def
        thenI_def bindI_def whenI_def retI_def split: if_splits prod.splits sum.splits)
  note step = this
  have e: "(''freshness.degraded'', snd (degraded_entry now s)) = degraded_entry now s"
    using degraded_entry_name [of now s] by simp
  show "current' = (if stale now s then set_add (fst s) current else current)"
    "w_env w' = w_env w" "w_fresh w' = w_fresh w"
    "log_of ''freshness.degraded'' w' = log_of ''freshness.degraded'' w
       @ map (degraded_entry now) (newly_stale now degraded [s])"
    "log_of ''freshness.recovered'' w' = log_of ''freshness.recovered'' w"
    by (cases rule: step; auto dest: send_frame(1,2) simp: send_frame_freshness log_of_snoc e fst_degraded_entry)+
  show "tg = Some t \<Longrightarrow> w_posts w' = w_posts w
       @ map (\<lambda>s. alert_text ''warn'' (stale_message now s)) (newly_stale now degraded [s])"
    by (cases rule: step; auto dest: send_frame(4))
qed

lemma newly_stale_Cons: "newly_stale now degraded (s # ss) = newly_stale now degraded [s] @ newly_stale now degraded ss"
  by (simp add: newly_stale_def)

lemma check_samples:
  assumes "foldI (check_sample tg now degraded) current samples w = (Inr current', w')"
  shows "current' = fold set_add (map fst (filter (stale now) samples)) current \<and>
    w_env w' = w_env w \<and> w_fresh w' = w_fresh w \<and>
    log_of ''freshness.degraded'' w' = log_of ''freshness.degraded'' w
      @ map (degraded_entry now) (newly_stale now degraded samples) \<and>
    log_of ''freshness.recovered'' w' = log_of ''freshness.recovered'' w \<and>
    (tg \<noteq> None \<longrightarrow> w_posts w' = w_posts w
      @ map (\<lambda>s. alert_text ''warn'' (stale_message now s)) (newly_stale now degraded samples))"
  using assms
proof (induction samples arbitrary: current w)
  case Nil
  then show ?case by (simp add: retI_def newly_stale_def)
next
  case (Cons s ss)
  from Cons.prems obtain c1 w1 where s1: "check_sample tg now degraded current s w = (Inr c1, w1)"
    and ss: "foldI (check_sample tg now degraded) c1 ss w1 = (Inr current', w')"
    by (auto simp: bindI_def split: prod.splits sum.splits)
  show ?case
    using check_sample_step [OF s1] Cons.IH [OF ss] unfolding newly_stale_Cons [of now degraded s ss] by auto
qed

lemma set_add_fold: "set (fold set_add xs ys) = set xs \<union> set ys"
  by (induction xs arbitrary: ys) (auto simp: set_add_def)

lemma recovered_events:
  "forI ks (\<lambda>k. eventI ''freshness.recovered'' (snd (recovered_entry k))) w =
     (Inr (), w\<lparr>w_log := w_log w @ map recovered_entry ks\<rparr>)"
proof (induction ks arbitrary: w)
  case Nil
  then show ?case by (simp add: retI_def)
next
  case (Cons k ks)
  then show ?case using recovered_entry_name [of k]
    by (simp add: thenI_def bindI_def eventI_registered [OF freshness_events(2)])
qed

lemma check_samples_total:
  assumes "no_cancel (w_env w)"
  shows "\<exists>c w'. foldI (check_sample tg now degraded) current samples w = (Inr c, w')"
  using assms
proof (induction samples arbitrary: current w)
  case Nil
  then show ?case by (simp add: retI_def)
next
  case (Cons s ss)
  let ?w1 = "w\<lparr>w_log := w_log w @ [(''freshness.degraded'', snd (degraded_entry now s))]\<rparr>"
  obtain r w2 where send: "send_telegram_alert tg ''warn'' (stale_message now s) ?w1 = (r, w2)"
    by (cases "send_telegram_alert tg ''warn'' (stale_message now s) ?w1")
  have r: "r = Inr ()" "w_env w2 = w_env w"
    using send_frame(5) [OF send] send_frame(1) [OF send] Cons.prems by auto
  have "\<exists>c1 w1. check_sample tg now degraded current s w = (Inr c1, w1) \<and> w_env w1 = w_env w"
    using send r
    by (auto simp: check_sample_def eventI_registered [OF freshness_events(1)] thenI_def bindI_def
        whenI_def retI_def)
  then show ?case using Cons by (fastforce simp: bindI_def)
qed

text \<open>C22: One pass of the freshness job, unless it is cancelled, returns; it then remembers exactly
  the stale samples as degraded, logs and alerts exactly those that were not already degraded,
  in gauge order, and logs a recovery for exactly the degraded keys that are not stale any more:
  an outage is reported once when it begins and once when it ends.\<close>

theorem freshness_job_transitions:
  assumes "no_cancel (w_env w)"
  shows "\<exists>degraded' w'. freshness_check_job tg degraded w = (Inr degraded', w') \<and>
    (let now = rd_time (e_read (w_env w) (w_pos w)) in
     set degraded' = fst ` {s \<in> set (w_fresh w). stale now s} \<and>
     log_of ''freshness.degraded'' w' = log_of ''freshness.degraded'' w
       @ map (degraded_entry now) (newly_stale now degraded (w_fresh w)) \<and>
     log_of ''freshness.recovered'' w' = log_of ''freshness.recovered'' w
       @ map recovered_entry (filter (\<lambda>k. k \<notin> set degraded') degraded) \<and>
     (tg \<noteq> None \<longrightarrow> w_posts w' = w_posts w
       @ map (\<lambda>s. alert_text ''warn'' (stale_message now s)) (newly_stale now degraded (w_fresh w))))"
proof -
  let ?now = "rd_time (e_read (w_env w) (w_pos w))" and ?w = "w\<lparr>w_pos := Suc (w_pos w)\<rparr>"
  obtain c w1 where f: "foldI (check_sample tg ?now degraded) [] (w_fresh w) ?w = (Inr c, w1)"
    using check_samples_total [of ?w tg ?now degraded "[]" "w_fresh w"] assms by auto
  have job: "freshness_check_job tg degraded w =
      (Inr c, w1\<lparr>w_log := w_log w1 @ map recovered_entry (filter (\<lambda>k. k \<notin> set c) degraded)\<rparr>)"
    using f by (simp add: freshness_check_job_def readI_def bindI_def getI_def thenI_def retI_def
        recovered_events)
  have logs: "log_of n (w1\<lparr>w_log := w_log w1 @ map recovered_entry ks\<rparr>) =
      log_of n w1 @ (if n = ''freshness.recovered'' then map recovered_entry ks else [])" for n ks
    by (auto simp: log_of_def recovered_entry_def filter_empty_conv split: prod.splits intro!: filter_True)
  have pos: "log_of n ?w = log_of n w" for n by (simp add: log_of_def)
  show ?thesis
    using check_samples [OF f] by (auto simp: job logs pos set_add_fold Let_def)
qed

definition stale_world :: world where
  "stale_world = (calm_world 10000 Map.empty)
     \<lparr>w_fresh := [((''mexc_native'', ''trades'', ''BTC''), 9000), ((''mexc_native'', ''oi'', ''BTC''), 9990)]\<rparr>"

lemma freshness_job_transitions_witness:
  "\<exists>degraded' w'. freshness_check_job None [] stale_world = (Inr degraded', w') \<and>
     set degraded' = fst ` {s \<in> set (w_fresh stale_world). stale 10000 s}"
  using freshness_job_transitions [of stale_world None "[]"]
  by (auto simp: no_cancel_def stale_world_def Let_def)

text \<open>A gauge at zero or below is invisible to the monitor: it is never stale, whatever the
  clock says, and a stream watchdog that sees only such gauges never fires. The sentinel 0
  that the liquidations stream writes when it is degraded therefore raises no alert.\<close>

theorem sentinel_gauge_silent:
  "(g \<le> 0 \<longrightarrow> \<not> stale now (k, g)) \<and>
   ((\<forall>s \<in> set (w_fresh w). snd s \<le> 0) \<longrightarrow>
     fst (watchdog_tick names w) = Inr () \<and> w_log (snd (watchdog_tick names w)) = w_log w)"
proof -
  have "forI samples (watch_sample names now) w' = (Inr (), w')"
    if "\<forall>s \<in> set samples. snd s \<le> 0" for samples now w'
    using that by (induction samples)
      (auto simp: watch_sample_def whenI_def thenI_def bindI_def retI_def split: prod.splits)
  then show ?thesis
    by (auto simp: stale_def watchdog_tick_def readI_def getI_def bindI_def split: prod.splits)
qed

lemma sentinel_gauge_silent_witness:
  "\<not> stale 1000000 ((''mexc_native'', ''liquidations'', ''BTC''), 0) \<and>
   fst (watchdog_tick stream_names (stale_world\<lparr>w_fresh := [((''mexc_native'', ''liquidations'', ''BTC''), 0)]\<rparr>))
     = Inr ()"
  using sentinel_gauge_silent [of 0 1000000 "(''mexc_native'', ''liquidations'', ''BTC'')"
      "stale_world\<lparr>w_fresh := [((''mexc_native'', ''liquidations'', ''BTC''), 0)]\<rparr>" stream_names]
  by simp

definition watch_hit :: "string list \<Rightarrow> rat \<Rightarrow> fkey \<times> rat \<Rightarrow> bool" where
  "watch_hit names now s = (case s of ((source, dataset, sy), g) \<Rightarrow>
     source = ''mexc_native'' \<and> dataset \<in> set names \<and> 0 < g \<and> lag_of now g > 60)"

lemma watch_sample_hit:
  "watch_hit names now s \<Longrightarrow> \<exists>msg fs. watch_sample names now s w =
     (Inl (RuntimeError msg), w\<lparr>w_log := w_log w @ [(''ws.stale'', fs)]\<rparr>) \<and>
     map_of fs ''stream'' = Some (WStr (fst (snd (fst s))))"
  by (auto simp: watch_hit_def watch_sample_def HEARTBEAT_TIMEOUT_S_def whenI_def thenI_def bindI_def
      raiseI_def eventI_registered [OF freshness_events(3)] split: prod.splits)

lemma watch_sample_miss: "\<not> watch_hit names now s \<Longrightarrow> watch_sample names now s w = (Inr (), w)"
  by (auto simp: watch_hit_def watch_sample_def HEARTBEAT_TIMEOUT_S_def whenI_def retI_def split: prod.splits)

lemma watch_samples:
  "(filter (watch_hit names now) samples = [] \<longrightarrow> forI samples (watch_sample names now) w = (Inr (), w)) \<and>
   (\<forall>h hs. filter (watch_hit names now) samples = h # hs \<longrightarrow>
     (\<exists>msg fs. forI samples (watch_sample names now) w =
        (Inl (RuntimeError msg), w\<lparr>w_log := w_log w @ [(''ws.stale'', fs)]\<rparr>) \<and>
        map_of fs ''stream'' = Some (WStr (fst (snd (fst h))))))"
proof (induction samples)
  case Nil
  then show ?case by (simp add: retI_def)
next
  case (Cons s ss)
  show ?case
  proof (cases "watch_hit names now s")
    case True
    then show ?thesis using watch_sample_hit [OF True, of w] by (auto simp: thenI_def bindI_def)
  next
    case False
    then show ?thesis using Cons by (simp add: thenI_def bindI_def watch_sample_miss)
  qed
qed

text \<open>A watchdog pass returns quietly when no supervised MEXC gauge is older than 60 seconds;
  otherwise it raises RuntimeError after exactly one ws.stale event, which names the first
  such stream.\<close>

lemma watchdog_tick_correct:
  "let now = rd_time (e_read (w_env w) (w_pos w));
       hits = filter (watch_hit names now) (w_fresh w);
       result = watchdog_tick names w
   in case hits of
        [] \<Rightarrow> fst result = Inr () \<and> w_log (snd result) = w_log w
      | h # _ \<Rightarrow> \<exists>msg fs. fst result = Inl (RuntimeError msg) \<and>
          w_log (snd result) = w_log w @ [(''ws.stale'', fs)] \<and>
          map_of fs ''stream'' = Some (WStr (fst (snd (fst h))))"
proof -
  let ?now = "rd_time (e_read (w_env w) (w_pos w))" and ?w = "w\<lparr>w_pos := Suc (w_pos w)\<rparr>"
  have "watchdog_tick names w = forI (w_fresh w) (watch_sample names ?now) ?w"
    by (simp add: watchdog_tick_def readI_def getI_def bindI_def)
  then show ?thesis
    using watch_samples [of names ?now "w_fresh w" ?w] by (auto simp: Let_def split: list.splits)
qed

section \<open>The spike query\<close>

text \<open>The dead-letter alerter names a group exactly when more than ten of the rows of the last
  hour carry its source and error type, each group once, with its count.\<close>

theorem offenders_correct:
  "(((src, et), n) \<in> set (offenders now sch rows) \<longleftrightarrow>
     n = length (filter (\<lambda>r. cell_of sch r ''source'' = src \<and> cell_of sch r ''error_type'' = et \<and>
           (\<exists>t. cell_of sch r ''ts'' = CTs t \<and> now - 3600000000 \<le> t)) rows) \<and> 10 < n) \<and>
   distinct (map fst (offenders now sch rows)) \<and>
   sorted_wrt (\<lambda>g h. snd h \<le> snd g) (offenders now sch rows)"
proof -
  let ?gs = "recent_groups now sch rows"
  have cnt: "count_list ?gs (src, et) =
      length (filter (\<lambda>r. cell_of sch r ''source'' = src \<and> cell_of sch r ''error_type'' = et \<and>
           (\<exists>t. cell_of sch r ''ts'' = CTs t \<and> now - 3600000000 \<le> t)) rows)"
    by (induction rows) (auto simp: recent_groups_def split: cell.splits)
  have "((src, et), n) \<in> set (offenders now sch rows) \<longleftrightarrow> n = count_list ?gs (src, et) \<and> 10 < n"
    by (auto simp: offenders_def Let_def DEAD_LETTER_THRESHOLD_PER_HOUR_def image_iff)
      (metis count_list_0_iff gr_implies_not_zero)
  moreover have "distinct (map fst (offenders now sch rows))"
    by (auto simp: offenders_def Let_def distinct_map inj_on_def)
  moreover have "sorted_wrt (\<lambda>g h. snd h \<le> snd g) (offenders now sch rows)"
    using sorted_sort_key [of "\<lambda>g. - int (snd g)"
      "filter (\<lambda>g. DEAD_LETTER_THRESHOLD_PER_HOUR < snd g) (map (\<lambda>g. (g, count_list ?gs g)) (remdups ?gs))"]
    by (simp add: offenders_def Let_def sorted_map)
  ultimately show ?thesis by (simp add: cnt)
qed

end
