(* ===== verification/Jobs.thy ===== *)
theory Jobs
  imports Coingecko Universe Round_Robin Freshness
begin

text \<open>
  src/shortfire/ingest/scheduler/jobs.py: the job callables over the settings that get_settings
  returns, and the registration of the job graph. What the remote APIs answer is an argument of
  each job; closing a client is I/O without an effect here. The daily gap repair and the backup
  have their own theories, Gap_Sweep and Backup_Job.
\<close>

section \<open>Universe and CoinGecko\<close>

definition skipped :: "string \<Rightarrow> string \<Rightarrow> unit io" where
  "skipped event reason = logI event [(''reason'', WStr reason)]"

definition universe_snapshot_job_callable ::
  "data_platform_settings \<Rightarrow> (string list \<Rightarrow> string list) \<Rightarrow> (string \<times> wdict) list res \<Rightarrow> unit io" where
  "universe_snapshot_job_callable s enum tickers =
     (if mexc s = None then skipped ''scheduler.universe_snapshot.skipped'' ''mexc settings absent''
      else
        bindI (liftI (build_mexc_swap_client s)) (\<lambda>_.
        bindI (universe_snapshot_job enum tickers) (\<lambda>n.
        thenI (recompute_tier1 50)
          (logI ''scheduler.job.universe_snapshot.completed'' [(''rows_written'', WInt (int n))]))))"

definition coingecko_universe_job_callable ::
  "data_platform_settings \<Rightarrow> (string \<Rightarrow> unit res) \<Rightarrow> (wire \<Rightarrow> string res) \<Rightarrow> (nat \<Rightarrow> http_reply res) \<Rightarrow> unit io" where
  "coingecko_universe_job_callable s parse_dt dumps remote =
     (if coingecko s = None then skipped ''scheduler.coingecko.universe.skipped'' ''coingecko not configured''
      else thenI (fetch_and_write_daily parse_dt dumps remote None) (retI ()))"

section \<open>Coinglass\<close>

text \<open>\<open>{r[1]: r[0] for r in rows}\<close>: of two symbols with one Coinglass name the later row wins.\<close>

definition coinglass_mapping :: "db \<Rightarrow> string \<rightharpoonup> string" where
  "coinglass_mapping d =
     map_of (rev (map prod.swap
       (List.map_filter symbol_pair (filter is_active (rows_of d ''symbols'')))))"

definition coinglass_funding_agg_job_callable ::
  "data_platform_settings \<Rightarrow> (nat \<Rightarrow> http_reply res) \<Rightarrow> unit io" where
  "coinglass_funding_agg_job_callable s remote =
     (if coinglass s = None
      then skipped ''scheduler.coinglass.funding_agg.skipped'' ''coinglass not configured''
      else
        bindI (getI (\<lambda>w. coinglass_mapping (w_db w))) (\<lambda>mapping.
        thenI (funding_agg_fetch_and_write remote mapping) (retI ())))"

text \<open>The body the three round-robin jobs share; \<open>write\<close> fetches and stores one symbol.\<close>

definition coinglass_round_robin ::
  "string \<Rightarrow> nat \<Rightarrow> (string \<times> string \<Rightarrow> nat io) \<Rightarrow> (string \<times> string) list \<Rightarrow> unit io" where
  "coinglass_round_robin job_id batch_size write pairs =
     bindI (load_kv_state job_id) (\<lambda>kv.
     thenI (forI (rr_slice kv batch_size pairs) (\<lambda>p. thenI (write p) (retI ())))
       (save_kv_state job_id (rr_advance kv batch_size pairs)))"

definition coinglass_oi_job_callable ::
  "data_platform_settings \<Rightarrow> (string \<Rightarrow> nat \<Rightarrow> http_reply res) \<Rightarrow> unit io" where
  "coinglass_oi_job_callable s remote =
     (if coinglass s = None then skipped ''scheduler.coinglass.oi.skipped'' ''coinglass not configured''
      else
        bindI (getI (\<lambda>w. coinglass_pairs (w_db w))) (\<lambda>pairs.
        if pairs = [] then skipped ''scheduler.coinglass.oi.skipped'' ''no symbols with coinglass_symbol''
        else coinglass_round_robin ''coinglass.oi'' 5 (\<lambda>(u, c). oi_fetch_and_write (remote c) u c) pairs))"

definition coinglass_liq_job_callable ::
  "data_platform_settings \<Rightarrow> (string \<Rightarrow> nat \<Rightarrow> http_reply res) \<Rightarrow> unit io" where
  "coinglass_liq_job_callable s remote =
     (if coinglass s = None then skipped ''scheduler.coinglass.liq.skipped'' ''coinglass not configured''
      else
        bindI (getI (\<lambda>w. coinglass_pairs (w_db w))) (\<lambda>pairs.
        if pairs = [] then retI ()
        else coinglass_round_robin ''coinglass.liq'' 3 (\<lambda>(u, c). liq_fetch_and_write (remote c) u c) pairs))"

definition coinglass_lsr_job_callable ::
  "data_platform_settings \<Rightarrow> (string \<Rightarrow> nat \<Rightarrow> http_reply res) \<Rightarrow> unit io" where
  "coinglass_lsr_job_callable s remote =
     (if coinglass s = None then skipped ''scheduler.coinglass.lsr.skipped'' ''coinglass not configured''
      else
        bindI (getI (\<lambda>w. coinglass_pairs (w_db w))) (\<lambda>pairs.
        if pairs = [] then retI ()
        else coinglass_round_robin ''coinglass.lsr'' 5 (\<lambda>(u, c). lsr_fetch_and_write (remote c) u c) pairs))"

section \<open>MEXC open interest\<close>

definition mexc_oi_poll_job_callable :: "data_platform_settings \<Rightarrow> oi_api \<Rightarrow> unit io" where
  "mexc_oi_poll_job_callable s api =
     (if mexc s = None then skipped ''scheduler.mexc.oi.poll.skipped'' ''mexc settings absent''
      else
        bindI (getI (\<lambda>w. active_by_tier (w_db w))) (\<lambda>symbols.
        if symbols = [] then retI ()
        else
          bindI (load_kv_state ''mexc.oi.poll'') (\<lambda>kv.
          bindI (liftI (build_mexc_swap_client s)) (\<lambda>_.
          bindI (oi_round_robin_step api symbols 10 kv) (\<lambda>kv'.
          save_kv_state ''mexc.oi.poll'' kv')))))"

section \<open>Monitoring\<close>

text \<open>The degraded set of the freshness monitor lives in its module between runs.\<close>

definition freshness_check_job_callable :: "data_platform_settings \<Rightarrow> fkey list \<Rightarrow> fkey list io" where
  "freshness_check_job_callable s degraded = freshness_check_job (telegram s) degraded"

definition dead_letter_alert_job_callable :: "data_platform_settings \<Rightarrow> unit io" where
  "dead_letter_alert_job_callable s = dead_letter_alerter_job (telegram s)"

section \<open>The job graph\<close>

datatype trigger = Interval_Minutes nat | Interval_Hours nat | Cron_UTC nat nat

record schedule =
  sc_id :: string
  sc_callable :: string
  sc_trigger :: trigger
  sc_misfire_grace :: nat

definition job :: "string \<Rightarrow> string \<Rightarrow> trigger \<Rightarrow> nat \<Rightarrow> schedule" where
  "job i f t grace = \<lparr>sc_id = i, sc_callable = f, sc_trigger = t, sc_misfire_grace = grace\<rparr>"

definition job_graph :: "schedule list" where
  "job_graph =
    [job ''coinglass.funding_agg'' ''coinglass_funding_agg_job_callable'' (Interval_Minutes 5) 300,
     job ''coinglass.oi'' ''coinglass_oi_job_callable'' (Interval_Minutes 5) 300,
     job ''coinglass.liq'' ''coinglass_liq_job_callable'' (Interval_Minutes 10) 600,
     job ''coinglass.lsr'' ''coinglass_lsr_job_callable'' (Interval_Minutes 15) 900,
     job ''mexc.oi.poll'' ''mexc_oi_poll_job_callable'' (Interval_Minutes 5) 300,
     job ''freshness.check'' ''freshness_check_job_callable'' (Interval_Minutes 1) 60,
     job ''dead_letter.alert'' ''dead_letter_alert_job_callable'' (Interval_Minutes 5) 300,
     job ''mexc.candles.backfill.1d'' ''mexc_candles_backfill_1d_job_callable'' (Interval_Hours 24) 3600,
     job ''universe.snapshot'' ''universe_snapshot_job_callable'' (Cron_UTC 0 5) 3600,
     job ''coingecko.universe'' ''coingecko_universe_job_callable'' (Cron_UTC 0 30) 3600,
     job ''backup.pg_dump'' ''backup_pg_dump_job_callable'' (Cron_UTC 1 0) 3600]"

text \<open>
  \<open>add\<close> stands for the scheduler's \<open>add_schedule\<close> on its persistent store, with the default
  ConflictPolicy.do_nothing.
\<close>

definition register_all_jobs :: "(schedule \<Rightarrow> 'st \<Rightarrow> 'st) \<Rightarrow> 'st \<Rightarrow> 'st" where
  "register_all_jobs add store = fold add job_graph store"

text \<open>The documented behaviour of that policy on a store seen as the list of its schedules.\<close>

definition do_nothing_policy :: "(schedule \<Rightarrow> schedule list \<Rightarrow> schedule list) \<Rightarrow> bool" where
  "do_nothing_policy add \<longleftrightarrow> (\<forall>sc store. add sc store =
     (if sc_id sc \<in> sc_id ` set store then store else store @ [sc]))"

definition do_nothing_add :: "schedule \<Rightarrow> schedule list \<Rightarrow> schedule list" where
  "do_nothing_add sc store = (if sc_id sc \<in> sc_id ` set store then store else store @ [sc])"

interpretation schedules: first_write do_nothing_add sc_id "\<lambda>store. sc_id ` set store"
  by unfold_locales (auto simp: do_nothing_add_def)

lemma do_nothing_policy_add: "do_nothing_policy add \<Longrightarrow> add = do_nothing_add"
  by (intro ext) (simp add: do_nothing_policy_def do_nothing_add_def)

lemma add_schedules_prefix: "prefix store (fold do_nothing_add scs store)"
proof (induction scs arbitrary: store)
  case (Cons sc scs)
  have "prefix store (do_nothing_add sc store)" by (simp add: do_nothing_add_def)
  then show ?case using Cons.IH [of "do_nothing_add sc store"] prefix_order.trans by fastforce
qed simp

lemma job_graph_ids: "distinct (map sc_id job_graph)" "length job_graph = 11"
  by (simp_all add: job_graph_def job_def)

lemma add_schedules_distinct:
  "distinct (map sc_id store) \<Longrightarrow> distinct (map sc_id (fold do_nothing_add scs store))"
  by (induction scs arbitrary: store) (auto simp: do_nothing_add_def)

lemma register_fresh: "length (fold do_nothing_add job_graph []) = card (sc_id ` set job_graph)"
proof -
  have "distinct (map sc_id (fold do_nothing_add job_graph []))" by (rule add_schedules_distinct) simp
  then have "length (fold do_nothing_add job_graph []) = card (sc_id ` set (fold do_nothing_add job_graph []))"
    using distinct_card [of "map sc_id (fold do_nothing_add job_graph [])"] by simp
  then show ?thesis using schedules.keys_fold [of job_graph "[]"] by simp
qed

text \<open>Registration is idempotent and never overrides: registering the job graph again changes nothing, the
  eleven ids are all present once afterwards, and a schedule that the persistent store already
  holds keeps its old trigger and callable, so a changed interval in the source does not reach a
  deployed scheduler.\<close>

theorem register_all_jobs_idempotent:
  assumes "do_nothing_policy add"
  shows "register_all_jobs add (register_all_jobs add store) = register_all_jobs add store \<and>
   prefix store (register_all_jobs add store) \<and>
   sc_id ` set (register_all_jobs add store) = sc_id ` set store \<union> sc_id ` set job_graph \<and>
   card (sc_id ` set job_graph) = 11 \<and> length (register_all_jobs add []) = 11"
proof -
  have "card (sc_id ` set job_graph) = 11"
    using distinct_card [OF job_graph_ids(1)] job_graph_ids(2) by simp
  then show ?thesis
    using schedules.fold_idem [of job_graph store] schedules.keys_fold [of job_graph store]
    by (simp add: do_nothing_policy_add [OF assms] register_all_jobs_def register_fresh add_schedules_prefix)
qed

lemma register_all_jobs_idempotent_witness:
  "prefix [job ''coinglass.oi'' ''old'' (Interval_Minutes 60) 300]
     (register_all_jobs do_nothing_add [job ''coinglass.oi'' ''old'' (Interval_Minutes 60) 300])"
  using register_all_jobs_idempotent [of do_nothing_add "[job ''coinglass.oi'' ''old'' (Interval_Minutes 60) 300]"]
  by (simp add: do_nothing_policy_def do_nothing_add_def)

section \<open>The open-interest job behind a failing symbol\<close>

lemma oi_job_fails:
  assumes "same_db d w" "stored_kv d ''mexc.oi.poll'' = Inr kv"
    and "sy \<in> set (rr_slice kv 10 (active_by_tier d))"
    and "\<forall>n. \<exists>e. api sy ''1h'' n = Inl e \<and> is_Exception e" "mexc s \<noteq> None"
  shows "(\<exists>e. fst (mexc_oi_poll_job_callable s api w) = Inl e) \<and> same_db d (snd (mexc_oi_poll_job_callable s api w))"
proof -
  have d: "w_db w = d" using assms(1) by (simp add: same_db_def)
  have ne: "active_by_tier d \<noteq> []" using assms(3) by (auto simp: rr_slice_def)
  obtain m where m: "mexc s = Some m" using assms(5) by blast
  have step: "(\<exists>e. fst (oi_round_robin_step api (active_by_tier d) 10 kv w) = Inl e) \<and>
      w_db (snd (oi_round_robin_step api (active_by_tier d) 10 kv w)) = d"
    by (rule oi_step_fails [where api = api and sy = sy, OF assms(1,3,4)])
  then obtain e w' where run: "oi_round_robin_step api (active_by_tier d) 10 kv w = (Inl e, w')" "w_db w' = d"
    by (metis prod.collapse)
  then show ?thesis
    using m ne d assms(1,2)
    by (simp add: mexc_oi_poll_job_callable_def build_mexc_swap_client_def load_kv_state_def getI_def liftI_def
        bindI_def same_db_def)
qed

text \<open>C34: One symbol whose open interest cannot be fetched stops the poll for good: while the stored cursor
  selects a slice with such a symbol, every run of the job raises (the dead-letter write of the
  handler does) before the batch or the advanced cursor is stored, so the next run, and every later
  one, polls the same slice and stores nothing.\<close>

theorem oi_poll_blocked:
  assumes "schema_of (w_db w) ''dead_letter'' = Some tbl_dead_letter"
    and "stored_kv (w_db w) ''mexc.oi.poll'' = Inr kv"
    and "sy \<in> set (rr_slice kv 10 (active_by_tier (w_db w)))"
    and "\<forall>n. \<exists>e. api sy ''1h'' n = Inl e \<and> is_Exception e" "mexc s \<noteq> None"
  shows "(\<exists>e. fst (mexc_oi_poll_job_callable s api (((\<lambda>w. snd (mexc_oi_poll_job_callable s api w)) ^^ k) w)) = Inl e) \<and>
    w_db (((\<lambda>w. snd (mexc_oi_poll_job_callable s api w)) ^^ k) w) = w_db w"
proof -
  let ?d = "w_db w" and ?run = "\<lambda>w. snd (mexc_oi_poll_job_callable s api w)"
  have step: "(\<exists>e. fst (mexc_oi_poll_job_callable s api v) = Inl e) \<and> same_db ?d (?run v)" if "same_db ?d v" for v
    using oi_job_fails [where api = api and sy = sy and kv = kv, OF that assms(2,3,4,5)] .
  have "same_db ?d ((?run ^^ k) w)"
    by (induction k) (use assms(1) step in \<open>auto simp: same_db_def\<close>)
  then show ?thesis using step [of "(?run ^^ k) w"] by (auto simp: same_db_def)
qed

definition blocked_world :: world where
  "blocked_world =
     calm_world 0 (universe_db(''dead_letter'' \<mapsto> \<lparr>t_schema = tbl_dead_letter, t_rows = []\<rparr>))"

lemma blocked_world_facts:
  "schema_of (w_db blocked_world) ''dead_letter'' = Some tbl_dead_letter"
  "stored_kv (w_db blocked_world) ''mexc.oi.poll'' = Inr []"
  "active_by_tier (w_db blocked_world) = [''A/USDT:USDT'']"
  by (simp_all add: blocked_world_def universe_db_def schema_of_def stored_kv_def kv_rows_def rows_of_def newest_def
      active_by_tier_def by_tier_def is_active_def sym_cell_def cell_of_def tbl_symbols_def col_def List.map_filter_def)

lemma oi_poll_blocked_witness:
  "\<exists>e. fst (mexc_oi_poll_job_callable (sample_settings ''p://u@db/x'' ''k'') (\<lambda>_ _ _. Inl TimeoutError)
     (((\<lambda>w. snd (mexc_oi_poll_job_callable (sample_settings ''p://u@db/x'' ''k'') (\<lambda>_ _ _. Inl TimeoutError) w)) ^^ 3)
        blocked_world)) = Inl e"
  using oi_poll_blocked [of blocked_world "[]" "''A/USDT:USDT''" "\<lambda>_ _ _. Inl TimeoutError"
      "sample_settings ''p://u@db/x'' ''k''" 3]
  by (simp add: blocked_world_facts rr_slice_def rr_start_def rr_end_def kv_cursor_def is_Exception_def sample_settings_def
      del: funpow.simps)

section \<open>Coinglass without names\<close>

lemma symbols_kept:
  assumes "\<And>v. keeps (\<lambda>w. w_db w ''symbols'' = v) m"
  shows "keeps (\<lambda>w. symbols_ok (w_db w) \<and> no_coinglass (w_db w)) m"
proof -
  have "w_db (snd (m w)) ''symbols'' = w_db w ''symbols''" for w
    using assms [of "w_db w ''symbols''"] by (simp add: keeps_def)
  then show ?thesis
    using symbols_ok_cong no_coinglass_cong unfolding keeps_def by metis
qed

lemma update_symbols_kept: "keeps (\<lambda>w. symbols_ok (w_db w) \<and> no_coinglass (w_db w)) (update_symbols day news gone)"
  unfolding keeps_def
proof (intro allI impI)
  fix w :: world assume "symbols_ok (w_db w) \<and> no_coinglass (w_db w)"
  then show "symbols_ok (w_db (snd (update_symbols day news gone w))) \<and>
      no_coinglass (w_db (snd (update_symbols day news gone w)))"
    using update_symbols_ok [of w day news gone] by auto
qed

lemma universe_job_kept:
  "keeps (\<lambda>w. symbols_ok (w_db w) \<and> no_coinglass (w_db w)) (universe_snapshot_job enum tickers)"
  unfolding universe_snapshot_job_def snapshot_on_def write_snapshot_def Let_def
  by (intro keeps_intros update_symbols_kept symbols_kept keeps_table keeps_table_eventI keeps_table_dead_letter) simp_all

lemma set_tier_no_coinglass:
  assumes "symbols_ok d" "no_coinglass d" "set_tier member t d = Inr d'"
  shows "symbols_ok d' \<and> no_coinglass d'"
proof -
  obtain ts where ts: "d ''symbols'' = Some ts"
    "\<forall>r\<in>set (t_rows ts). length r = 10 \<and> sym_cell r ''coinglass_symbol'' = CNull"
    using assms(1,2) by (auto simp: symbols_ok_def no_coinglass_def rows_of_def list_all_iff)
  from set_tier_ok [OF assms(1), of member t] assms(3) ts show ?thesis
    by (auto simp: Let_def no_coinglass_def rows_of_def list_all_iff sym_cell_set_cell)
qed

lemma recompute_tier1_kept: "keeps (\<lambda>w. symbols_ok (w_db w) \<and> no_coinglass (w_db w)) (recompute_tier1 n)"
proof -
  have "symbols_ok d' \<and> no_coinglass d'"
    if "symbols_ok d" "no_coinglass d" "bindE (set_tier m 1 d) (set_tier m' 2) = Inr d'" for d d' m m'
  proof -
    from that(3) obtain d1 where "set_tier m 1 d = Inr d1" "set_tier m' 2 d1 = Inr d'"
      by (auto simp: res_simps)
    then show ?thesis using set_tier_no_coinglass that(1,2) by blast
  qed
  then show ?thesis
    by (auto simp: keeps_def recompute_tier1_def readI_def logI_def io_defs split: sum.splits)
qed

lemma universe_callable_kept:
  "keeps (\<lambda>w. symbols_ok (w_db w) \<and> no_coinglass (w_db w)) (universe_snapshot_job_callable s enum tickers)"
  unfolding universe_snapshot_job_callable_def skipped_def
  by (intro keeps_intros universe_job_kept recompute_tier1_kept symbols_kept keeps_table)

lemma coinglass_mapping_empty: "no_coinglass d \<Longrightarrow> coinglass_mapping d = Map.empty"
  by (auto simp: coinglass_mapping_def no_coinglass_def list_all_iff map_filter_def symbol_pair_def filter_empty_conv
      split: option.splits)

lemma keeps_copyI_nil: "keeps I (copyI target [] columns conflict) \<longleftrightarrow> keeps I readI"
  by (simp add: keeps_def copyI_def readI_def bindI_def copy_into_hypertable_def)

lemma funding_untouched:
  assumes "t \<noteq> ''dead_letter''"
  shows "keeps (\<lambda>w. w_db w t = v) (funding_agg_fetch_and_write remote Map.empty)"
proof -
  have c: "keeps (\<lambda>w. w_db w t = v) (callI r)" for r :: "nat \<Rightarrow> http_reply res"
    by (simp add: keeps_def callI_def)
  have k: "keeps (\<lambda>w. w_db w t = v) (raiseI e)" for e :: exc by (rule keeps_intros)
  have r: "keeps (\<lambda>w. w_db w t = v) (case q of Raise_Retry \<Rightarrow> m1 | Dead_Letter_None \<Rightarrow> m2 | Decode \<Rightarrow> m3)"
    if "keeps (\<lambda>w. w_db w t = v) m1" "keeps (\<lambda>w. w_db w t = v) m2" "keeps (\<lambda>w. w_db w t = v) m3"
    for q and m1 m2 m3 :: "wire option io"
    using that by (cases q) simp_all
  have h: "keeps (\<lambda>w. w_db w t = v) (http_call source ep sy wn r)" for source ep sy wn r
    unfolding http_call_def using assms by (intro keeps_intros keeps_table c keeps_table_dead_letter r)
  have g: "keeps (\<lambda>w. w_db w t = v) (validated source ep sy f p)" for source ep sy p
    and f :: "wire \<Rightarrow> funding_rate_row list res"
    unfolding validated_def using assms
    by (auto split: option.split sum.split exc.split intro!: keeps_intros keeps_table keeps_table_dead_letter)
  have "funding_agg_records Map.empty n rows = []" for n rows
    by (simp add: funding_agg_records_def map_filter_def)
  then have cp: "keeps (\<lambda>w. w_db w t = v) (copyI tgt (funding_agg_records Map.empty n rows) cols cf)"
    for tgt n rows cols cf
    by (simp only: keeps_copyI_nil keeps_table_simple)
  show ?thesis
    unfolding funding_agg_fetch_and_write_def fetch_funding_rate_list_def coinglass_fetch_def coinglass_retry_def
      skip_note_def
    by (intro keeps_intros keeps_table_simple h g cp)
qed

text \<open>C35: The Coinglass jobs stay idle: no operation writes coinglass_symbol, so while it is NULL in every row
  (as the universe job leaves it, whatever the exchange lists) the open-interest, liquidation and
  ratio jobs return without a call to the provider, and the funding job, which does call it,
  stores no row.\<close>

theorem coinglass_jobs_idle:
  assumes "symbols_ok (w_db w)" "no_coinglass (w_db w)" "coinglass s \<noteq> None"
  shows "symbols_ok (w_db (snd (universe_snapshot_job_callable s enum tickers w))) \<and>
    no_coinglass (w_db (snd (universe_snapshot_job_callable s enum tickers w))) \<and>
    coinglass_oi_job_callable s remote w =
      skipped ''scheduler.coinglass.oi.skipped'' ''no symbols with coinglass_symbol'' w \<and>
    coinglass_liq_job_callable s remote w = (Inr (), w) \<and>
    coinglass_lsr_job_callable s remote w = (Inr (), w) \<and>
    (\<forall>t. t \<noteq> ''dead_letter'' \<longrightarrow> w_db (snd (coinglass_funding_agg_job_callable s rates w)) t = w_db w t)"
proof -
  have "w_db (snd (coinglass_funding_agg_job_callable s rates w)) t = w_db w t" if "t \<noteq> ''dead_letter''" for t
  proof -
    have "w_db (snd (thenI (funding_agg_fetch_and_write rates Map.empty) (retI ()) w)) t = w_db w t"
      using keeps_thenI [OF funding_untouched [OF that, of "w_db w t" rates] keeps_retI, of "()"]
      by (simp add: keeps_def)
    then show ?thesis
      using assms(2,3)
      by (auto simp: coinglass_funding_agg_job_callable_def bindI_def getI_def coinglass_mapping_empty)
  qed
  moreover have "coinglass_oi_job_callable s remote w =
      skipped ''scheduler.coinglass.oi.skipped'' ''no symbols with coinglass_symbol'' w"
    "coinglass_liq_job_callable s remote w = (Inr (), w)" "coinglass_lsr_job_callable s remote w = (Inr (), w)"
    using assms(2,3)
    by (auto simp: coinglass_oi_job_callable_def coinglass_liq_job_callable_def coinglass_lsr_job_callable_def
        getI_def bindI_def retI_def no_coinglass_pairs)
  ultimately show ?thesis
    using universe_callable_kept [of s enum tickers] assms(1,2) by (auto simp: keeps_def)
qed

lemma universe_db_no_coinglass: "no_coinglass universe_db"
  by (simp add: no_coinglass_def universe_db_def rows_of_def sym_cell_def cell_of_def tbl_symbols_def col_def)

lemma coinglass_jobs_idle_witness:
  "coinglass_lsr_job_callable (sample_settings ''p://u@db/x'' ''k'') (\<lambda>_ _. Inl TimeoutError) universe_world =
     (Inr (), universe_world)"
  using coinglass_jobs_idle [of universe_world "sample_settings ''p://u@db/x'' ''k''" id "Inl TimeoutError"
      "\<lambda>_ _. Inl TimeoutError" "\<lambda>_. Inl TimeoutError"] universe_db_ok universe_db_no_coinglass
  by (simp add: sample_settings_def universe_world_def)

end
