(* ===== verification/Gap_Sweep.thy ===== *)
theory Gap_Sweep
  imports Divergence Jobs
begin

text \<open>
  backfill_universe of src/shortfire/ingest/mexc/backfill.py and the job that runs it once a day
  (mexc_candles_backfill_1d_job_callable in ingest/scheduler/jobs.py). The tasks of the group run
  interleaved: a task's move is one call of the client or of the database, or the acquisition of
  the semaphore, and the list of moves is the schedule the event loop happens to take. A schedule
  that leaves a task unfinished has no result.
\<close>

section \<open>One task\<close>

datatype job_status = Queued | Fetching int nat | Storing "candle list" nat | Done nat | Failed exc | Cancelled

text \<open>Between these two the coroutine is inside \<open>async with semaphore\<close>.\<close>

fun holds :: "job_status \<Rightarrow> bool" where
  "holds (Fetching _ _) = True"
| "holds (Storing _ _) = True"
| "holds _ = False"

fun over :: "job_status \<Rightarrow> bool" where
  "over (Done _) = True"
| "over (Failed _) = True"
| "over Cancelled = True"
| "over _ = False"

definition completed :: "string \<Rightarrow> string \<Rightarrow> nat \<Rightarrow> job_status io" where
  "completed symbol timeframe total_written =
     thenI (logI ''ohlcv.backfill.completed''
              [(''symbol'', WStr symbol), (''timeframe'', WStr timeframe), (''total_written'', WInt (int total_written))])
       (retI (Done total_written))"

text \<open>A move of backfill_ohlcv: what its code does from one of these points to the next.\<close>

fun segment :: "ohlcv_fetch \<Rightarrow> int \<Rightarrow> int \<Rightarrow> string \<times> string \<Rightarrow> job_status \<Rightarrow> job_status io" where
  "segment fetch since until (symbol, timeframe) Queued =
     (case map_of TIMEFRAME_TO_TABLE timeframe of
        None \<Rightarrow>
          thenI (logI ''ohlcv.backfill.skipped_ca_timeframe''
                   [(''symbol'', WStr symbol), (''timeframe'', WStr timeframe)])
            (retI (Done 0))
      | Some target \<Rightarrow>
          (case map_of TIMEFRAME_MS timeframe of
             None \<Rightarrow> raiseI (KeyError timeframe)
           | Some ms_step \<Rightarrow> retI (Fetching (ms_of_ts since) 0)))"
| "segment fetch since until (symbol, timeframe) (Fetching cursor total_written) =
     (if \<not> cursor < ms_of_ts until then completed symbol timeframe total_written
      else
        bindI (liftI (ts_from_ms cursor)) (\<lambda>since_dt.
        bindI (liftI (ts_from_ms (ms_of_ts until))) (\<lambda>until_dt.
        bindI (fetch symbol timeframe since_dt until_dt) (\<lambda>candles.
        if candles = [] then completed symbol timeframe total_written
        else retI (Storing candles total_written)))))"
| "segment fetch since until (symbol, timeframe) (Storing candles total_written) =
     (case (map_of TIMEFRAME_TO_TABLE timeframe, map_of TIMEFRAME_MS timeframe) of
        (Some target, Some ms_step) \<Rightarrow>
          bindI (copyI target (map backfill_record candles) candle_columns candle_conflict) (\<lambda>n.
          retI (Fetching (ms_of_ts (instant (c_ts (last candles))) + ms_step) (total_written + n)))
      | _ \<Rightarrow> raiseI (KeyError timeframe))"
| "segment fetch since until _ st = retI st"

section \<open>The group\<close>

record sweep =
  sw_world :: world
  sw_jobs :: "((string \<times> string) \<times> job_status) list"
  sw_permits :: nat
  sw_abort :: bool

definition sweep_start :: "nat \<Rightarrow> string list \<Rightarrow> string list \<Rightarrow> world \<Rightarrow> sweep" where
  "sweep_start max_concurrency symbols timeframes w =
     \<lparr>sw_world = w, sw_jobs = map (\<lambda>k. (k, Queued)) (List.product symbols timeframes),
      sw_permits = max_concurrency, sw_abort = False\<rparr>"

definition set_job :: "nat \<Rightarrow> job_status \<Rightarrow> sweep \<Rightarrow> sweep" where
  "set_job i st s =
     (case sw_jobs s ! i of (k, old) \<Rightarrow>
        s\<lparr>sw_jobs := (sw_jobs s)[i := (k, st)],
          sw_permits := sw_permits s + (if holds old then 1 else 0) - (if holds st then 1 else 0)\<rparr>)"

text \<open>A queued task whose timeframe has a table waits until the semaphore has a permit.\<close>

definition waits :: "sweep \<Rightarrow> nat \<Rightarrow> bool" where
  "waits s i \<longleftrightarrow> (case sw_jobs s ! i of ((symbol, timeframe), st) \<Rightarrow>
     st = Queued \<and> map_of TIMEFRAME_TO_TABLE timeframe \<noteq> None \<and> sw_permits s = 0)"

datatype turn = Run nat | Cancel nat | Cancel_Sweep

text \<open>A failure cancels the group, as does a cancellation of the job from outside.\<close>

fun move :: "ohlcv_fetch \<Rightarrow> int \<Rightarrow> int \<Rightarrow> sweep \<Rightarrow> turn \<Rightarrow> sweep" where
  "move fetch since until s (Run i) =
     (if length (sw_jobs s) \<le> i \<or> over (snd (sw_jobs s ! i)) \<or> waits s i then s
      else
        (case segment fetch since until (fst (sw_jobs s ! i)) (snd (sw_jobs s ! i)) (sw_world s) of
           (Inl e, w) \<Rightarrow> (set_job i (Failed e) s)\<lparr>sw_world := w, sw_abort := True\<rparr>
         | (Inr st, w) \<Rightarrow> (set_job i st s)\<lparr>sw_world := w\<rparr>))"
| "move fetch since until s (Cancel i) =
     (if length (sw_jobs s) \<le> i \<or> over (snd (sw_jobs s ! i)) \<or> \<not> sw_abort s then s else set_job i Cancelled s)"
| "move fetch since until s Cancel_Sweep = s\<lparr>sw_abort := True\<rparr>"

definition moves :: "ohlcv_fetch \<Rightarrow> int \<Rightarrow> int \<Rightarrow> turn list \<Rightarrow> sweep \<Rightarrow> sweep" where
  "moves fetch since until ms s = foldl (move fetch since until) s ms"

definition sweep_joined :: "sweep \<Rightarrow> bool" where
  "sweep_joined s \<longleftrightarrow> list_all (\<lambda>(k, st). over st) (sw_jobs s)"

definition sweep_errors :: "sweep \<Rightarrow> exc list" where
  "sweep_errors s = List.map_filter (\<lambda>(k, st). case st of Failed e \<Rightarrow> Some e | _ \<Rightarrow> None) (sw_jobs s)"

text \<open>
  The dictionary of results, keyed \<open>symbol.timeframe\<close>; the exception group is a foreign
  exception of that name.
\<close>

definition sweep_results :: "sweep \<Rightarrow> (string \<times> nat) list" where
  "sweep_results s =
     fold (\<lambda>((symbol, timeframe), st) d. case st of Done n \<Rightarrow> AList.update (symbol @ ''.'' @ timeframe) n d | _ \<Rightarrow> d)
       (sw_jobs s) []"

definition sweep_result :: "sweep \<Rightarrow> (string \<times> nat) list res option" where
  "sweep_result s =
     (if \<not> sweep_joined s then None
      else if sweep_errors s \<noteq> [] then Some (Inl (Foreign ''ExceptionGroup''))
      else if list_ex (\<lambda>(k, st). st = Cancelled) (sw_jobs s) then Some (Inl CancelledError)
      else Some (Inr (sweep_results s)))"

definition backfill_universe ::
  "turn list \<Rightarrow> ohlcv_fetch \<Rightarrow> string list \<Rightarrow> string list \<Rightarrow> int \<Rightarrow> int \<Rightarrow> nat \<Rightarrow> (string \<times> nat) list option io" where
  "backfill_universe schedule fetch symbols timeframes since until max_concurrency w =
     (let s = moves fetch since until schedule (sweep_start max_concurrency symbols timeframes w) in
      case sweep_result s of
        None \<Rightarrow> (Inr None, sw_world s)
      | Some (Inl e) \<Rightarrow> (Inl e, sw_world s)
      | Some (Inr results) \<Rightarrow> (Inr (Some results), sw_world s))"

definition mexc_candles_backfill_1d_job_callable ::
  "turn list \<Rightarrow> data_platform_settings \<Rightarrow> ohlcv_api \<Rightarrow> bool io" where
  "mexc_candles_backfill_1d_job_callable schedule s api =
     (if mexc s = None
      then thenI (skipped ''scheduler.mexc.candles.backfill.skipped'' ''mexc settings absent'') (retI True)
      else
        bindI (getI (\<lambda>w. active_by_tier (w_db w))) (\<lambda>symbols.
        if symbols = []
        then thenI (skipped ''scheduler.mexc.candles.backfill.1d.skipped'' ''no qualifying symbols'') (retI True)
        else
          bindI (liftI (build_mexc_swap_client s)) (\<lambda>_.
          bindI readI (\<lambda>r1.
          bindI readI (\<lambda>r2.
          bindI (backfill_universe schedule (fetch_ohlcv api) symbols [''1m''] (rd_now r1 - 25 * 3600000000) (rd_now r2) 8)
            (\<lambda>results.
          case results of
            None \<Rightarrow> retI False
          | Some d \<Rightarrow>
              thenI (logI ''scheduler.mexc.candles.backfill.1d.completed''
                       [(''rows_written'', WInt (int (sum_list (map snd d)))), (''n_symbols'', WInt (int (length symbols)))])
                (retI True)))))))"

section \<open>The semaphore\<close>

definition holders :: "sweep \<Rightarrow> nat" where
  "holders s = length (filter (\<lambda>(k, st). holds st) (sw_jobs s))"

lemma filter_update_length:
  "i < length xs \<Longrightarrow>
   length (filter P (xs[i := y])) + (if P (xs ! i) then 1 else 0) = length (filter P xs) + (if P y then 1 else 0)"
proof -
  assume i: "i < length xs"
  have "length (filter P xs) = length (filter P (take i xs @ xs ! i # drop (Suc i) xs))"
    using id_take_nth_drop [OF i] by simp
  then show ?thesis using i by (simp add: upd_conv_take_nth_drop)
qed

lemma set_job_permits:
  assumes "i < length (sw_jobs s)" "holds st \<Longrightarrow> \<not> holds (snd (sw_jobs s ! i)) \<Longrightarrow> 0 < sw_permits s"
  shows "sw_permits (set_job i st s) + holders (set_job i st s) = sw_permits s + holders s"
  using filter_update_length [OF assms(1), of "\<lambda>(k, st). holds st" "(fst (sw_jobs s ! i), st)"] assms(2)
  by (cases "sw_jobs s ! i") (auto simp: set_job_def holders_def)

lemma segment_acquires:
  assumes "segment fetch since until k st w = (Inr st', w')" "holds st'" "\<not> holds st" "\<not> over st"
  shows "st = Queued \<and> map_of TIMEFRAME_TO_TABLE (snd k) \<noteq> None"
proof -
  obtain sy tf where k: "k = (sy, tf)" by fastforce
  show ?thesis
    using assms unfolding k
    by (cases st) (auto simp: thenI_def bindI_def logI_def updI_def retI_def split: option.splits)
qed

lemma move_permits: "sw_permits (move fetch since until s t) + holders (move fetch since until s t) = sw_permits s + holders s"
proof (cases t)
  case (Run i)
  show ?thesis
  proof (cases "length (sw_jobs s) \<le> i \<or> over (snd (sw_jobs s ! i)) \<or> waits s i")
    case False
    obtain r w where seg: "segment fetch since until (fst (sw_jobs s ! i)) (snd (sw_jobs s ! i)) (sw_world s) = (r, w)"
      by fastforce
    have "sw_permits (set_job i st s) + holders (set_job i st s) = sw_permits s + holders s" if "r = Inr st" for st
      using False seg that
      by (intro set_job_permits) (auto simp: waits_def split: prod.splits dest!: segment_acquires)
    moreover have "sw_permits (set_job i (Failed e) s) + holders (set_job i (Failed e) s) = sw_permits s + holders s" for e
      using False by (intro set_job_permits) auto
    ultimately show ?thesis using False seg Run by (auto simp: holders_def split: sum.split)
  qed (simp add: Run)
next
  case (Cancel i)
  then show ?thesis by (auto intro!: set_job_permits)
qed (simp add: holders_def)

lemma moves_simps [simp]:
  "moves fetch since until [] s = s"
  "moves fetch since until (t # ts) s = moves fetch since until ts (move fetch since until s t)"
  "moves fetch since until (ts @ ts') s = moves fetch since until ts' (moves fetch since until ts s)"
  by (simp_all add: moves_def)

lemma moves_permits: "sw_permits (moves fetch since until ts s) + holders (moves fetch since until ts s) = sw_permits s + holders s"
  by (induction ts arbitrary: s) (simp_all add: move_permits)

lemma start_holders: "holders (sweep_start m symbols timeframes w) = 0"
  by (simp add: holders_def sweep_start_def filter_map comp_def)

text \<open>C8: At most max_concurrency symbols are being backfilled at any moment, under every schedule, and no
  permit is ever lost: also after failures and cancellations the free permits and the tasks
  inside the semaphore add up to max_concurrency.
\<close>

theorem sweep_concurrency:
  "let s = moves fetch since until schedule (sweep_start max_concurrency symbols timeframes w) in
   holders s \<le> max_concurrency \<and> sw_permits s + holders s = max_concurrency"
  using moves_permits [of fetch since until schedule "sweep_start max_concurrency symbols timeframes w"]
  by (simp add: Let_def start_holders) (simp add: sweep_start_def)

section \<open>One symbol that cannot be fetched\<close>

lemma set_job_nth:
  "i < length (sw_jobs s) \<Longrightarrow> sw_jobs (set_job i st s) ! j = (if j = i then (fst (sw_jobs s ! i), st) else sw_jobs s ! j)"
  by (cases "sw_jobs s ! i") (auto simp: set_job_def)

lemma set_job_fields [simp]:
  "length (sw_jobs (set_job i st s)) = length (sw_jobs s)" "sw_abort (set_job i st s) = sw_abort s"
  "sw_world (set_job i st s) = sw_world s"
  by (simp_all add: set_job_def split: prod.split)

fun doomed :: "int \<Rightarrow> job_status \<Rightarrow> bool" where
  "doomed a Queued = True"
| "doomed a (Fetching cursor n) = (cursor = a)"
| "doomed a (Failed e) = True"
| "doomed a Cancelled = True"
| "doomed a _ = False"

definition doomed_at :: "int \<Rightarrow> nat \<Rightarrow> string \<times> string \<Rightarrow> sweep \<Rightarrow> bool" where
  "doomed_at a i k s \<longleftrightarrow> i < length (sw_jobs s) \<and> fst (sw_jobs s ! i) = k \<and> doomed a (snd (sw_jobs s ! i))"

definition never_fetched :: "ohlcv_fetch \<Rightarrow> string \<Rightarrow> string \<Rightarrow> bool" where
  "never_fetched fetch sy tf \<longleftrightarrow> (\<forall>a b w. \<exists>e. fst (fetch sy tf a b w) = Inl e)"

lemma never_fetched_bindI: "never_fetched fetch sy tf \<Longrightarrow> \<exists>e. bindI (fetch sy tf a b) k w = (Inl e, snd (fetch sy tf a b w))"
proof -
  assume "never_fetched fetch sy tf"
  then obtain e where "fst (fetch sy tf a b w) = Inl e" unfolding never_fetched_def by blast
  then show ?thesis by (cases "fetch sy tf a b w") (simp add: bindI_def)
qed

lemma bindI_liftI [simp]: "bindI (liftI (Inr x)) f = f x" "bindI (liftI (Inl e)) f = raiseI e"
  by (auto simp: bindI_def liftI_def raiseI_def)

lemma segment_doomed:
  assumes "tf \<in> {''1m'', ''1d''}" "never_fetched fetch sy tf" "ms_of_ts since < ms_of_ts until"
    and "doomed (ms_of_ts since) st" "\<not> over st" "segment fetch since until (sy, tf) st w = (Inr st', w')"
  shows "doomed (ms_of_ts since) st'"
proof (cases st)
  case Queued
  then show ?thesis using assms(1,6) by (auto simp: TIMEFRAME_TO_TABLE_def TIMEFRAME_MS_def retI_def)
next
  case (Fetching cursor n)
  have cursor: "cursor = ms_of_ts since" using assms(4) Fetching by simp
  have "fst (segment fetch since until (sy, tf) st w) \<noteq> Inr st'"
  proof (cases "ts_from_ms cursor"; cases "ts_from_ms (ms_of_ts until)")
    fix a b assume ts: "ts_from_ms cursor = Inr a" "ts_from_ms (ms_of_ts until) = Inr b"
    obtain e where "bindI (fetch sy tf a b) (\<lambda>candles. if candles = [] then completed sy tf n else retI (Storing candles n)) w =
        (Inl e, snd (fetch sy tf a b w))"
      using never_fetched_bindI [OF assms(2)] by blast
    then show ?thesis using assms(3) cursor ts by (simp add: Fetching)
  qed (use assms(3) cursor in \<open>auto simp: Fetching raiseI_def\<close>)
  then have False using assms(6) by simp
  then show ?thesis ..
qed (use assms(4,5) in auto)

lemma move_doomed:
  assumes "tf \<in> {''1m'', ''1d''}" "never_fetched fetch sy tf" "ms_of_ts since < ms_of_ts until"
    and "doomed_at (ms_of_ts since) i (sy, tf) s"
  shows "doomed_at (ms_of_ts since) i (sy, tf) (move fetch since until s t)"
proof (cases t)
  case (Run j)
  show ?thesis
  proof (cases "length (sw_jobs s) \<le> j \<or> over (snd (sw_jobs s ! j)) \<or> waits s j")
    case False
    obtain r w where seg: "segment fetch since until (fst (sw_jobs s ! j)) (snd (sw_jobs s ! j)) (sw_world s) = (r, w)"
      by fastforce
    have "doomed (ms_of_ts since) st" if "r = Inr st" "j = i" for st
      using segment_doomed [OF assms(1-3), of "snd (sw_jobs s ! i)"] seg that False assms(4) by (auto simp: doomed_at_def)
    then show ?thesis using False seg assms(4) Run by (auto simp: doomed_at_def set_job_nth split: sum.split)
  qed (use assms(4) Run in simp)
qed (use assms(4) in \<open>auto simp: doomed_at_def set_job_nth\<close>)

lemma sweep_errorsI: "x \<in> set (sw_jobs s) \<Longrightarrow> snd x = Failed e \<Longrightarrow> e \<in> set (sweep_errors s)"
  by (cases x) (force simp: sweep_errors_def List.map_filter_def)

lemma doomed_result:
  assumes "doomed_at a i k s" "sweep_result s = Some r"
  shows "\<exists>e. r = Inl e"
proof -
  have j: "sweep_joined s" using assms(2) by (auto simp: sweep_result_def split: if_splits)
  have i: "sw_jobs s ! i \<in> set (sw_jobs s)" "doomed a (snd (sw_jobs s ! i))" using assms(1) by (auto simp: doomed_at_def)
  then have "over (snd (sw_jobs s ! i))" using j by (auto simp: sweep_joined_def list_all_iff)
  then consider e where "snd (sw_jobs s ! i) = Failed e" | "snd (sw_jobs s ! i) = Cancelled"
    using i(2) by (cases "snd (sw_jobs s ! i)") auto
  then show ?thesis
  proof cases
    case (1 e)
    then have "e \<in> set (sweep_errors s)" using i(1) by (blast intro: sweep_errorsI)
    then show ?thesis using assms(2) j by (auto simp: sweep_result_def split: if_splits)
  next
    case 2
    then have "list_ex (\<lambda>(k, st). st = Cancelled) (sw_jobs s)" using i(1) by (cases "sw_jobs s ! i") (force simp: list_ex_iff)
    then show ?thesis using assms(2) j by (auto simp: sweep_result_def split: if_splits)
  qed
qed

lemma cancel_all:
  assumes "sw_abort s"
  shows "let s' = moves fetch since until (map Cancel [0..<m]) s in
    sw_world s' = sw_world s \<and> sw_abort s' \<and> length (sw_jobs s') = length (sw_jobs s) \<and>
    (\<forall>j<length (sw_jobs s). sw_jobs s' ! j =
      (if j < m \<and> \<not> over (snd (sw_jobs s ! j)) then (fst (sw_jobs s ! j), Cancelled) else sw_jobs s ! j))"
proof (induction m)
  case (Suc m)
  let ?s = "moves fetch since until (map Cancel [0..<m]) s"
  show ?case
    using Suc.IH by (auto simp: Let_def set_job_nth less_Suc_eq)
qed (use assms in \<open>simp add: Let_def\<close>)

lemma cancelled_join:
  assumes "sw_abort s" "i < length (sw_jobs s)" "snd (sw_jobs s ! i) = Failed e"
  shows "let s' = moves fetch since until (map Cancel [0..<length (sw_jobs s)]) s in
    sweep_result s' = Some (Inl (Foreign ''ExceptionGroup'')) \<and> sw_world s' = sw_world s"
proof -
  let ?s = "moves fetch since until (map Cancel [0..<length (sw_jobs s)]) s"
  note c = cancel_all [OF assms(1), of fetch since until "length (sw_jobs s)", unfolded Let_def]
  have "sweep_joined ?s" using c by (auto simp: sweep_joined_def list_all_length split: prod.splits)
  moreover have "sw_jobs ?s ! i = sw_jobs s ! i" using c assms(2,3) by simp
  then have "sw_jobs s ! i \<in> set (sw_jobs ?s)" using c assms(2) by (metis nth_mem)
  then have "e \<in> set (sweep_errors ?s)"
    using assms(3) by (rule sweep_errorsI)
  ultimately show ?thesis using c by (auto simp: sweep_result_def Let_def)
qed

lemma guarded_call_raises: "\<exists>e. r (w_pos w) = Inl e \<Longrightarrow> \<exists>e. fst (guarded_call ep sy r w) = Inl e"
  by (auto simp: guarded_call_def catchI_def callI_def bindI_def thenI_def getI_def raiseI_def split: prod.split sum.split)

lemma retryI_fails: "(\<And>w. \<exists>e. fst (m w) = Inl e) \<Longrightarrow> \<exists>e. fst (retryI p n m w) = Inl e"
proof (induction n arbitrary: w)
  case (Suc n)
  obtain e w' where "m w = (Inl e, w')" using Suc.prems [of w] by (cases "m w") auto
  then show ?case using Suc.IH [of w'] Suc.prems by auto
qed simp

lemma fetch_ohlcv_never:
  assumes "\<And>ms n. \<exists>e. api sy tf ms n = Inl e"
  shows "never_fetched (fetch_ohlcv api) sy tf"
  unfolding never_fetched_def fetch_ohlcv_def mexc_retry_def
proof (intro allI retryI_fails)
  fix a and w :: world
  obtain e where "fst (guarded_call ''fetch_ohlcv'' sy (api sy tf (ms_of_ts a)) w) = Inl e"
    using guarded_call_raises assms by blast
  then show "\<exists>e. fst (bindI (guarded_call ''fetch_ohlcv'' sy (api sy tf (ms_of_ts a)))
      (parse_each ''fetch_ohlcv'' sy WList (parse_candle sy tf)) w) = Inl e"
    by (cases "guarded_call ''fetch_ohlcv'' sy (api sy tf (ms_of_ts a)) w") (simp add: bindI_def)
qed

lemma start_job:
  assumes "sy \<in> set symbols" "tf \<in> set timeframes"
  obtains i where "i < length (sw_jobs (sweep_start m symbols timeframes w))"
    "sw_jobs (sweep_start m symbols timeframes w) ! i = ((sy, tf), Queued)"
proof -
  have "((sy, tf), Queued) \<in> set (sw_jobs (sweep_start m symbols timeframes w))"
    using assms by (simp add: sweep_start_def)
  then show ?thesis using that by (auto simp: in_set_conv_nth)
qed

lemma moves_doomed:
  assumes "tf \<in> {''1m'', ''1d''}" "never_fetched fetch sy tf" "ms_of_ts since < ms_of_ts until"
    and "doomed_at (ms_of_ts since) i (sy, tf) s"
  shows "doomed_at (ms_of_ts since) i (sy, tf) (moves fetch since until ts s)"
  using assms(4) by (induction ts arbitrary: s) (simp_all add: move_doomed [OF assms(1-3)])

text \<open>The first turn of a task takes a permit, the second fails.\<close>

lemma two_turns:
  assumes "tf \<in> {''1m'', ''1d''}" "never_fetched (fetch_ohlcv api) sy tf" "ms_of_ts since < ms_of_ts until"
    and "i < length (sw_jobs s)" "sw_jobs s ! i = ((sy, tf), Queued)" "0 < sw_permits s"
  shows "let s' = moves (fetch_ohlcv api) since until [Run i, Run i] s in
    sw_abort s' \<and> length (sw_jobs s') = length (sw_jobs s) \<and> (\<exists>e. snd (sw_jobs s' ! i) = Failed e) \<and>
    (\<forall>t. t \<noteq> ''dead_letter'' \<longrightarrow> w_db (sw_world s') t = w_db (sw_world s) t)"
proof -
  let ?f = "fetch_ohlcv api" and ?st = "Fetching (ms_of_ts since) 0" and ?w = "sw_world s"
  have "segment ?f since until (sy, tf) Queued ?w = (Inr ?st, ?w)"
    using assms(1) by (auto simp: TIMEFRAME_TO_TABLE_def TIMEFRAME_MS_def retI_def)
  then have one: "move ?f since until s (Run i) = (set_job i ?st s)\<lparr>sw_world := ?w\<rparr>"
    using assms(4-6) by (simp add: waits_def)
  have "\<exists>e. fst (segment ?f since until (sy, tf) ?st ?w) = Inl e \<and>
      (\<forall>t. t \<noteq> ''dead_letter'' \<longrightarrow> w_db (snd (segment ?f since until (sy, tf) ?st ?w)) t = w_db ?w t)"
  proof (cases "ts_from_ms (ms_of_ts since)"; cases "ts_from_ms (ms_of_ts until)")
    fix a b assume ts: "ts_from_ms (ms_of_ts since) = Inr a" "ts_from_ms (ms_of_ts until) = Inr b"
    obtain e where "segment ?f since until (sy, tf) ?st ?w = (Inl e, snd (?f sy tf a b ?w))"
      using never_fetched_bindI [OF assms(2)] assms(3) ts by fastforce
    moreover have "w_db (snd (?f sy tf a b ?w)) t = w_db ?w t" if "t \<noteq> ''dead_letter''" for t
      using keepsD [OF keeps_table_fetch_ohlcv [OF that] refl surjective_pairing] .
    ultimately show ?thesis by simp
  qed (use assms(3) in \<open>simp_all add: raiseI_def\<close>)
  then obtain e w' where seg: "segment ?f since until (sy, tf) ?st ?w = (Inl e, w')"
    "\<forall>t. t \<noteq> ''dead_letter'' \<longrightarrow> w_db w' t = w_db ?w t" by (metis prod.collapse)
  have two: "move ?f since until (move ?f since until s (Run i)) (Run i) =
      (set_job i (Failed e) ((set_job i ?st s)\<lparr>sw_world := ?w\<rparr>))\<lparr>sw_world := w', sw_abort := True\<rparr>"
    using assms(4,5) seg(1) unfolding one by (simp add: set_job_nth waits_def del: segment.simps)
  show ?thesis unfolding moves_simps two using assms(4,5) seg(2) by (simp add: Let_def set_job_nth)
qed

lemma universe_result:
  "backfill_universe schedule fetch symbols timeframes since until m w = (Inr (Some d), w') \<longleftrightarrow>
   sweep_result (moves fetch since until schedule (sweep_start m symbols timeframes w)) = Some (Inr d) \<and>
   w' = sw_world (moves fetch since until schedule (sweep_start m symbols timeframes w))"
  by (auto simp: backfill_universe_def Let_def split: option.split sum.split)


section \<open>Every window is filled\<close>

text \<open>A symbol the exchange serves, its archive, and the window in milliseconds.\<close>

definition served :: "ohlcv_api \<Rightarrow> (string \<times> string \<Rightarrow> wire list list) \<Rightarrow> string \<times> string \<Rightarrow> bool" where
  "served api A k \<longleftrightarrow> (case k of (symbol, timeframe) \<Rightarrow> timeframe \<in> {''1m'', ''1d''} \<and>
     serves api symbol timeframe (A k) \<and> good_archive symbol timeframe (candle_step timeframe) (A k))"

definition tables_ready :: "world \<Rightarrow> bool" where
  "tables_ready w \<longleftrightarrow> candle_db ''raw_mexc_candles_1m'' (w_db w) \<and> candle_db ''raw_mexc_candles_1d'' (w_db w)"

definition stored :: "(string \<times> string \<Rightarrow> wire list list) \<Rightarrow> int \<Rightarrow> string \<times> string \<Rightarrow> int \<Rightarrow> world \<Rightarrow> bool" where
  "stored A a k hi w \<longleftrightarrow> (\<forall>r\<in>set (A k). a \<le> row_ms r \<and> row_ms r < hi \<longrightarrow>
     [CText (fst k), CTs (1000 * row_ms r)] \<in> keys_of (w_db w) (candle_target (snd k)))"

fun job_ok :: "(string \<times> string \<Rightarrow> wire list list) \<Rightarrow> int \<Rightarrow> int \<Rightarrow> world \<Rightarrow> string \<times> string \<Rightarrow> job_status \<Rightarrow> bool" where
  "job_ok A a b w k Queued = True"
| "job_ok A a b w k (Fetching cursor n) = (1100000000000 \<le> cursor \<and> stored A a k cursor w)"
| "job_ok A a b w k (Storing cs n) = (cs \<noteq> [] \<and> (\<exists>cursor. 1100000000000 \<le> cursor \<and> cursor < b \<and> stored A a k cursor w \<and>
     page_of (fst k) (page (A k) cursor) cs))"
| "job_ok A a b w k (Done n) = stored A a k b w"
| "job_ok A a b w k _ = False"

text \<open>What a task still has to do: two moves for every page it may yet read.\<close>

definition pages_left :: "wire list list \<Rightarrow> int \<Rightarrow> nat" where
  "pages_left archive cursor = length (filter (\<lambda>r. cursor \<le> row_ms r) archive)"

fun work :: "(string \<times> string \<Rightarrow> wire list list) \<Rightarrow> string \<times> string \<Rightarrow> job_status \<Rightarrow> nat" where
  "work A k Queued = 2 * length (A k) + 3"
| "work A k (Fetching cursor n) = 2 * pages_left (A k) cursor + 2"
| "work A k (Storing cs n) =
     2 * pages_left (A k) (ms_of_ts (instant (c_ts (last cs))) + candle_step (snd k)) + 3"
| "work A k _ = 0"

lemma stored_grown: "grown w w' \<Longrightarrow> stored A a k hi w \<Longrightarrow> stored A a k hi w'"
  unfolding stored_def using grown_keys by blast

lemma job_ok_grown: "grown w w' \<Longrightarrow> job_ok A a b w k st \<Longrightarrow> job_ok A a b w' k st"
  by (cases st) (auto intro: stored_grown)

lemma timeframe_tables:
  assumes "tf \<in> {''1m'', ''1d''}"
  shows "map_of TIMEFRAME_TO_TABLE tf = Some (candle_target tf)" "map_of TIMEFRAME_MS tf = Some (candle_step tf)"
  using assms by (auto simp: TIMEFRAME_TO_TABLE_def TIMEFRAME_MS_def candle_target_def candle_step_def)

lemma tables_ready_target: "tables_ready w \<Longrightarrow> candle_db (candle_target tf) (w_db w)"
  by (simp add: tables_ready_def candle_target_def)

lemma tables_ready_grown: "grown w w' \<Longrightarrow> tables_ready w \<Longrightarrow> tables_ready w'"
  unfolding tables_ready_def using grown_candle_db by blast

text \<open>An empty page ends the window as well as its end does.\<close>

lemma stored_rest: "stored A a k cursor w \<Longrightarrow> page (A k) cursor = [] \<Longrightarrow> stored A a k b w"
  by (fastforce simp: stored_def page_def filter_empty_conv)

lemma stored_less: "stored A a k cursor w \<Longrightarrow> b \<le> cursor \<Longrightarrow> stored A a k b w"
  by (auto simp: stored_def)

definition progresses :: "(string \<times> string \<Rightarrow> wire list list) \<Rightarrow> int \<Rightarrow> int \<Rightarrow> string \<times> string \<Rightarrow> job_status \<Rightarrow> world \<Rightarrow> job_status res \<times> world \<Rightarrow> bool" where
  "progresses A a b k st w x \<longleftrightarrow> (\<exists>st' w'. x = (Inr st', w') \<and> job_ok A a b w' k st' \<and> grown w w' \<and> work A k st' < work A k st)"

lemma completed_progresses:
  "stored A a k b w \<Longrightarrow> 0 < work A k st \<Longrightarrow> grown v w \<Longrightarrow> progresses A a b k st v (completed sy tf n w)"
  by (auto simp: progresses_def completed_def thenI_def bindI_def logI_def updI_def retI_def
      intro: grown_trans [of v w] stored_grown [of w])

lemma stored_next:
  assumes "sorted_wrt (\<lambda>x y. row_ms x + step \<le> row_ms y) (A k)" "0 < step" "page (A k) cursor \<noteq> []"
    and "stored A a k cursor w"
    and "\<forall>r\<in>set (page (A k) cursor). [CText (fst k), CTs (1000 * row_ms r)] \<in> keys_of (w_db w) (candle_target (snd k))"
  shows "stored A a k (row_ms (last (page (A k) cursor)) + step) w"
  unfolding stored_def
proof (intro ballI impI)
  fix r assume r: "r \<in> set (A k)" "a \<le> row_ms r \<and> row_ms r < row_ms (last (page (A k) cursor)) + step"
  show "[CText (fst k), CTs (1000 * row_ms r)] \<in> keys_of (w_db w) (candle_target (snd k))"
  proof (cases "row_ms r < cursor")
    case True
    then show ?thesis using assms(4) r by (simp add: stored_def)
  next
    case False
    then show ?thesis using page_split [OF assms(1-3) r(1)] r(2) assms(5) by auto
  qed
qed

lemma pages_left_drops:
  assumes "0 < step" "x \<in> set archive" "cursor \<le> row_ms x"
  shows "pages_left archive (row_ms x + step) < pages_left archive cursor"
  unfolding pages_left_def using assms by (intro filter_drops [of _ _ x]) auto

lemma segment_fetches:
  assumes "cursor < ms_of_ts until" "ts_from_ms cursor = Inr a" "ts_from_ms (ms_of_ts until) = Inr b"
    and "fetch sy tf a b w = (Inr cs, w')"
  shows "segment fetch since until (sy, tf) (Fetching cursor n) w =
    (if cs = [] then completed sy tf n w' else (Inr (Storing cs n), w'))"
  using assms by (simp add: bindI_def [of "fetch sy tf a b"] retI_def)

lemma fetching_progresses:
  assumes "served api A (sy, tf)" "tables_ready w" "job_ok A (ms_of_ts since) (ms_of_ts until) w (sy, tf) (Fetching cursor n)"
    and "ms_of_ts until \<le> 2147483648000"
  shows "progresses A (ms_of_ts since) (ms_of_ts until) (sy, tf) (Fetching cursor n) w (segment (fetch_ohlcv api) since until (sy, tf) (Fetching cursor n) w)"
proof -
  let ?k = "(sy, tf)" and ?A = "A (sy, tf)" and ?a = "ms_of_ts since" and ?b = "ms_of_ts until"
  have tf: "tf \<in> {''1m'', ''1d''}" and serves: "serves api sy tf ?A"
    and rows: "list_all (archive_row sy tf) ?A"
    and sorted: "sorted_wrt (\<lambda>x y. row_ms x + candle_step tf \<le> row_ms y) ?A"
    using assms(1) by (auto simp: served_def good_archive_def)
  have cur: "1100000000000 \<le> cursor" "stored A ?a ?k cursor w" using assms(3) by simp_all
  show ?thesis
  proof (cases "cursor < ?b")
    case False
    then have "stored A ?a ?k ?b w" using stored_less cur(2) by simp
    then show ?thesis using False by (simp add: completed_progresses)
  next
    case True
    then have ts: "ts_from_ms cursor = Inr (1000 * cursor)" "ts_from_ms ?b = Inr (1000 * ?b)" and safe: "safe_ms cursor"
      using cur(1) assms(4) by (simp_all add: ts_from_ms_exact safe_ms_def)
    let ?w = "w\<lparr>w_pos := Suc (w_pos w)\<rparr>"
    obtain cs where fetch: "fetch_ohlcv api sy tf (1000 * cursor) (1000 * ?b) w = (Inr cs, ?w)"
      and page: "page_of sy (page ?A cursor) cs"
      using fetch_page [OF serves rows safe] by blast
    note seg = segment_fetches [where fetch = "fetch_ohlcv api" and since = since and n = n, OF True ts fetch]
    show ?thesis
    proof (cases "cs = []")
      case empty: True
      then have "page ?A cursor = []" using page by (simp add: page_of_def)
      then have "stored A ?a ?k ?b ?w" using stored_grown [of w ?w] stored_rest cur(2) by simp
      then show ?thesis unfolding seg using empty by (simp add: completed_progresses)
    next
      case False
      note next_cursor = page_cursor [OF rows page False]
      have "pages_left ?A (row_ms (last (page ?A cursor)) + candle_step tf) < pages_left ?A cursor"
        by (rule pages_left_drops [OF candle_step_pos next_cursor(2,3)])
      moreover have "stored A ?a ?k cursor ?w" using stored_grown [of w ?w] cur(2) by simp
      ultimately show ?thesis
        unfolding seg progresses_def using False cur(1) True page next_cursor(1) by auto
    qed
  qed
qed

lemma storing_progresses:
  assumes "served api A (sy, tf)" "tables_ready w" "job_ok A (ms_of_ts since) (ms_of_ts until) w (sy, tf) (Storing cs n)"
  shows "progresses A (ms_of_ts since) (ms_of_ts until) (sy, tf) (Storing cs n) w (segment (fetch_ohlcv api) since until (sy, tf) (Storing cs n) w)"
proof -
  let ?k = "(sy, tf)" and ?A = "A (sy, tf)" and ?a = "ms_of_ts since" and ?b = "ms_of_ts until"
  have tf: "tf \<in> {''1m'', ''1d''}" and serves: "serves api sy tf ?A"
    and rows: "list_all (archive_row sy tf) ?A"
    and sorted: "sorted_wrt (\<lambda>x y. row_ms x + candle_step tf \<le> row_ms y) ?A"
    using assms(1) by (auto simp: served_def good_archive_def)
  obtain cursor where cur: "stored A ?a ?k cursor w" "page_of sy (page ?A cursor) cs" and ne: "cs \<noteq> []"
    using assms(3) by auto
  note next_cursor = page_cursor [OF rows cur(2) ne]
  obtain w' where w': "copyI (candle_target tf) (map backfill_record cs) candle_columns candle_conflict w = (Inr (length cs), w')"
    "\<forall>r\<in>set (page ?A cursor). [CText sy, CTs (1000 * row_ms r)] \<in> keys_of (w_db w') (candle_target tf)"
    using store_page [OF rows cur(2) ne tables_ready_target [OF assms(2)]] by blast
  have g: "grown w w'" using grown_copyI [OF w'(1)] .
  have "stored A ?a ?k (row_ms (last (page ?A cursor)) + candle_step tf) w'"
    using sorted candle_step_pos next_cursor(5) stored_grown [OF g cur(1)] w'(2) by (intro stored_next) auto
  moreover have "segment (fetch_ohlcv api) since until ?k (Storing cs n) w =
      (Inr (Fetching (row_ms (last (page ?A cursor)) + candle_step tf) (n + length cs)), w')"
    using timeframe_tables [OF tf] w'(1) next_cursor(1) by (simp add: bindI_def retI_def)
  moreover have "1100000000000 \<le> row_ms (last (page ?A cursor)) + candle_step tf"
    using next_cursor(4) candle_step_pos [of tf] by linarith
  ultimately show ?thesis using g next_cursor(1) by (simp add: progresses_def)
qed

lemma segment_progresses:
  assumes "served api A (sy, tf)" "tables_ready w" "job_ok A (ms_of_ts since) (ms_of_ts until) w (sy, tf) st" "\<not> over st"
    and "1100000000000 \<le> ms_of_ts since" "ms_of_ts until \<le> 2147483648000"
  shows "progresses A (ms_of_ts since) (ms_of_ts until) (sy, tf) st w (segment (fetch_ohlcv api) since until (sy, tf) st w)"
proof (cases st)
  case Queued
  have tf: "tf \<in> {''1m'', ''1d''}" using assms(1) by (auto simp: served_def)
  have "pages_left (A (sy, tf)) (ms_of_ts since) \<le> length (A (sy, tf))" by (simp add: pages_left_def)
  then show ?thesis
    using assms(5) timeframe_tables [OF tf] by (auto simp: Queued progresses_def retI_def stored_def)
next
  case (Fetching cursor n)
  show ?thesis unfolding Fetching by (rule fetching_progresses [OF assms(1,2) assms(3) [unfolded Fetching] assms(6)])
next
  case (Storing cs n)
  show ?thesis unfolding Storing by (rule storing_progresses [OF assms(1,2) assms(3) [unfolded Storing]])
qed (use assms(3,4) in auto)

section \<open>The whole sweep\<close>

definition sweep_good :: "ohlcv_api \<Rightarrow> (string \<times> string \<Rightarrow> wire list list) \<Rightarrow> int \<Rightarrow> int \<Rightarrow> sweep \<Rightarrow> bool" where
  "sweep_good api A a b s \<longleftrightarrow> \<not> sw_abort s \<and> tables_ready (sw_world s) \<and>
     list_all (\<lambda>(k, st). served api A k \<and> job_ok A a b (sw_world s) k st) (sw_jobs s)"

definition total_work :: "(string \<times> string \<Rightarrow> wire list list) \<Rightarrow> sweep \<Rightarrow> nat" where
  "total_work A s = sum_list (map (\<lambda>(k, st). work A k st) (sw_jobs s))"

lemma set_job_jobs: "i < length (sw_jobs s) \<Longrightarrow> sw_jobs (set_job i st s) = (sw_jobs s)[i := (fst (sw_jobs s ! i), st)]"
  by (cases "sw_jobs s ! i") (simp add: set_job_def)

lemma set_job_work:
  assumes "i < length (sw_jobs s)" "sw_jobs s ! i = (k, old)" "work A k st < work A k old"
  shows "total_work A (set_job i st s) < total_work A s"
proof -
  have "sw_jobs s = take i (sw_jobs s) @ (k, old) # drop (Suc i) (sw_jobs s)"
    using id_take_nth_drop [OF assms(1)] assms(2) by simp
  then have "total_work A s = sum_list (map (\<lambda>(k, st). work A k st) (take i (sw_jobs s) @ (k, old) # drop (Suc i) (sw_jobs s)))"
    unfolding total_work_def by simp
  then show ?thesis
    using assms by (simp add: total_work_def set_job_jobs upd_conv_take_nth_drop)
qed

lemma run_progresses:
  assumes "sweep_good api A (ms_of_ts since) (ms_of_ts until) s" "i < length (sw_jobs s)" "\<not> over (snd (sw_jobs s ! i))"
    and "\<not> waits s i" "1100000000000 \<le> ms_of_ts since" "ms_of_ts until \<le> 2147483648000"
  shows "let s' = move (fetch_ohlcv api) since until s (Run i) in
    sweep_good api A (ms_of_ts since) (ms_of_ts until) s' \<and> grown (sw_world s) (sw_world s') \<and>
    map fst (sw_jobs s') = map fst (sw_jobs s) \<and> total_work A s' < total_work A s"
proof -
  obtain sy tf st where job: "sw_jobs s ! i = ((sy, tf), st)" by (metis prod.exhaust)
  then have "((sy, tf), st) \<in> set (sw_jobs s)" using assms(2) by (metis nth_mem)
  then have good: "served api A (sy, tf)" "tables_ready (sw_world s)"
    "job_ok A (ms_of_ts since) (ms_of_ts until) (sw_world s) (sy, tf) st"
    using assms(1) by (auto simp: sweep_good_def list_all_iff)
  obtain st' w' where seg: "segment (fetch_ohlcv api) since until (sy, tf) st (sw_world s) = (Inr st', w')"
    and ok: "job_ok A (ms_of_ts since) (ms_of_ts until) w' (sy, tf) st'" and g: "grown (sw_world s) w'"
    and less: "work A (sy, tf) st' < work A (sy, tf) st"
    using segment_progresses [OF good _ assms(5,6)] assms(3) job unfolding progresses_def by auto
  have move: "move (fetch_ohlcv api) since until s (Run i) = (set_job i st' s)\<lparr>sw_world := w'\<rparr>"
    using assms(2-4) job seg by simp
  have "list_all (\<lambda>(k, st). served api A k \<and> job_ok A (ms_of_ts since) (ms_of_ts until) w' k st) (sw_jobs s)"
    using assms(1) job_ok_grown [OF g] by (auto simp: sweep_good_def list_all_iff)
  then have "list_all (\<lambda>(k, st). served api A k \<and> job_ok A (ms_of_ts since) (ms_of_ts until) w' k st) (sw_jobs (set_job i st' s))"
    using ok good(1) assms(2) job set_update_subset_insert [of "sw_jobs s" i "((sy, tf), st')"]
    by (auto simp: set_job_jobs list_all_iff)
  moreover have "map fst (sw_jobs (set_job i st' s)) = map fst (sw_jobs s)"
    using assms(2) by (simp add: set_job_jobs map_update list_update_same_conv)
  moreover have "total_work A (set_job i st' s) < total_work A s" using set_job_work [OF assms(2) job less] .
  ultimately show ?thesis
    using assms(1) g tables_ready_grown [OF g] unfolding move by (simp add: Let_def sweep_good_def total_work_def)
qed

lemma move_good:
  assumes "sweep_good api A (ms_of_ts since) (ms_of_ts until) s" "t \<noteq> Cancel_Sweep"
    and "1100000000000 \<le> ms_of_ts since" "ms_of_ts until \<le> 2147483648000"
  shows "let s' = move (fetch_ohlcv api) since until s t in
    sweep_good api A (ms_of_ts since) (ms_of_ts until) s' \<and> grown (sw_world s) (sw_world s') \<and>
    map fst (sw_jobs s') = map fst (sw_jobs s)"
proof (cases t)
  case (Run i)
  show ?thesis
  proof (cases "length (sw_jobs s) \<le> i \<or> over (snd (sw_jobs s ! i)) \<or> waits s i")
    case True
    then show ?thesis using assms(1) by (simp add: Run)
  next
    case False
    then have i: "i < length (sw_jobs s)" "\<not> over (snd (sw_jobs s ! i))" "\<not> waits s i" by simp_all
    show ?thesis using run_progresses [OF assms(1) i assms(3,4)] unfolding Run Let_def by blast
  qed
qed (use assms(1,2) in \<open>auto simp: sweep_good_def\<close>)

lemma moves_good:
  assumes "sweep_good api A (ms_of_ts since) (ms_of_ts until) s" "Cancel_Sweep \<notin> set ts"
    and "1100000000000 \<le> ms_of_ts since" "ms_of_ts until \<le> 2147483648000"
  shows "let s' = moves (fetch_ohlcv api) since until ts s in
    sweep_good api A (ms_of_ts since) (ms_of_ts until) s' \<and> grown (sw_world s) (sw_world s') \<and>
    map fst (sw_jobs s') = map fst (sw_jobs s)"
  using assms(1,2)
proof (induction ts arbitrary: s)
  case (Cons t ts)
  let ?s = "move (fetch_ohlcv api) since until s t"
  have "sweep_good api A (ms_of_ts since) (ms_of_ts until) ?s" "grown (sw_world s) (sw_world ?s)"
    "map fst (sw_jobs ?s) = map fst (sw_jobs s)"
    using move_good [OF Cons.prems(1) _ assms(3,4), of t] Cons.prems(2) by (auto simp: Let_def)
  then show ?case using Cons.IH [of ?s] Cons.prems(2) by (auto simp: Let_def intro: grown_trans)
qed (simp add: Let_def)

text \<open>No deadlock: while a task is unfinished, some task inside the semaphore or a waiting one can move.\<close>

lemma some_task_runs:
  assumes "\<not> sweep_joined s" "0 < sw_permits s + holders s"
  shows "\<exists>i<length (sw_jobs s). \<not> over (snd (sw_jobs s ! i)) \<and> \<not> waits s i"
proof (cases "holders s = 0")
  case True
  obtain i where "i < length (sw_jobs s)" "\<not> over (snd (sw_jobs s ! i))"
    using assms(1) by (auto simp: sweep_joined_def list_all_length case_prod_beta)
  then show ?thesis using True assms(2) by (intro exI [of _ i]) (auto simp: waits_def split: prod.split)
next
  case False
  then obtain x where "x \<in> set (sw_jobs s)" "holds (snd x)" by (auto simp: holders_def filter_empty_conv)
  then obtain i where "i < length (sw_jobs s)" "holds (snd (sw_jobs s ! i))" by (auto simp: in_set_conv_nth)
  then show ?thesis by (intro exI [of _ i]) (cases "snd (sw_jobs s ! i)"; auto simp: waits_def split: prod.split)
qed

lemma sweep_finishes:
  assumes "sweep_good api A (ms_of_ts since) (ms_of_ts until) s" "0 < sw_permits s + holders s"
    and "1100000000000 \<le> ms_of_ts since" "ms_of_ts until \<le> 2147483648000"
  shows "\<exists>ts. Cancel_Sweep \<notin> set ts \<and> length ts \<le> total_work A s \<and> sweep_joined (moves (fetch_ohlcv api) since until ts s)"
  using assms(1,2)
proof (induction "total_work A s" arbitrary: s rule: less_induct)
  case less
  show ?case
  proof (cases "sweep_joined s")
    case True
    then show ?thesis by (intro exI [of _ "[]"]) simp
  next
    case False
    from some_task_runs [OF this less.prems(2)]
    obtain i where i: "i < length (sw_jobs s)" "\<not> over (snd (sw_jobs s ! i))" "\<not> waits s i"
      by (elim exE conjE)
    let ?s = "move (fetch_ohlcv api) since until s (Run i)"
    note step = run_progresses [OF less.prems(1) i assms(3,4), unfolded Let_def]
    have s: "sweep_good api A (ms_of_ts since) (ms_of_ts until) ?s" using step by (elim conjE)
    have drop: "total_work A ?s < total_work A s" using step by (elim conjE)
    have "0 < sw_permits ?s + holders ?s" using less.prems(2) by (simp only: move_permits)
    from less.hyps [OF drop s this]
    obtain ts where "Cancel_Sweep \<notin> set ts" "length ts \<le> total_work A ?s"
      "sweep_joined (moves (fetch_ohlcv api) since until ts ?s)" by (elim exE conjE)
    then have "Cancel_Sweep \<notin> set (Run i # ts) \<and> length (Run i # ts) \<le> total_work A s \<and>
        sweep_joined (moves (fetch_ohlcv api) since until (Run i # ts) s)"
      using drop unfolding moves_simps(2) by auto
    then show ?thesis by blast
  qed
qed

lemma start_good:
  assumes "\<And>k. k \<in> set (List.product symbols timeframes) \<Longrightarrow> served api A k" "tables_ready w"
  shows "sweep_good api A a b (sweep_start m symbols timeframes w)"
  using assms by (auto simp: sweep_good_def sweep_start_def list_all_iff)

lemma update_keys: "fst ` set (AList.update k v d) = insert k (fst ` set d)"
  by (induction d) auto

lemma results_keys:
  assumes "list_all (\<lambda>(k, st). \<exists>n. st = Done n) jobs"
  shows "fst ` set (fold (\<lambda>((symbol, timeframe), st) d. case st of Done n \<Rightarrow> AList.update (symbol @ ''.'' @ timeframe) n d | _ \<Rightarrow> d) jobs d) =
    (\<lambda>(symbol, timeframe). symbol @ ''.'' @ timeframe) ` fst ` set jobs \<union> fst ` set d"
  using assms
proof (induction jobs arbitrary: d)
  case (Cons x jobs)
  obtain sy tf n where x: "x = ((sy, tf), Done n)" using Cons.prems by auto
  have "list_all (\<lambda>(k, st). \<exists>n. st = Done n) jobs" using Cons.prems by simp
  from Cons.IH [OF this, of "AList.update (sy @ ''.'' @ tf) n d"]
  show ?case unfolding update_keys by (simp add: x)
qed simp

text \<open>When a good sweep has joined, its result is complete.\<close>

lemma good_result:
  assumes "sweep_good api A a b s" "sweep_joined s"
  shows "sweep_result s = Some (Inr (sweep_results s))"
    and "fst ` set (sweep_results s) = (\<lambda>(symbol, timeframe). symbol @ ''.'' @ timeframe) ` fst ` set (sw_jobs s)"
    and "\<forall>k\<in>fst ` set (sw_jobs s). stored A a k b (sw_world s)"
proof -
  have job: "\<exists>n. st = Done n" "stored A a k b (sw_world s)" if "(k, st) \<in> set (sw_jobs s)" for k st
  proof -
    have "over st" "job_ok A a b (sw_world s) k st"
      using that assms by (auto simp: sweep_joined_def sweep_good_def list_all_iff)
    then show "\<exists>n. st = Done n" "stored A a k b (sw_world s)" by (cases st; simp)+
  qed
  then have "sweep_errors s = []" "\<not> list_ex (\<lambda>(k, st). st = Cancelled) (sw_jobs s)"
    by (fastforce simp: sweep_errors_def List.map_filter_def filter_empty_conv list_ex_iff split: job_status.splits)+
  then show "sweep_result s = Some (Inr (sweep_results s))" using assms(2) by (simp add: sweep_result_def)
  have "list_all (\<lambda>(k, st). \<exists>n. st = Done n) (sw_jobs s)" using job(1) by (auto simp: list_all_iff)
  from results_keys [OF this, of "[]"]
  show "fst ` set (sweep_results s) = (\<lambda>(symbol, timeframe). symbol @ ''.'' @ timeframe) ` fst ` set (sw_jobs s)"
    by (simp add: sweep_results_def)
  show "\<forall>k\<in>fst ` set (sw_jobs s). stored A a k b (sw_world s)" using job(2) by force
qed


section \<open>Example runs\<close>

definition two_tables :: db where
  "two_tables = [''raw_mexc_candles_1m'' \<mapsto> \<lparr>t_schema = tbl_raw_mexc_candles_1m, t_rows = []\<rparr>,
     ''raw_mexc_candles_1d'' \<mapsto> \<lparr>t_schema = tbl_raw_mexc_candles_1d, t_rows = []\<rparr>]"

lemma two_tables_ready: "tables_ready (calm_world 0 two_tables)"
  by (simp add: tables_ready_def candle_db_def two_tables_def calm_world_def candle_schema_def)

definition two_rows :: "wire list list" where
  "two_rows = [sample_row 1700000040000, sample_row 1700000100000]"

lemma two_rows_served: "served (\<lambda>_ _ ms _. Inr (page two_rows ms)) (\<lambda>_. two_rows) (''BTC'', ''1m'')"
proof -
  have "row_ms (sample_row 1700000040000) = 1700000040000" "row_ms (sample_row 1700000100000) = 1700000100000"
    by (simp_all add: sample_row_def)
  then show ?thesis
    by (auto simp: served_def serves_def good_archive_def two_rows_def candle_step_def safe_ms_def intro!: sample_row_archived)
qed


definition one_bad :: ohlcv_api where
  "one_bad symbol timeframe ms n = (if symbol = ''BAD'' then Inl (HTTPStatusError 400) else Inr (page two_rows ms))"


end
