(* ===== verification/Gap_Final.thy ===== *)
theory Gap_Final
  imports Gap_Sweep
begin

text \<open>
  Gap flagging (ingest/gap.py) against the daily repair (ingest/backfill.py, the candle jobs of
  ingest/scheduler/jobs.py): both write with the first-write-wins merge, so the synthetic row of a
  flagged minute is final. The lemmas extend the invariants of the composed writers (locale
  \<open>ingest_invariant\<close>) to every schedule of the sweep.
\<close>

section \<open>A flagged gap is never repaired\<close>

lemma flag_gap_rows:
  assumes "w_db w t = Some ts" "candle_schema (t_schema ts)" "flag_gap t sy a b step src w = (Inr n, w1)"
    and "row \<in> set (rows_of (w_db w1) t)" "row \<notin> set (rows_of (w_db w) t)"
  shows "cell_of (t_schema ts) row ''quality_flag'' = CText ''gap_detected''"
proof -
  obtain records x d' where records: "mapE (gap_record sy src) (gap_cursors (ms_of_ts a) (ms_of_ts b) step) = Inr records"
    and copy: "copy_into_hypertable x (w_db w) t records candle_columns candle_conflict = Inr (d', n)" and d': "w_db w1 = d'"
    using assms(3-5)
    by (auto simp: flag_gap_def bindI_def liftI_def retI_def copyI_def readI_def split: if_splits sum.splits prod.splits)
  from copy show ?thesis
  proof (cases rule: copy_cases)
    case empty
    then show ?thesis using assms(4,5) d' by simp
  next
    case (merged ts' staged)
    have ts': "ts' = ts" using merged(2) assms(1) by simp
    obtain extra where extra: "fold (insert_do_nothing (t_schema ts)) staged (t_rows ts) = t_rows ts @ extra" "set extra \<subseteq> set staged"
      using fold_insert_extra by blast
    have "row \<in> set staged" using assms(1,4,5) d' merged(8) extra ts' by (auto simp: rows_of_def)
    then obtain r where r: "r \<in> set records" "stage_row x (t_schema ts) candle_columns r = Inr row"
      using mapE_Inr_set [OF merged(5)] ts' by blast
    then obtain c where "gap_record sy src c = Inr r" using mapE_Inr_set [OF records] by blast
    then obtain us where "r = candle_record (CText sy) us dec_zero dec_zero dec_zero dec_zero dec_zero src ''gap_detected''"
      by (auto simp: gap_record_def res_simps)
    moreover have "list_all fits [dec_zero, dec_zero, dec_zero, dec_zero, dec_zero]" using dec_zero_fits by simp
    ultimately obtain row' where "stage_row x (t_schema ts) candle_columns r = Inr row'"
      "cell_of (t_schema ts) row' ''quality_flag'' = CText ''gap_detected''"
      using candle_staged [OF assms(2), of dec_zero dec_zero dec_zero dec_zero dec_zero x sy us src "''gap_detected''"] by blast
    then show ?thesis using r(2) by simp
  qed
qed

context ingest_invariant
begin

lemma keeps_segment: "(\<And>sy tf a b. keeps I (fetch sy tf a b)) \<Longrightarrow> keeps I (segment fetch since until k st)"
  by (cases "(fetch, since, until, k, st)" rule: segment.cases)
    (auto simp: completed_def intro!: keeps_intros primitives split: option.split simp del: not_less)

lemma keeps_move:
  assumes "\<And>sy tf a b. keeps I (fetch sy tf a b)" "I (sw_world s)"
  shows "I (sw_world (move fetch since until s t))"
proof (cases t)
  case (Run i)
  obtain r w where seg: "segment fetch since until (fst (sw_jobs s ! i)) (snd (sw_jobs s ! i)) (sw_world s) = (r, w)" by fastforce
  then have "I w" using keepsD [OF keeps_segment [OF assms(1)] assms(2) seg] by simp
  then show ?thesis using seg assms(2) Run by (simp split: sum.split)
qed (use assms(2) in auto)

lemma keeps_moves:
  "(\<And>sy tf a b. keeps I (fetch sy tf a b)) \<Longrightarrow> I (sw_world s) \<Longrightarrow> I (sw_world (moves fetch since until ts s))"
  by (induction ts arbitrary: s) (simp_all add: keeps_move)

end

lemma row_of_key_unique:
  assumes "distinct (map f xs)" "x \<in> set xs"
  shows "filter (\<lambda>y. f y = f x) xs = [x]"
  using assms
proof (induction xs)
  case (Cons z xs)
  show ?case
  proof (cases "z = x")
    case True
    have "filter (\<lambda>y. f y = f x) xs = []" using Cons.prems(1) unfolding True by (auto simp: filter_empty_conv image_iff)
    then show ?thesis using True by simp
  next
    case False
    then have "x \<in> set xs" using Cons.prems(2) by simp
    moreover from this have "f z \<noteq> f x" using Cons.prems(1) by force
    ultimately show ?thesis using Cons by simp
  qed
qed simp

lemma universe_grown:
  assumes "wf_db (w_db w)"
  shows "grown w (snd (backfill_universe schedule (fetch_ohlcv api) symbols timeframes since until m w)) \<and>
    wf_db (w_db (snd (backfill_universe schedule (fetch_ohlcv api) symbols timeframes since until m w)))"
proof -
  let ?s = "sweep_start m symbols timeframes w"
  let ?v = "sw_world (moves (fetch_ohlcv api) since until schedule ?s)"
  have world: "snd (backfill_universe schedule (fetch_ohlcv api) symbols timeframes since until m w) = ?v"
    by (auto simp: backfill_universe_def Let_def split: option.split sum.split)
  have start: "sw_world ?s = w" by (simp add: sweep_start_def)
  have "\<forall>t. prefix (rows_of (w_db w) t) (rows_of (w_db ?v) t)"
    by (rule grow.keeps_moves [OF grow.keeps_fetch_ohlcv]) (simp add: start)
  moreover have "schema_of (w_db ?v) = schema_of (w_db w)"
    by (rule schemas.keeps_moves [OF schemas.keeps_fetch_ohlcv]) (simp add: start)
  moreover have "wf_db (w_db ?v)"
    by (rule wf.keeps_moves [OF wf.keeps_fetch_ohlcv]) (simp add: start assms)
  ultimately show ?thesis unfolding world grown_def by simp
qed

text \<open>C38: A minute that flag_gap has marked stays marked for good: when its bucket had no row, the row of
  the bucket afterwards is a gap_detected one, and it is still the only row of the bucket after any
  run of the daily repair, even when the exchange serves the candle, since the first write of a
  key wins. The repair job is documented to pick up the minutes the live stream missed.\<close>

theorem flagged_gap_is_final:
  assumes "wf_db (w_db w)" "w_db w t = Some ts" "candle_schema (t_schema ts)"
    and "flag_gap t sy a b step src w = (Inr n, w1)" "key \<in> keys_of (w_db w1) t" "key \<notin> keys_of (w_db w) t"
  shows "\<exists>row. cell_of (t_schema ts) row ''quality_flag'' = CText ''gap_detected'' \<and>
    (\<forall>schedule api symbols timeframes since until m.
      filter (\<lambda>r. row_key (t_schema ts) r = key)
        (rows_of (w_db (snd (backfill_universe schedule (fetch_ohlcv api) symbols timeframes since until m w1))) t) = [row])"
proof -
  have g: "grown w w1"
    using keepsD [OF grow.keeps_flag_gap _ assms(4), of "rows_of (w_db w)"]
      keepsD [OF schemas.keeps_flag_gap _ assms(4), of "schema_of (w_db w)"] by (simp add: grown_def)
  have wf1: "wf_db (w_db w1)" using keepsD [OF wf.keeps_flag_gap assms(1,4)] .
  have sch: "\<exists>ts'. w_db v t = Some ts' \<and> t_schema ts' = t_schema ts" if "grown w v" for v
    using that assms(2) by (auto simp: grown_def schema_of_def dest!: fun_cong [of _ _ t] split: option.splits)
  obtain row where row: "row \<in> set (rows_of (w_db w1) t)" "row_key (t_schema ts) row = key"
    using assms(5) sch [OF g] by (auto simp: keys_of_def row_keys_def rows_of_def)
  moreover have "row \<notin> set (rows_of (w_db w) t)"
    using assms(2,6) row(2) by (auto simp: keys_of_def row_keys_def rows_of_def)
  ultimately have "cell_of (t_schema ts) row ''quality_flag'' = CText ''gap_detected''"
    using flag_gap_rows [OF assms(2-4)] by blast
  moreover have "filter (\<lambda>r. row_key (t_schema ts) r = key)
      (rows_of (w_db (snd (backfill_universe schedule (fetch_ohlcv api) symbols timeframes since until m w1))) t) = [row]"
    for schedule api symbols timeframes since until m
  proof -
    let ?v = "snd (backfill_universe schedule (fetch_ohlcv api) symbols timeframes since until m w1)"
    have v: "grown w1 ?v" "wf_db (w_db ?v)" using universe_grown [OF wf1] by blast+
    obtain ts' where ts': "w_db ?v t = Some ts'" "t_schema ts' = t_schema ts"
      using sch [OF grown_trans [OF g v(1)]] by blast
    have "row \<in> set (rows_of (w_db ?v) t)" using row(1) v(1) by (auto simp: grown_def dest: set_mono_prefix [THEN subsetD])
    moreover have "distinct (map (row_key (t_schema ts)) (rows_of (w_db ?v) t))"
      using v(2) ts' unfolding wf_db_def by (simp add: rows_of_def wf_rows_def flip: ts'(2))
    ultimately show ?thesis using row_of_key_unique [of "row_key (t_schema ts)" _ row] row(2) by simp
  qed
  ultimately show ?thesis by blast
qed

lemma sample_candles_wf: "wf_db (w_db (calm_world 1000 sample_candle_db))"
  by (simp add: wf_db_def wf_rows_def sample_candle_db_def)

text \<open>The minute of the first of the two served candles is flagged, then the sweep is served both.\<close>

lemma flagged_gap_is_final_witness:
  "\<exists>w1 row. flag_gap ''raw_mexc_candles_1m'' ''BTC'' (1000000 * 1700000040) (1000000 * 1700000100) 60000 ''mexc_native''
      (calm_world 1000 sample_candle_db) = (Inr 1, w1) \<and>
    cell_of tbl_raw_mexc_candles_1m row ''quality_flag'' = CText ''gap_detected'' \<and>
    filter (\<lambda>r. row_key tbl_raw_mexc_candles_1m r = [CText ''BTC'', CTs (1000 * 1700000040000)])
      (rows_of (w_db (snd (backfill_universe [Run 0, Run 0, Run 0] (fetch_ohlcv (\<lambda>_ _ ms _. Inr (page two_rows ms)))
        [''BTC''] [''1m''] (1000 * 1700000000000) (1000 * 1700000200000) 8 w1))) ''raw_mexc_candles_1m'') = [row]"
proof -
  let ?w = "calm_world 1000 sample_candle_db"
  have ms: "ms_of_ts (1000000 * 1700000040) = 1700000040000" "ms_of_ts (1000000 * 1700000100) = 1700000100000"
    using ms_of_ts_whole_seconds [of 1700000040] ms_of_ts_whole_seconds [of 1700000100] by simp_all
  have cs: "gap_cursors 1700000040000 1700000100000 60000 = [1700000040000]" by code_simp
  obtain w1 where w1: "flag_gap ''raw_mexc_candles_1m'' ''BTC'' (1000000 * 1700000040) (1000000 * 1700000100) 60000 ''mexc_native'' ?w = (Inr 1, w1)"
    "keys_of (w_db w1) ''raw_mexc_candles_1m'' = keys_of (w_db ?w) ''raw_mexc_candles_1m'' \<union> {[CText ''BTC'', CTs (1000 * 1700000040000)]}"
    using flag_gap_spec [of "''raw_mexc_candles_1m''" ?w "1000000 * 1700000040" "1000000 * 1700000100" 60000 "''mexc_native''" "''BTC''"]
      sample_candle_db unfolding ms cs by (auto simp: SOURCE_ENUM_def)
  have "w_db ?w ''raw_mexc_candles_1m'' = Some \<lparr>t_schema = tbl_raw_mexc_candles_1m, t_rows = []\<rparr>"
    "keys_of (w_db ?w) ''raw_mexc_candles_1m'' = {}"
    by (simp_all add: sample_candle_db_def keys_of_def row_keys_def)
  from flagged_gap_is_final [OF sample_candles_wf this(1) _ w1(1), of "[CText ''BTC'', CTs (1000 * 1700000040000)]"] this w1
  show ?thesis by (auto simp: candle_schema_def)
qed

end
