(* ===== verification/Stream_Group.thy ===== *)
theory Stream_Group
  imports Divergence Freshness
begin

text \<open>
  The task group of mexc_ws_streams (src/shortfire/ingest/mexc/streams.py) on the asyncio event
  loop. A task runs from one await to the next; a step of the group is one such segment of one
  task, the end of the body of the context manager, a cancellation, or the join. What a task
  can do is read off its loop: the websocket loops repeat for ever, the two supervision loops
  watch the shutdown event, and the funding loop awaits only inside its loop over the symbols.
\<close>

section \<open>Tasks\<close>

datatype stream_task =
    Aggregator | Funding_Live | Trades_Persist | Liquidations | L2 string rat | Watchdog | Divergence_Check

datatype task_status = Ready | Waiting | Spinning | Finished | Failed exc | Cancelled

record group_config =
  gc_symbols :: "string list"
  gc_tier1 :: "string list"
  gc_has_watch_liquidations :: bool

text \<open>\<open>cadence = 5.0 if sym in tier1_set else 10.0\<close>\<close>

definition l2_cadence :: "string list \<Rightarrow> string \<Rightarrow> rat" where
  "l2_cadence tier1 sy = (if sy \<in> set tier1 then 5 else 10)"

definition group_tasks :: "group_config \<Rightarrow> stream_task list" where
  "group_tasks c =
     [Aggregator, Funding_Live, Trades_Persist, Liquidations] @
     map (\<lambda>sy. L2 sy (l2_cadence (gc_tier1 c) sy)) (gc_symbols c) @ [Watchdog, Divergence_Check]"

text \<open>Whether the coroutine of a task can return, given the state of the shutdown event.\<close>

fun may_return :: "group_config \<Rightarrow> bool \<Rightarrow> stream_task \<Rightarrow> bool" where
  "may_return c shutdown Watchdog = shutdown"
| "may_return c shutdown Divergence_Check = (shutdown \<or> gc_tier1 c = [])"
| "may_return c shutdown Liquidations = (\<not> gc_has_watch_liquidations c)"
| "may_return c shutdown _ = False"

text \<open>Whether a segment of a task never reaches an await: \<open>while True: for sym in []: ...\<close>.\<close>

fun spins :: "group_config \<Rightarrow> stream_task \<Rightarrow> bool" where
  "spins c Funding_Live = (gc_symbols c = [])"
| "spins c _ = False"

section \<open>The group\<close>

datatype body = Inside | Left "unit res"

text \<open>
  \<open>g_abort\<close>: the group has cancelled its tasks, after a failure of a task or of the body, or
  because the task that runs the body was itself cancelled.
\<close>

record group =
  g_tasks :: "(stream_task \<times> task_status) list"
  g_body :: body
  g_shutdown :: bool
  g_abort :: bool
  g_joined :: bool

definition group_start :: "group_config \<Rightarrow> group" where
  "group_start c = \<lparr>g_tasks = map (\<lambda>t. (t, Ready)) (group_tasks c), g_body = Inside, g_shutdown = False,
     g_abort = False, g_joined = False\<rparr>"

definition set_status :: "nat \<Rightarrow> task_status \<Rightarrow> group \<Rightarrow> group" where
  "set_status i st g = g\<lparr>g_tasks := (g_tasks g)[i := (fst (g_tasks g ! i), st)]\<rparr>"

fun live :: "task_status \<Rightarrow> bool" where
  "live Ready = True"
| "live Waiting = True"
| "live Spinning = True"
| "live _ = False"

text \<open>The event loop can run something else only while no task spins.\<close>

definition loop_free :: "group \<Rightarrow> bool" where
  "loop_free g \<longleftrightarrow> list_all (\<lambda>(t, st). st \<noteq> Spinning) (g_tasks g)"

definition runnable :: "group \<Rightarrow> nat \<Rightarrow> stream_task \<Rightarrow> task_status \<Rightarrow> bool" where
  "runnable g i t st \<longleftrightarrow> loop_free g \<and> \<not> g_joined g \<and> i < length (g_tasks g) \<and> g_tasks g ! i = (t, st) \<and>
     st \<in> {Ready, Waiting}"

inductive group_step :: "group_config \<Rightarrow> group \<Rightarrow> group \<Rightarrow> bool" for c :: group_config where
  awaits: "runnable g i t st \<Longrightarrow> \<not> spins c t \<Longrightarrow> group_step c g (set_status i Waiting g)"
| never_awaits: "runnable g i t st \<Longrightarrow> spins c t \<Longrightarrow> group_step c g (set_status i Spinning g)"
| returns: "runnable g i t st \<Longrightarrow> \<not> spins c t \<Longrightarrow> may_return c (g_shutdown g) t \<Longrightarrow>
    group_step c g (set_status i Finished g)"
| fails: "runnable g i t st \<Longrightarrow> \<not> spins c t \<Longrightarrow> is_Exception e \<Longrightarrow>
    group_step c g ((set_status i (Failed e) g)\<lparr>g_abort := True\<rparr>)"
| task_cancelled: "runnable g i t st \<Longrightarrow> g_abort g \<Longrightarrow> group_step c g (set_status i Cancelled g)"
| body_returns: "loop_free g \<Longrightarrow> g_body g = Inside \<Longrightarrow>
    group_step c g (g\<lparr>g_body := Left (Inr ()), g_shutdown := True\<rparr>)"
| body_raises: "loop_free g \<Longrightarrow> g_body g = Inside \<Longrightarrow> is_Exception e \<Longrightarrow>
    group_step c g (g\<lparr>g_body := Left (Inl e), g_shutdown := True, g_abort := True\<rparr>)"
| body_cancelled: "loop_free g \<Longrightarrow> g_body g = Inside \<Longrightarrow>
    group_step c g (g\<lparr>g_body := Left (Inl CancelledError), g_shutdown := True, g_abort := True\<rparr>)"
| join_cancelled: "loop_free g \<Longrightarrow> \<not> g_joined g \<Longrightarrow> g_body g = Left r \<Longrightarrow>
    group_step c g (g\<lparr>g_body := Left (if r = Inr () then Inl CancelledError else r), g_abort := True\<rparr>)"
| joins: "g_body g = Left r \<Longrightarrow> \<not> g_joined g \<Longrightarrow> list_all (\<lambda>(t, st). \<not> live st) (g_tasks g) \<Longrightarrow>
    group_step c g (g\<lparr>g_joined := True\<rparr>)"

inductive reachable :: "group_config \<Rightarrow> group \<Rightarrow> bool" for c :: group_config where
  start: "reachable c (group_start c)"
| step: "reachable c g \<Longrightarrow> group_step c g g' \<Longrightarrow> reachable c g'"

inductive_cases group_stepE: "group_step c g g'"

text \<open>What the context manager raises once the group has joined: the errors of an ExceptionGroup.\<close>

definition group_errors :: "group \<Rightarrow> exc list" where
  "group_errors g =
     List.map_filter (\<lambda>(t, st). case st of Failed e \<Rightarrow> Some e | _ \<Rightarrow> None) (g_tasks g) @
     (case g_body g of Left (Inl e) \<Rightarrow> if is_Exception e then [e] else [] | _ \<Rightarrow> [])"

datatype group_exit = Returns | Raises_Group "exc list" | Raises_Cancelled

definition group_outcome :: "group \<Rightarrow> group_exit" where
  "group_outcome g =
     (if group_errors g \<noteq> [] then Raises_Group (group_errors g)
      else if g_body g = Left (Inl CancelledError) then Raises_Cancelled else Returns)"

section \<open>The invariant\<close>

definition entry_ok :: "group_config \<Rightarrow> bool \<Rightarrow> stream_task \<times> task_status \<Rightarrow> bool" where
  "entry_ok c abort x \<longleftrightarrow> (case x of (t, st) \<Rightarrow>
     (case st of
        Ready \<Rightarrow> True
      | Waiting \<Rightarrow> \<not> spins c t
      | Spinning \<Rightarrow> spins c t
      | Finished \<Rightarrow> t \<in> {Watchdog, Divergence_Check, Liquidations}
      | Failed e \<Rightarrow> abort \<and> is_Exception e \<and> \<not> spins c t
      | Cancelled \<Rightarrow> abort))"

definition group_ok :: "group_config \<Rightarrow> group \<Rightarrow> bool" where
  "group_ok c g \<longleftrightarrow>
     map fst (g_tasks g) = group_tasks c \<and> list_all (entry_ok c (g_abort g)) (g_tasks g) \<and>
     (g_abort g \<longrightarrow> (\<exists>t e. (t, Failed e) \<in> set (g_tasks g)) \<or> (\<exists>e. g_body g = Left (Inl e))) \<and>
     (\<forall>e. g_body g = Left (Inl e) \<longrightarrow> g_abort g) \<and>
     (g_joined g \<longrightarrow> g_body g \<noteq> Inside \<and> list_all (\<lambda>(t, st). \<not> live st) (g_tasks g))"

lemma set_status_simps [simp]:
  "g_body (set_status i st g) = g_body g" "g_shutdown (set_status i st g) = g_shutdown g"
  "g_abort (set_status i st g) = g_abort g" "g_joined (set_status i st g) = g_joined g"
  "length (g_tasks (set_status i st g)) = length (g_tasks g)"
  by (simp_all add: set_status_def)

lemma set_status_names: "runnable g i t st \<Longrightarrow> map fst (g_tasks (set_status i st' g)) = map fst (g_tasks g)"
  by (auto simp: set_status_def runnable_def map_update list_update_same_conv)

lemma set_status_all:
  assumes "runnable g i t st" "list_all P (g_tasks g)" "P (t, st')"
  shows "list_all P (g_tasks (set_status i st' g))"
  using assms set_update_subset_insert [of "g_tasks g" i "(t, st')"]
  by (auto simp: set_status_def runnable_def list_all_iff)

lemma set_status_failed:
  assumes "runnable g i t st" "(t', Failed e) \<in> set (g_tasks g)"
  shows "(t', Failed e) \<in> set (g_tasks (set_status i st' g))"
proof -
  obtain j where j: "j < length (g_tasks g)" "g_tasks g ! j = (t', Failed e)"
    using assms(2) by (auto simp: in_set_conv_nth)
  moreover have "j \<noteq> i" using assms(1) j by (auto simp: runnable_def)
  ultimately show ?thesis
    by (auto simp: set_status_def in_set_conv_nth intro!: exI [of _ j])
qed

lemma entry_abort: "entry_ok c a x \<Longrightarrow> entry_ok c True x"
  by (auto simp: entry_ok_def split: prod.splits task_status.splits)

lemma may_return_tasks: "may_return c sd t \<Longrightarrow> t \<in> {Watchdog, Divergence_Check, Liquidations}"
  by (cases t) simp_all

lemma group_ok_status:
  assumes "group_ok c g" "runnable g i t st" "entry_ok c (g_abort g) (t, st')"
  shows "group_ok c (set_status i st' g)"
proof -
  have "\<not> g_joined g" using assms(2) by (simp add: runnable_def)
  moreover have "list_all (entry_ok c (g_abort g)) (g_tasks (set_status i st' g))"
    using assms by (intro set_status_all [OF assms(2)]) (auto simp: group_ok_def)
  moreover have "\<exists>t e. (t, Failed e) \<in> set (g_tasks (set_status i st' g))" if "(t', Failed e) \<in> set (g_tasks g)" for t' e
    using set_status_failed [OF assms(2) that] by blast
  ultimately show ?thesis
    using assms(1) set_status_names [OF assms(2), of st'] unfolding group_ok_def by auto
qed

lemma entry_simps:
  "entry_ok c a (t, Waiting) \<longleftrightarrow> \<not> spins c t" "entry_ok c a (t, Spinning) \<longleftrightarrow> spins c t"
  "entry_ok c a (t, Finished) \<longleftrightarrow> t \<in> {Watchdog, Divergence_Check, Liquidations}"
  "entry_ok c a (t, Failed e) \<longleftrightarrow> a \<and> is_Exception e \<and> \<not> spins c t" "entry_ok c a (t, Cancelled) \<longleftrightarrow> a"
  by (auto simp: entry_ok_def)

lemma entries_abort: "list_all (entry_ok c a) xs \<Longrightarrow> list_all (entry_ok c True) xs"
  by (auto simp: list_all_iff entry_abort)

lemma group_ok_body:
  "group_ok c g \<Longrightarrow> group_ok c (g\<lparr>g_body := Left (Inl e), g_shutdown := sd, g_abort := True\<rparr>)"
  "group_ok c g \<Longrightarrow> g_body g = Inside \<Longrightarrow> group_ok c (g\<lparr>g_body := Left (Inr ()), g_shutdown := sd\<rparr>)"
  by (auto simp: group_ok_def intro: entries_abort)

lemma group_step_ok:
  assumes "group_step c g g'" "group_ok c g"
  shows "group_ok c g'"
  using assms(1)
proof cases
  case (fails i t st e)
  have "list_all (entry_ok c True) (g_tasks (set_status i (Failed e) g))"
    using assms(2) fails(3,4) by (intro set_status_all [OF fails(2)]) (auto simp: group_ok_def entries_abort entry_simps)
  moreover have "(t, Failed e) \<in> set (g_tasks (set_status i (Failed e) g))"
    using fails(2) set_update_memI [of i "g_tasks g" "(t, Failed e)"] by (simp add: set_status_def runnable_def)
  moreover have "\<not> g_joined g" using fails(2) by (simp add: runnable_def)
  ultimately show ?thesis
    using assms(2) set_status_names [OF fails(2), of "Failed e"] unfolding fails(1) group_ok_def by auto
next
  case (join_cancelled r)
  then show ?thesis
    using group_ok_body(1) [OF assms(2), where sd = "g_shutdown g"] assms(2)
    by (cases r) (auto simp: group_ok_def)
qed (use assms(2) in \<open>auto simp: entry_simps group_ok_body dest: may_return_tasks intro!: group_ok_status, auto simp: group_ok_def\<close>)

lemma reachable_ok: "reachable c g \<Longrightarrow> group_ok c g"
proof (induction rule: reachable.induct)
  case start
  show ?case by (auto simp: group_ok_def group_start_def list_all_iff entry_ok_def comp_def)
qed (blast intro: group_step_ok)

section \<open>How the group ends\<close>

lemma aggregator_task: "reachable c g \<Longrightarrow> \<exists>st. (Aggregator, st) \<in> set (g_tasks g)"
proof -
  assume "reachable c g"
  then have "map fst (g_tasks g) = group_tasks c" using reachable_ok by (simp add: group_ok_def)
  then have "Aggregator \<in> fst ` set (g_tasks g)" by (metis group_tasks_def in_set_conv_decomp append_Cons append_Nil set_map)
  then show ?thesis by auto
qed

lemma failed_errors: "(t, Failed e) \<in> set (g_tasks g) \<Longrightarrow> e \<in> set (group_errors g)"
  by (force simp: group_errors_def List.map_filter_def)

lemma joined_aborted:
  assumes "reachable c g" "g_joined g"
  shows "g_abort g"
proof -
  obtain st where st: "(Aggregator, st) \<in> set (g_tasks g)" using aggregator_task [OF assms(1)] by blast
  have ok: "group_ok c g" by (rule reachable_ok [OF assms(1)])
  then have "\<not> live st" using st assms(2) by (auto simp: group_ok_def list_all_iff)
  moreover have "entry_ok c (g_abort g) (Aggregator, st)" using ok st by (auto simp: group_ok_def list_all_iff)
  ultimately show ?thesis by (cases st) (auto simp: entry_ok_def)
qed

text \<open>The context manager of the streams never exits normally: when its group has joined, all tasks are
  over and it raises, either the group of errors or the cancellation. The websocket loops do not
  look at the shutdown event, so setting it when the body ends, which a comment takes to be enough
  for a clean shutdown, does not let the group join.\<close>

theorem group_never_returns:
  assumes "reachable c g" "g_joined g"
  shows "group_outcome g \<noteq> Returns \<and> list_all (\<lambda>(t, st). \<not> live st) (g_tasks g) \<and> g_body g \<noteq> Inside"
proof -
  have ok: "group_ok c g" by (rule reachable_ok [OF assms(1)])
  then consider t e where "(t, Failed e) \<in> set (g_tasks g)" | e where "g_body g = Left (Inl e)"
    using joined_aborted [OF assms] by (auto simp: group_ok_def)
  then have "group_outcome g \<noteq> Returns"
  proof cases
    case 1
    then show ?thesis using failed_errors [of t e g] by (auto simp: group_outcome_def)
  next
    case 2
    then show ?thesis by (auto simp: group_outcome_def group_errors_def is_Exception_def)
  qed
  then show ?thesis using ok assms(2) by (auto simp: group_ok_def)
qed

text \<open>A failure of any task, such as the watchdog's RuntimeError, cancels the whole group, and when it
  has joined the context manager raises a group of errors that contains it.\<close>

theorem group_failure_escapes:
  assumes "reachable c g" "(t, Failed e) \<in> set (g_tasks g)"
  shows "g_abort g \<and> (g_joined g \<longrightarrow> (\<exists>es. group_outcome g = Raises_Group es \<and> e \<in> set es))"
proof -
  have "entry_ok c (g_abort g) (t, Failed e)"
    using reachable_ok [OF assms(1)] assms(2) by (auto simp: group_ok_def list_all_iff)
  then show ?thesis
    using failed_errors [OF assms(2)] by (auto simp: entry_simps group_outcome_def)
qed

lemma filter_update_less:
  assumes "i < length xs" "P (xs ! i)" "\<not> P y"
  shows "length (filter P (xs[i := y])) < length (filter P xs)"
proof -
  have "length (filter P xs) = length (filter P (take i xs @ xs ! i # drop (Suc i) xs))"
    using id_take_nth_drop [OF assms(1)] by simp
  then show ?thesis using assms by (simp add: upd_conv_take_nth_drop)
qed

lemma cancelled_group_joins:
  "g_abort g \<Longrightarrow> loop_free g \<Longrightarrow> \<not> g_joined g \<Longrightarrow> g_body g = Left r \<Longrightarrow> \<exists>g'. (group_step c)\<^sup>*\<^sup>* g g' \<and> g_joined g'"
proof (induction "length (filter (\<lambda>(t, st). live st) (g_tasks g))" arbitrary: g rule: less_induct)
  case less
  show ?case
  proof (cases "list_all (\<lambda>(t, st). \<not> live st) (g_tasks g)")
    case True
    then have "group_step c g (g\<lparr>g_joined := True\<rparr>)" using less.prems by (intro joins)
    then show ?thesis by (intro exI [of _ "g\<lparr>g_joined := True\<rparr>"]) auto
  next
    case False
    then obtain i t st where i: "i < length (g_tasks g)" "g_tasks g ! i = (t, st)" "live st"
      by (auto simp: list_all_length)
    moreover have "st \<noteq> Spinning"
      using less.prems(2) i nth_mem [OF i(1)] by (auto simp: loop_free_def list_all_iff)
    ultimately have run: "runnable g i t st" using less.prems(2,3) by (cases st) (auto simp: runnable_def)
    let ?g = "set_status i Cancelled g"
    have "loop_free ?g"
      using less.prems(2) unfolding loop_free_def by (intro set_status_all [OF run]) auto
    moreover have "length (filter (\<lambda>(t, st). live st) (g_tasks ?g)) < length (filter (\<lambda>(t, st). live st) (g_tasks g))"
      using i by (auto simp: set_status_def intro!: filter_update_less)
    ultimately obtain g' where "(group_step c)\<^sup>*\<^sup>* ?g g'" "g_joined g'"
      using less.hyps [of ?g] less.prems by auto
    moreover have "group_step c g ?g" using run less.prems(1) by (rule task_cancelled)
    ultimately show ?thesis by (meson converse_rtranclp_into_rtranclp)
  qed
qed

text \<open>No task is orphaned: from every reachable state in which the group has been cancelled and no task
  holds the event loop, the group can run on to its join.\<close>

theorem cancelled_group_can_join:
  assumes "reachable c g" "g_abort g" "loop_free g"
  shows "\<exists>g'. (group_step c)\<^sup>*\<^sup>* g g' \<and> g_joined g'"
proof (cases "g_joined g")
  case True
  then show ?thesis by blast
next
  case False
  show ?thesis
  proof (cases "g_body g")
    case (Left r)
    then show ?thesis using cancelled_group_joins [OF assms(2,3) False] by blast
  next
    case Inside
    let ?g = "g\<lparr>g_body := Left (Inl CancelledError), g_shutdown := True, g_abort := True\<rparr>"
    have "group_step c g ?g" using assms(3) Inside by (rule body_cancelled)
    moreover obtain g' where "(group_step c)\<^sup>*\<^sup>* ?g g'" "g_joined g'"
      using cancelled_group_joins [of ?g] False assms(3) by (auto simp: loop_free_def)
    ultimately show ?thesis by (meson converse_rtranclp_into_rtranclp)
  qed
qed

section \<open>An empty universe\<close>

lemma loop_free_symbols:
  assumes "reachable c g" "gc_symbols c \<noteq> []"
  shows "loop_free g"
proof -
  have "\<not> spins c t" for t using assms(2) by (cases t) simp_all
  then show ?thesis
    using reachable_ok [OF assms(1)] by (auto simp: group_ok_def loop_free_def list_all_iff entry_ok_def)
qed


section \<open>Example runs\<close>

definition one_symbol :: group_config where
  "one_symbol = \<lparr>gc_symbols = [''BTC/USDT:USDT''], gc_tier1 = [], gc_has_watch_liquidations = False\<rparr>"

definition no_symbols :: group_config where
  "no_symbols = \<lparr>gc_symbols = [], gc_tier1 = [], gc_has_watch_liquidations = False\<rparr>"

definition after_failure :: "group_config \<Rightarrow> group" where
  "after_failure c =
     (set_status 0 (Failed TimeoutError) ((group_start c)\<lparr>g_body := Left (Inr ()), g_shutdown := True\<rparr>))\<lparr>g_abort := True\<rparr>"

lemma start_free: "loop_free ((group_start c)\<lparr>g_body := b, g_shutdown := sd\<rparr>)" "loop_free (group_start c)"
  by (auto simp: loop_free_def group_start_def list_all_iff)

lemma after_failure_reachable: "reachable c (after_failure c)"
proof -
  let ?g = "(group_start c)\<lparr>g_body := Left (Inr ()), g_shutdown := True\<rparr>"
  have "group_step c (group_start c) ?g" by (rule body_returns) (simp add: start_free, simp add: group_start_def)
  then have "reachable c ?g" by (rule reachable.step [OF reachable.start])
  moreover have "runnable ?g 0 Aggregator Ready" by (simp add: runnable_def start_free) (simp add: group_start_def group_tasks_def)
  then have "group_step c ?g (after_failure c)"
    unfolding after_failure_def by (rule fails) (simp_all add: is_Exception_def)
  ultimately show ?thesis by (rule reachable.step)
qed

lemma after_failure_state:
  "g_abort (after_failure c)" "\<not> g_joined (after_failure c)" "g_body (after_failure c) = Left (Inr ())"
  "(Aggregator, Failed TimeoutError) \<in> set (g_tasks (after_failure c))" "loop_free (after_failure c)"
  by (auto simp: after_failure_def group_start_def group_tasks_def set_status_def loop_free_def list_all_iff)

lemma reachable_run: "(group_step c)\<^sup>*\<^sup>* g g' \<Longrightarrow> reachable c g \<Longrightarrow> reachable c g'"
  by (induction rule: rtranclp_induct) (auto intro: reachable.step)

lemma joined_example: "\<exists>g. reachable one_symbol g \<and> g_joined g"
  using cancelled_group_joins [OF after_failure_state(1,5,2,3), of one_symbol]
    reachable_run [OF _ after_failure_reachable] by blast

lemma group_never_returns_witness: "\<exists>g. reachable one_symbol g \<and> g_joined g \<and> group_outcome g \<noteq> Returns"
  using joined_example group_never_returns by blast

lemma group_failure_escapes_witness: "g_abort (after_failure one_symbol)"
  using group_failure_escapes [OF after_failure_reachable after_failure_state(4)] by blast

lemma cancelled_group_can_join_witness:
  "\<exists>g'. (group_step one_symbol)\<^sup>*\<^sup>* (after_failure one_symbol) g' \<and> g_joined g'"
  by (rule cancelled_group_can_join [OF after_failure_reachable after_failure_state(1,5)])


end
