(* ===== verification/Backup_Keys.thy ===== *)
theory Backup_Keys
  imports Telegram "HOL-Library.List_Lexorder" "HOL-Library.Char_ord" "HOL-Library.Product_Lexorder"
begin

text \<open>
  The names of the dumps of src/shortfire/ingest/backup/pg_dump_r2.py: the UTC time in a key, its
  format %Y%m%dT%H%M%SZ written by strftime, and its parse by strptime, whose pattern tries the
  alternatives of every directive in order and then wants the whole text.
\<close>

section \<open>The calendar\<close>

record civil =
  cv_year :: nat
  cv_month :: nat
  cv_day :: nat
  cv_hour :: nat
  cv_minute :: nat
  cv_second :: nat

definition leap_year :: "nat \<Rightarrow> bool" where
  "leap_year y \<longleftrightarrow> y mod 4 = 0 \<and> (y mod 100 \<noteq> 0 \<or> y mod 400 = 0)"

definition days_in_month :: "nat \<Rightarrow> nat \<Rightarrow> nat" where
  "days_in_month y m = (if m = 2 then (if leap_year y then 29 else 28) else if m \<in> {4, 6, 9, 11} then 30 else 31)"

text \<open>What the datetime constructor accepts.\<close>

definition civil_ok :: "civil \<Rightarrow> bool" where
  "civil_ok c \<longleftrightarrow> 1 \<le> cv_year c \<and> cv_year c \<le> 9999 \<and> 1 \<le> cv_month c \<and> cv_month c \<le> 12 \<and>
     1 \<le> cv_day c \<and> cv_day c \<le> days_in_month (cv_year c) (cv_month c) \<and>
     cv_hour c < 24 \<and> cv_minute c < 60 \<and> cv_second c < 60"

text \<open>The proleptic Gregorian ordinal; Monday is weekday 0.\<close>

definition days_before_year :: "nat \<Rightarrow> nat" where
  "days_before_year y = (y - 1) * 365 + (y - 1) div 4 - (y - 1) div 100 + (y - 1) div 400"

definition ordinal :: "civil \<Rightarrow> nat" where
  "ordinal c = days_before_year (cv_year c) +
     sum_list (map (days_in_month (cv_year c)) [1..<cv_month c]) + cv_day c"

definition weekday :: "civil \<Rightarrow> nat" where
  "weekday c = (ordinal c + 6) mod 7"

lemma weekday_examples:
  "weekday \<lparr>cv_year = 2026, cv_month = 1, cv_day = 5, cv_hour = 1, cv_minute = 0, cv_second = 0\<rparr> = 0"
  "weekday \<lparr>cv_year = 2024, cv_month = 2, cv_day = 29, cv_hour = 1, cv_minute = 0, cv_second = 0\<rparr> = 3"
  by (simp_all add: weekday_def ordinal_def days_before_year_def days_in_month_def leap_year_def upt_rec)

section \<open>strftime\<close>

definition digit :: "nat \<Rightarrow> char" where
  "digit k = char_of (48 + k)"

definition two :: "nat \<Rightarrow> string" where
  "two n = [digit (n div 10 mod 10), digit (n mod 10)]"

definition four :: "nat \<Rightarrow> string" where
  "four n = two (n div 100) @ two (n mod 100)"

text \<open>\<open>dt.strftime('%Y%m%dT%H%M%SZ')\<close> for a year of four digits\<close>

definition key_time :: "civil \<Rightarrow> string" where
  "key_time c = four (cv_year c) @ two (cv_month c) @ two (cv_day c) @ ''T'' @
     two (cv_hour c) @ two (cv_minute c) @ two (cv_second c) @ ''Z''"

definition dump_key :: "string \<Rightarrow> civil \<Rightarrow> string" where
  "dump_key tier c = tier @ key_time c @ ''.dump.zst''"

section \<open>strptime\<close>

text \<open>A pattern yields, in the order it tries them, the number read and the text that remains.\<close>

type_synonym pattern = "string \<Rightarrow> (nat \<times> string) list"

definition char_val :: "char \<Rightarrow> nat" where
  "char_val c = of_char c - 48"

definition between :: "nat \<Rightarrow> nat \<Rightarrow> char \<Rightarrow> bool" where
  "between a b c \<longleftrightarrow> 48 + a \<le> (of_char c :: nat) \<and> (of_char c :: nat) \<le> 48 + b"

fun one_of :: "(char \<Rightarrow> bool) \<Rightarrow> pattern" where
  "one_of p (c # s) = (if p c then [(char_val c, s)] else [])"
| "one_of p [] = []"

fun two_of :: "(char \<Rightarrow> bool) \<Rightarrow> (char \<Rightarrow> bool) \<Rightarrow> pattern" where
  "two_of p q (c # d # s) = (if p c \<and> q d then [(10 * char_val c + char_val d, s)] else [])"
| "two_of p q _ = []"

definition seq :: "pattern \<Rightarrow> (nat \<Rightarrow> string \<Rightarrow> 'a list) \<Rightarrow> string \<Rightarrow> 'a list" where
  "seq p k s = concat (map (\<lambda>(n, r). k n r) (p s))"

definition pat_Y :: pattern where
  "pat_Y = seq (two_of (between 0 9) (between 0 9)) (\<lambda>a. seq (two_of (between 0 9) (between 0 9)) (\<lambda>b s. [(100 * a + b, s)]))"

definition pat_m :: pattern where
  "pat_m s = two_of (between 1 1) (between 0 2) s @ two_of (between 0 0) (between 1 9) s @ one_of (between 1 9) s"

definition pat_d :: pattern where
  "pat_d s = two_of (between 3 3) (between 0 1) s @ two_of (between 1 2) (between 0 9) s @
     two_of (between 0 0) (between 1 9) s @ one_of (between 1 9) s @
     map (\<lambda>(n, r). (n mod 10, r)) (two_of (\<lambda>c. c = CHR '' '') (between 1 9) s)"

definition pat_H :: pattern where
  "pat_H s = two_of (between 2 2) (between 0 3) s @ two_of (between 0 1) (between 0 9) s @ one_of (between 0 9) s"

definition pat_M :: pattern where
  "pat_M s = two_of (between 0 5) (between 0 9) s @ one_of (between 0 9) s"

definition pat_S :: pattern where
  "pat_S s = two_of (between 6 6) (between 0 1) s @ two_of (between 0 5) (between 0 9) s @ one_of (between 0 9) s"

text \<open>Literals match without regard to case.\<close>

definition pat_letter :: "char \<Rightarrow> pattern" where
  "pat_letter u = one_of (\<lambda>c. to_upper_char c = u)"

definition key_matches :: "string \<Rightarrow> (civil \<times> string) list" where
  "key_matches =
     seq pat_Y (\<lambda>y. seq pat_m (\<lambda>mo. seq pat_d (\<lambda>d. seq (pat_letter CHR ''T'') (\<lambda>_.
     seq pat_H (\<lambda>h. seq pat_M (\<lambda>mi. seq pat_S (\<lambda>se. seq (pat_letter CHR ''Z'') (\<lambda>_ s.
       [(\<lparr>cv_year = y, cv_month = mo, cv_day = d, cv_hour = h, cv_minute = mi, cv_second = se\<rparr>, s)]))))))))"

definition strptime_key :: "string \<Rightarrow> civil option" where
  "strptime_key s =
     (case key_matches s of
        [] \<Rightarrow> None
      | (c, rest) # _ \<Rightarrow> if rest = [] \<and> civil_ok c then Some c else None)"

text \<open>\<open>key.rsplit("/", 1)[-1]\<close> and \<open>basename.split(".")[0]\<close>\<close>

definition basename :: "string \<Rightarrow> string" where
  "basename key = rev (takeWhile (\<lambda>c. c \<noteq> CHR ''/'') (rev key))"

definition parse_key_dt :: "string \<Rightarrow> civil option" where
  "parse_key_dt key = strptime_key (takeWhile (\<lambda>c. c \<noteq> CHR ''.'') (basename key))"

section \<open>A key is read back\<close>

lemma of_digit_nat: "k < 10 \<Longrightarrow> (of_char (digit k) :: nat) = 48 + k"
  by (simp add: digit_def)

lemma char_val_digit [simp]: "k < 10 \<Longrightarrow> char_val (digit k) = k"
  by (simp add: char_val_def of_digit_nat)

lemma between_digit [simp]: "k < 10 \<Longrightarrow> between a b (digit k) \<longleftrightarrow> a \<le> k \<and> k \<le> b"
  by (simp add: between_def of_digit_nat)

lemma any_digit: "k < 10 \<Longrightarrow> between 0 9 (digit k)"
  by simp

lemma two_of_two:
  "two_of p q (two n @ s) =
     (if p (digit (n div 10 mod 10)) \<and> q (digit (n mod 10)) then [(n mod 100, s)] else [])"
proof -
  have "n mod 100 = 10 * (n div 10 mod 10) + n mod 10"
    using mod_mult2_eq [of n 10 10] by simp
  then show ?thesis by (simp add: two_def)
qed

lemma seq_head: "p s = (n, r) # rest \<Longrightarrow> k n r = x # xs \<Longrightarrow> \<exists>ys. seq p k s = x # ys"
  by (simp add: seq_def)

lemma pat_Y_four: "n < 10000 \<Longrightarrow> pat_Y (four n @ s) = [(n, s)]"
  by (simp add: pat_Y_def seq_def four_def two_of_two any_digit del: between_digit)

lemma pat_two:
  "1 \<le> n \<Longrightarrow> n \<le> 12 \<Longrightarrow> \<exists>xs. pat_m (two n @ s) = (n, s) # xs"
  "1 \<le> n \<Longrightarrow> n \<le> 31 \<Longrightarrow> \<exists>xs. pat_d (two n @ s) = (n, s) # xs"
  "n < 24 \<Longrightarrow> \<exists>xs. pat_H (two n @ s) = (n, s) # xs"
  "n < 60 \<Longrightarrow> \<exists>xs. pat_M (two n @ s) = (n, s) # xs"
  "n < 60 \<Longrightarrow> \<exists>xs. pat_S (two n @ s) = (n, s) # xs"
proof -
  define a where "a = n div 10"
  define b where "b = n mod 10"
  have n: "n = 10 * a + b" "b < 10" by (simp_all add: a_def b_def)
  have two: "two n = [digit (a mod 10), digit b]" by (simp add: two_def a_def b_def)
  show "1 \<le> n \<Longrightarrow> n \<le> 12 \<Longrightarrow> \<exists>xs. pat_m (two n @ s) = (n, s) # xs"
    unfolding pat_m_def two using n by (cases "a = 0"; cases "a = 1") auto
  show "1 \<le> n \<Longrightarrow> n \<le> 31 \<Longrightarrow> \<exists>xs. pat_d (two n @ s) = (n, s) # xs"
    unfolding pat_d_def two using n by (cases "a = 0"; cases "a = 1"; cases "a = 2"; cases "a = 3") auto
  show "n < 24 \<Longrightarrow> \<exists>xs. pat_H (two n @ s) = (n, s) # xs"
    unfolding pat_H_def two using n by (cases "a = 0"; cases "a = 1"; cases "a = 2") auto
  show "n < 60 \<Longrightarrow> \<exists>xs. pat_M (two n @ s) = (n, s) # xs"
    unfolding pat_M_def two using n by auto
  show "n < 60 \<Longrightarrow> \<exists>xs. pat_S (two n @ s) = (n, s) # xs"
    unfolding pat_S_def two using n by auto
qed

lemma pat_letter_self: "to_upper_char u = u \<Longrightarrow> pat_letter u (u # s) = [(char_val u, s)]"
  by (simp add: pat_letter_def)

lemma key_matches_time:
  assumes "civil_ok c" shows "\<exists>xs. key_matches (key_time c) = (c, []) # xs"
proof -
  have b: "cv_year c < 10000" "1 \<le> cv_month c" "cv_month c \<le> 12" "1 \<le> cv_day c" "cv_day c \<le> 31"
    "cv_hour c < 24" "cv_minute c < 60" "cv_second c < 60"
    using assms by (auto simp: civil_ok_def days_in_month_def split: if_splits)
  note heads = seq_head [of pat_m] seq_head [of pat_d] seq_head [of pat_H] seq_head [of pat_M] seq_head [of pat_S]
  have T: "pat_letter CHR ''T'' (CHR ''T'' # s) = [(char_val CHR ''T'', s)]"
    "pat_letter CHR ''Z'' (CHR ''Z'' # s) = [(char_val CHR ''Z'', s)]" for s
    by (rule pat_letter_self; code_simp)+
  have letters: "seq (pat_letter CHR ''T'') k (CHR ''T'' # s) = k (char_val CHR ''T'') s"
    "seq (pat_letter CHR ''Z'') k (CHR ''Z'' # s) = k (char_val CHR ''Z'') s" for k :: "nat \<Rightarrow> string \<Rightarrow> (civil \<times> string) list" and s
    by (simp_all add: seq_def T)
  have year: "seq pat_Y k (four (cv_year c) @ s) = k (cv_year c) s" for k :: "nat \<Rightarrow> string \<Rightarrow> (civil \<times> string) list" and s
    using pat_Y_four [OF b(1)] by (simp add: seq_def)
  obtain m d h mi se where p:
    "\<And>s. pat_m (two (cv_month c) @ s) = (cv_month c, s) # m s" "\<And>s. pat_d (two (cv_day c) @ s) = (cv_day c, s) # d s"
    "\<And>s. pat_H (two (cv_hour c) @ s) = (cv_hour c, s) # h s" "\<And>s. pat_M (two (cv_minute c) @ s) = (cv_minute c, s) # mi s"
    "\<And>s. pat_S (two (cv_second c) @ s) = (cv_second c, s) # se s"
    using pat_two(1) [OF b(2,3)] pat_two(2) [OF b(4,5)] pat_two(3) [OF b(6)] pat_two(4) [OF b(7)] pat_two(5) [OF b(8)] by metis
  show ?thesis
    unfolding key_matches_def key_time_def
    by (simp add: year seq_def [of pat_m] seq_def [of pat_d] seq_def [of pat_H] seq_def [of pat_M] seq_def [of pat_S] p letters)
qed

lemma digit_plain: "k < 10 \<Longrightarrow> digit k \<noteq> CHR ''/'' \<and> digit k \<noteq> CHR ''.''"
proof -
  assume "k < 10"
  then have "(of_char (digit k) :: nat) = 48 + k" by (rule of_digit_nat)
  moreover have "(of_char (CHR ''/'') :: nat) = 47" "(of_char (CHR ''.'') :: nat) = 46" by code_simp+
  ultimately show ?thesis by auto
qed

lemma key_time_plain: "c \<in> set (key_time v) \<Longrightarrow> c \<noteq> CHR ''/'' \<and> c \<noteq> CHR ''.''"
  by (auto simp: key_time_def four_def two_def digit_plain)

lemma basename_dump_key: "basename (dump_key (tier @ ''/'') c) = key_time c @ ''.dump.zst''"
proof -
  let ?s = "key_time c @ ''.dump.zst''"
  have plain: "x \<noteq> CHR ''/''" if "x \<in> set (rev ?s)" for x
    using that key_time_plain [of x c] by auto
  have "basename (dump_key (tier @ ''/'') c) = rev (takeWhile (\<lambda>x. x \<noteq> CHR ''/'') (rev ?s @ CHR ''/'' # rev tier))"
    by (simp add: basename_def dump_key_def)
  also have "\<dots> = ?s" using plain by (subst takeWhile_append2) simp_all
  finally show ?thesis .
qed

text \<open>The key of a dump is read back: the time that the retention sweep parses from a key of any tier is
  the one the key was made of.\<close>

lemma parse_dump_key:
  assumes "civil_ok c"
  shows "parse_key_dt (dump_key (tier @ ''/'') c) = Some c"
proof -
  have "takeWhile (\<lambda>x. x \<noteq> CHR ''.'') (key_time c @ ''.dump.zst'') = key_time c"
    using key_time_plain [of _ c] by (subst takeWhile_append2) auto
  then show ?thesis
    using key_matches_time [OF assms] assms
    by (auto simp: parse_key_dt_def basename_dump_key strptime_key_def)
qed

section \<open>The order of keys\<close>

lemma digit_less: "k < 10 \<Longrightarrow> l < 10 \<Longrightarrow> digit k < digit l \<longleftrightarrow> k < l"
  by (simp add: less_char_def of_digit_nat)

lemma digit_inject: "k < 10 \<Longrightarrow> l < 10 \<Longrightarrow> digit k = digit l \<longleftrightarrow> k = l"
  by (metis of_digit_nat add_left_cancel)

lemma radix_less:
  fixes n m b :: nat
  assumes "0 < b"
  shows "n div b < m div b \<or> n div b = m div b \<and> (n mod b < m mod b \<or> n mod b = m mod b \<and> P)
    \<longleftrightarrow> n < m \<or> n = m \<and> P"
proof -
  have eq: "n = b * (n div b) + n mod b" "m = b * (m div b) + m mod b" by simp_all
  have less: "k < l" if "k div b < l div b" for k l :: nat
    using that div_le_mono [of l k b] by linarith
  show ?thesis
  proof (cases "n div b = m div b")
    case True
    then have "n < m \<longleftrightarrow> n mod b < m mod b" "n = m \<longleftrightarrow> n mod b = m mod b" using eq by (metis add_less_cancel_left)+
    then show ?thesis using True by simp
  next
    case False
    then consider "n div b < m div b" | "m div b < n div b" by linarith
    then show ?thesis
    proof cases
      case 1
      then show ?thesis using less [OF 1] by simp
    next
      case 2
      then show ?thesis using less [OF 2] by simp
    qed
  qed
qed

lemma two_less:
  assumes "n < 100" "m < 100"
  shows "two n @ s < two m @ t \<longleftrightarrow> n < m \<or> n = m \<and> s < t"
proof -
  have "n div 10 < 10" "m div 10 < 10" using assms by simp_all
  then show ?thesis
    using radix_less [of 10 n m "s < t"] by (simp add: two_def digit_less digit_inject)
qed

lemma four_less:
  assumes "n < 10000" "m < 10000"
  shows "four n @ s < four m @ t \<longleftrightarrow> n < m \<or> n = m \<and> s < t"
proof -
  have "n div 100 < 100" "m div 100 < 100" "n mod 100 < 100" "m mod 100 < 100" using assms by simp_all
  then show ?thesis
    using radix_less [of 100 n m "s < t"] by (simp add: four_def two_less)
qed

definition civil_key :: "civil \<Rightarrow> nat \<times> nat \<times> nat \<times> nat \<times> nat \<times> nat" where
  "civil_key c = (cv_year c, cv_month c, cv_day c, cv_hour c, cv_minute c, cv_second c)"

text \<open>The lexicographic order of the keys of one tier, by which the sweep sorts, is the order of the times
  in them.\<close>

lemma dump_keys_chronological:
  assumes "civil_ok c" "civil_ok c'"
  shows "dump_key tier c < dump_key tier c' \<longleftrightarrow> civil_key c < civil_key c'"
proof -
  have append: "tier @ s < tier @ t \<longleftrightarrow> s < t" for s t :: string by (induction tier) simp_all
  have b: "cv_year v < 10000 \<and> cv_month v < 100 \<and> cv_day v < 100 \<and> cv_hour v < 100 \<and> cv_minute v < 100 \<and> cv_second v < 100"
    if "civil_ok v" for v
    using that by (auto simp: civil_ok_def days_in_month_def split: if_splits)
  show ?thesis
    using b [OF assms(1)] b [OF assms(2)]
    by (auto simp: dump_key_def append key_time_def four_less two_less civil_key_def le_less)
qed

definition monday :: civil where
  "monday = \<lparr>cv_year = 2026, cv_month = 1, cv_day = 5, cv_hour = 1, cv_minute = 0, cv_second = 0\<rparr>"

lemma monday_ok: "civil_ok monday" "weekday monday = 0"
  by (simp add: monday_def civil_ok_def days_in_month_def) (simp only: monday_def weekday_examples)

end
