(* ===== verification/Lazy_Slot.thy ===== *)
theory Lazy_Slot
  imports Prelude
begin

text \<open>
  The idiom of the process singletons: a slot that is None until the first use, filled by the
  constructor, and returned as it is from then on. A constructor that raises leaves it empty.
\<close>

definition lazily :: "('s \<Rightarrow> 'v option) \<Rightarrow> ('v \<Rightarrow> 's \<Rightarrow> 's) \<Rightarrow> ('s \<Rightarrow> 'v res \<times> 's) \<Rightarrow> 's \<Rightarrow> 'v res \<times> 's" where
  "lazily slot fill make s =
     (case slot s of
        Some v \<Rightarrow> (Inr v, s)
      | None \<Rightarrow> (case make s of (Inl e, s') \<Rightarrow> (Inl e, s') | (Inr v, s') \<Rightarrow> (Inr v, fill v s')))"

locale lazy_slot =
  fixes slot :: "'s \<Rightarrow> 'v option"
    and fill :: "'v \<Rightarrow> 's \<Rightarrow> 's"
  assumes slot_fill: "slot (fill v s) = Some v"
begin

lemma filled: "slot s = Some v \<Longrightarrow> lazily slot fill make s = (Inr v, s)"
  by (simp add: lazily_def)

lemma fills: "lazily slot fill make s = (Inr v, s') \<Longrightarrow> slot s' = Some v"
  by (auto simp: lazily_def slot_fill split: option.splits prod.splits sum.splits)

lemma again: "lazily slot fill make s = (Inr v, s') \<Longrightarrow> lazily slot fill make' s' = (Inr v, s')"
  by (rule filled) (rule fills)

end

text \<open>A second slot that the first one's constructor and filling leave alone.\<close>

locale lazy_pair = lazy_slot slot fill
  for slot :: "'s \<Rightarrow> 'v option" and fill :: "'v \<Rightarrow> 's \<Rightarrow> 's" +
  fixes other :: "'s \<Rightarrow> 'w option"
  assumes other_fill: "other (fill v s) = other s"
begin

lemma keeps_other:
  assumes "other (snd (make s)) = other s"
  shows "other (snd (lazily slot fill make s)) = other s"
  using assms by (auto simp: lazily_def other_fill split: option.split prod.split sum.split)

end

end
