(* ===== verification/Metrics.thy ===== *)
theory Metrics
  imports Events Lazy_Slot "HOL-Library.Sublist"
begin

text \<open>
  The construction of the Prometheus metrics: src/shortfire/observability/metrics.py and
  metrics_data_platform.py. The registry of prometheus_client is not under src: a constructor
  that registers a metric is the argument \<open>enrol\<close>, and \<open>registry_laws\<close> says what the
  builders rely on, that a metric with a legal name none of whose series is taken is accepted.
\<close>

section \<open>Metrics and their series\<close>

datatype metric_kind = Counter | Gauge | Histogram

type_synonym metric = "metric_kind \<times> string"

text \<open>The series of a metric; a counter drops a \<open>_total\<close> from its name and adds it to the sample.\<close>

definition total :: string where
  "total = ''_total''"

definition endswith_total :: "string \<Rightarrow> bool" where
  "endswith_total s \<longleftrightarrow> length total \<le> length s \<and> drop (length s - length total) s = total"

definition base_name :: "string \<Rightarrow> string" where
  "base_name s = (if endswith_total s then take (length s - length total) s else s)"

fun series :: "metric \<Rightarrow> string list" where
  "series (Counter, n) = map (\<lambda>x. base_name n @ x) ['''', total, ''_created'']"
| "series (Gauge, n) = [n]"
| "series (Histogram, n) = map (\<lambda>x. n @ x) ['''', ''_bucket'', ''_sum'', ''_count'', ''_created'']"

definition all_series :: "metric list \<Rightarrow> string list" where
  "all_series ms = concat (map series ms)"

text \<open>The letters of a name in the Prometheus data model, which none of the metrics leaves.\<close>

definition name_char :: "char \<Rightarrow> bool" where
  "name_char c \<longleftrightarrow> (let n = of_char c :: nat in 97 \<le> n \<and> n \<le> 122 \<or> 48 \<le> n \<and> n \<le> 57 \<or> c = CHR ''_'')"

definition legal_name :: "string \<Rightarrow> bool" where
  "legal_name n \<longleftrightarrow> n \<noteq> '''' \<and> list_all name_char n \<and> \<not> list_all (\<lambda>c. c = CHR ''_'') (take 1 n)"

type_synonym 'r enrol = "metric \<Rightarrow> 'r \<Rightarrow> unit res \<times> 'r"

definition registry_laws :: "'r enrol \<Rightarrow> ('r \<Rightarrow> string set) \<Rightarrow> bool" where
  "registry_laws enrol taken \<longleftrightarrow>
     (\<forall>m r. legal_name (snd m) \<and> set (series m) \<inter> taken r = {} \<longrightarrow>
        (\<exists>r'. enrol m r = (Inr (), r') \<and> taken r' = taken r \<union> set (series m)))"

text \<open>The constructors run one after the other: a refused one leaves the earlier ones registered.\<close>

fun register_all :: "'r enrol \<Rightarrow> metric list \<Rightarrow> 'r \<Rightarrow> unit res \<times> 'r" where
  "register_all enrol [] r = (Inr (), r)"
| "register_all enrol (m # ms) r =
     (case enrol m r of (Inl e, r') \<Rightarrow> (Inl e, r') | (Inr _, r') \<Rightarrow> register_all enrol ms r')"

section \<open>The two builders\<close>

definition normalized :: "string \<Rightarrow> string" where
  "normalized s = map (\<lambda>c. if c = CHR ''-'' then CHR ''_'' else c) s"

definition shortfire :: string where
  "shortfire = ''shortfire_''"

definition service_metrics :: "string \<Rightarrow> metric list" where
  "service_metrics svc =
     [(Counter, shortfire @ svc @ ''_http_requests_total''),
      (Histogram, shortfire @ svc @ ''_http_request_duration_seconds''),
      (Counter, shortfire @ svc @ ''_service_event_emitted_total''),
      (Gauge, shortfire @ svc @ ''_build_info'')]"

definition data_platform_metrics :: "metric list" where
  "data_platform_metrics =
     [(Counter, ''shortfire_data_platform_ingest_rows_total''),
      (Histogram, ''shortfire_data_platform_ingest_duration_seconds''),
      (Gauge, ''shortfire_data_platform_source_freshness_seconds''),
      (Counter, ''shortfire_data_platform_dead_letter_total''),
      (Gauge, ''shortfire_data_platform_universe_symbols_count''),
      (Gauge, ''shortfire_data_platform_backup_age_seconds''),
      (Counter, ''shortfire_data_platform_ws_reconnects_total''),
      (Gauge, ''shortfire_data_platform_rate_limit_remaining'')]"

text \<open>The registry, the two caches and the number of families built; a family is known by that number.\<close>

record 'r metrics_state =
  ms_registry :: 'r
  ms_services :: "string \<rightharpoonup> nat"
  ms_platform :: "nat option"
  ms_built :: nat

definition fresh_metrics :: "'r \<Rightarrow> 'r metrics_state" where
  "fresh_metrics r = \<lparr>ms_registry = r, ms_services = Map.empty, ms_platform = None, ms_built = 0\<rparr>"

definition build_family :: "'r enrol \<Rightarrow> metric list \<Rightarrow> 'r metrics_state \<Rightarrow> nat res \<times> 'r metrics_state" where
  "build_family enrol ms s =
     (case register_all enrol ms (ms_registry s) of
        (Inl e, r) \<Rightarrow> (Inl e, s\<lparr>ms_registry := r\<rparr>)
      | (Inr _, r) \<Rightarrow> (Inr (ms_built s), s\<lparr>ms_registry := r, ms_built := Suc (ms_built s)\<rparr>))"

definition service_slot :: "string \<Rightarrow> 'r metrics_state \<Rightarrow> nat option" where
  "service_slot svc s = ms_services s svc"

definition service_fill :: "string \<Rightarrow> nat \<Rightarrow> 'r metrics_state \<Rightarrow> 'r metrics_state" where
  "service_fill svc i s = s\<lparr>ms_services := (ms_services s)(svc \<mapsto> i)\<rparr>"

definition platform_fill :: "nat \<Rightarrow> 'r metrics_state \<Rightarrow> 'r metrics_state" where
  "platform_fill i s = s\<lparr>ms_platform := Some i\<rparr>"

definition build_metrics_for_service :: "'r enrol \<Rightarrow> string \<Rightarrow> 'r metrics_state \<Rightarrow> nat res \<times> 'r metrics_state" where
  "build_metrics_for_service enrol service_name =
     (let svc = normalized service_name in
      lazily (service_slot svc) (service_fill svc) (build_family enrol (service_metrics svc)))"

definition build_data_platform_metrics :: "'r enrol \<Rightarrow> 'r metrics_state \<Rightarrow> nat res \<times> 'r metrics_state" where
  "build_data_platform_metrics enrol =
     lazily ms_platform platform_fill (build_family enrol data_platform_metrics)"

section \<open>The names never clash\<close>

definition service_suffixes :: "string list" where
  "service_suffixes =
     [''_http_requests'', ''_http_requests_total'', ''_http_requests_created'',
      ''_http_request_duration_seconds'', ''_http_request_duration_seconds_bucket'', ''_http_request_duration_seconds_sum'',
      ''_http_request_duration_seconds_count'', ''_http_request_duration_seconds_created'',
      ''_service_event_emitted'', ''_service_event_emitted_total'', ''_service_event_emitted_created'', ''_build_info'']"

lemma base_name_total: "base_name (x @ total) = x"
  by (simp add: base_name_def endswith_total_def)

lemma base_names:
  "base_name (p @ q @ ''_http_requests_total'') = p @ q @ ''_http_requests''"
  "base_name (p @ q @ ''_service_event_emitted_total'') = p @ q @ ''_service_event_emitted''"
  using base_name_total [of "p @ q @ ''_http_requests''"] base_name_total [of "p @ q @ ''_service_event_emitted''"]
  by (simp_all add: total_def)

lemma service_series: "all_series (service_metrics svc) = map (\<lambda>x. shortfire @ svc @ x) service_suffixes"
  by (simp add: all_series_def service_metrics_def base_names service_suffixes_def) (simp add: total_def)

lemma suffix_check:
  "\<forall>a\<in>set service_suffixes. \<forall>b\<in>set service_suffixes. suffix a b \<longrightarrow> a = b" "distinct service_suffixes"
  "\<forall>a\<in>set service_suffixes. \<forall>b\<in>set (all_series data_platform_metrics). \<not> suffix a b"
  "distinct (all_series data_platform_metrics)"
  by code_simp+

lemma service_names_differ:
  assumes "a \<in> set service_suffixes" "b \<in> set service_suffixes" "p @ svc @ a = p @ svc' @ b"
  shows "svc = svc' \<and> a = b"
proof -
  have "svc @ a = svc' @ b" using assms(3) by simp
  then have "suffix a b \<or> suffix b a" by (auto simp: append_eq_append_conv2 suffix_def)
  then have "a = b" using suffix_check(1) assms(1,2) by blast
  then show ?thesis using assms(3) by simp
qed

text \<open>A family is keyed by the service it is for, or is the data platform's own.\<close>

fun family :: "string option \<Rightarrow> metric list" where
  "family (Some svc) = service_metrics svc"
| "family None = data_platform_metrics"

definition family_names :: "string option \<Rightarrow> string set" where
  "family_names k = set (all_series (family k))"

lemma family_names_Some: "family_names (Some svc) = (\<lambda>x. shortfire @ svc @ x) ` set service_suffixes"
  by (simp add: family_names_def service_series)

lemma service_not_platform: "family_names (Some svc) \<inter> family_names None = {}"
proof -
  have "x \<notin> family_names None" if "x \<in> family_names (Some svc)" for x
  proof
    assume x: "x \<in> family_names None"
    obtain a where a: "a \<in> set service_suffixes" "x = shortfire @ svc @ a" using \<open>x \<in> family_names (Some svc)\<close>
      unfolding family_names_Some by (rule imageE)
    have "suffix a x" unfolding a(2) by (simp add: suffix_def)
    moreover have "x \<in> set (all_series data_platform_metrics)" using x by (simp only: family_names_def family.simps)
    ultimately show False using suffix_check(3) a(1) by blast
  qed
  then show ?thesis by blast
qed

lemma families_disjoint:
  assumes "k \<noteq> k'"
  shows "family_names k \<inter> family_names k' = {}"
proof (cases k; cases k')
  fix svc svc' assume k: "k = Some svc" "k' = Some svc'"
  then have "svc \<noteq> svc'" using assms by simp
  then show ?thesis using service_names_differ [of _ _ shortfire svc svc'] unfolding k family_names_Some by blast
qed (use assms service_not_platform in blast)+

lemma family_distinct: "distinct (all_series (family k))"
proof (cases k)
  case None
  show ?thesis unfolding None family.simps by (rule suffix_check(4))
next
  case (Some svc)
  show ?thesis unfolding Some family.simps service_series
    using suffix_check(2) by (simp add: distinct_map inj_on_def)
qed

lemma register_all_ok:
  assumes "registry_laws enrol taken" "list_all (\<lambda>m. legal_name (snd m)) ms"
    and "distinct (all_series ms)" "set (all_series ms) \<inter> taken r = {}"
  shows "\<exists>r'. register_all enrol ms r = (Inr (), r') \<and> taken r' = taken r \<union> set (all_series ms)"
  using assms(2-)
proof (induction ms arbitrary: r)
  case (Cons m ms)
  then have "legal_name (snd m)" "set (series m) \<inter> taken r = {}" by (auto simp: all_series_def)
  then obtain r1 where r1: "enrol m r = (Inr (), r1)" "taken r1 = taken r \<union> set (series m)"
    using assms(1) unfolding registry_laws_def by blast
  have "set (all_series ms) \<inter> taken r1 = {}" using Cons.prems(2,3) r1(2) by (auto simp: all_series_def)
  then obtain r2 where "register_all enrol ms r1 = (Inr (), r2)" "taken r2 = taken r1 \<union> set (all_series ms)"
    using Cons.IH [of r1] Cons.prems(1,2) by (auto simp: all_series_def)
  then show ?case using r1 by (auto simp: all_series_def)
qed (simp add: all_series_def)

section \<open>Any sequence of builder calls\<close>

datatype builder = Service string | Platform

fun key_of :: "builder \<Rightarrow> string option" where
  "key_of (Service n) = Some (normalized n)"
| "key_of Platform = None"

fun build :: "'r enrol \<Rightarrow> builder \<Rightarrow> 'r metrics_state \<Rightarrow> nat res \<times> 'r metrics_state" where
  "build enrol (Service n) = build_metrics_for_service enrol n"
| "build enrol Platform = build_data_platform_metrics enrol"

fun builds :: "'r enrol \<Rightarrow> builder list \<Rightarrow> 'r metrics_state \<Rightarrow> nat res list \<times> 'r metrics_state" where
  "builds enrol [] s = ([], s)"
| "builds enrol (b # bs) s =
     (let (x, s1) = build enrol b s; (xs, s2) = builds enrol bs s1 in (x # xs, s2))"

text \<open>Service names in kebab case or snake case; the model's cached families, by key.\<close>

fun proper :: "builder \<Rightarrow> bool" where
  "proper (Service n) = list_all (\<lambda>c. name_char c \<or> c = CHR ''-'') n"
| "proper Platform = True"

fun slot_at :: "'r metrics_state \<Rightarrow> string option \<Rightarrow> nat option" where
  "slot_at s (Some svc) = service_slot svc s"
| "slot_at s None = ms_platform s"

fun fill_at :: "string option \<Rightarrow> nat \<Rightarrow> 'r metrics_state \<Rightarrow> 'r metrics_state" where
  "fill_at (Some svc) = service_fill svc"
| "fill_at None = platform_fill"

lemma build_lazily:
  "build enrol b = lazily (\<lambda>s. slot_at s (key_of b)) (fill_at (key_of b)) (build_family enrol (family (key_of b)))"
  by (cases b) (simp_all add: build_metrics_for_service_def build_data_platform_metrics_def Let_def)

lemma slot_fill_at: "slot_at (fill_at k i s) = (slot_at s)(k \<mapsto> i)"
proof
  show "slot_at (fill_at k i s) k' = ((slot_at s)(k \<mapsto> i)) k'" for k'
    by (cases k; cases k') (auto simp: service_slot_def service_fill_def platform_fill_def)
qed

interpretation cached: lazy_slot "\<lambda>s. slot_at s k" "fill_at k" for k
  by unfold_locales (simp add: slot_fill_at)

lemma fill_at_fields [simp]:
  "ms_registry (fill_at k i s) = ms_registry s" "ms_built (fill_at k i s) = ms_built s"
  by (cases k; simp add: service_fill_def platform_fill_def)+

lemma family_legal:
  assumes "proper b"
  shows "list_all (\<lambda>m. legal_name (snd m)) (family (key_of b))"
proof (cases b)
  case (Service n)
  have "list_all name_char (normalized n)"
    using assms by (auto simp: Service normalized_def list_all_iff name_char_def Let_def)
  then show ?thesis
    by (simp add: Service service_metrics_def shortfire_def legal_name_def) (simp add: name_char_def Let_def)
next
  case Platform
  show ?thesis unfolding Platform key_of.simps family.simps by code_simp
qed

text \<open>
  The registry holds exactly the series of the cached families, each family was numbered when it
  was built, and no two families share a number.
\<close>

definition registry_ok :: "('r \<Rightarrow> string set) \<Rightarrow> 'r metrics_state \<Rightarrow> bool" where
  "registry_ok taken s \<longleftrightarrow>
     taken (ms_registry s) = (\<Union>k\<in>dom (slot_at s). family_names k) \<and>
     (\<forall>k i. slot_at s k = Some i \<longrightarrow> i < ms_built s) \<and> inj_on (slot_at s) (dom (slot_at s))"

lemma slot_at_fresh: "slot_at (fresh_metrics r) = Map.empty"
proof
  show "slot_at (fresh_metrics r) k = None" for k
    by (cases k) (simp_all add: fresh_metrics_def service_slot_def)
qed

lemma inj_fresh:
  assumes "inj_on m (dom m)" "v \<notin> ran m"
  shows "inj_on (m(k \<mapsto> v)) (dom (m(k \<mapsto> v)))"
proof (rule inj_onI)
  fix x y
  assume x: "x \<in> dom (m(k \<mapsto> v))" and y: "y \<in> dom (m(k \<mapsto> v))" and eq: "(m(k \<mapsto> v)) x = (m(k \<mapsto> v)) y"
  have "m z \<noteq> Some v" for z using assms(2) by (auto simp: ran_def)
  then show "x = y"
    using x y eq assms(1) by (cases "x = k"; cases "y = k") (auto dest: inj_onD)
qed

lemma build_step:
  assumes "registry_laws enrol taken" "registry_ok taken s" "proper b"
  shows "\<exists>i s'. build enrol b s = (Inr i, s') \<and> registry_ok taken s' \<and> slot_at s' (key_of b) = Some i \<and> slot_at s \<subseteq>\<^sub>m slot_at s'"
proof (cases "slot_at s (key_of b)")
  case (Some i)
  then show ?thesis using assms(2) by (simp add: build_lazily cached.filled)
next
  case None
  let ?k = "key_of b"
  note ok = assms(2)[unfolded registry_ok_def]
  have "family_names ?k \<inter> family_names k = {}" if "k \<in> dom (slot_at s)" for k
    using that None by (intro families_disjoint) auto
  then have "set (all_series (family ?k)) \<inter> taken (ms_registry s) = {}"
    using ok unfolding family_names_def [symmetric] by blast
  then obtain r where r: "register_all enrol (family ?k) (ms_registry s) = (Inr (), r)"
    "taken r = taken (ms_registry s) \<union> family_names ?k"
    using register_all_ok [OF assms(1) family_legal [OF assms(3)] family_distinct] unfolding family_names_def by blast
  let ?s = "fill_at ?k (ms_built s) (s\<lparr>ms_registry := r, ms_built := Suc (ms_built s)\<rparr>)"
  have same: "slot_at (s\<lparr>ms_registry := r, ms_built := n\<rparr>) = slot_at s" for n
  proof
    show "slot_at (s\<lparr>ms_registry := r, ms_built := n\<rparr>) k = slot_at s k" for k
      by (cases k) (simp_all add: service_slot_def)
  qed
  have slots: "slot_at ?s = (slot_at s)(?k \<mapsto> ms_built s)" by (simp add: slot_fill_at same)
  have "build enrol b s = (Inr (ms_built s), ?s)"
    using None r(1) by (simp add: build_lazily lazily_def build_family_def)
  moreover have "taken (ms_registry ?s) = (\<Union>k\<in>dom (slot_at ?s). family_names k)"
    using ok r(2) unfolding slots by auto
  moreover have "\<forall>k i. slot_at ?s k = Some i \<longrightarrow> i < ms_built ?s"
    using ok unfolding slots by (simp add: less_SucI)
  moreover have "inj_on (slot_at ?s) (dom (slot_at ?s))"
    using ok unfolding slots by (intro inj_fresh) (auto simp: ran_def)
  ultimately show ?thesis using None by (auto simp: registry_ok_def slots map_le_def)
qed

lemma builds_run:
  assumes "registry_laws enrol taken" "registry_ok taken s" "list_all proper bs"
  shows "\<exists>s'. builds enrol bs s = (map (\<lambda>b. Inr (the (slot_at s' (key_of b)))) bs, s') \<and> registry_ok taken s' \<and>
    slot_at s \<subseteq>\<^sub>m slot_at s' \<and> key_of ` set bs \<subseteq> dom (slot_at s')"
  using assms(2,3)
proof (induction bs arbitrary: s)
  case (Cons b bs)
  obtain i s1 where s1: "build enrol b s = (Inr i, s1)" "registry_ok taken s1" "slot_at s1 (key_of b) = Some i"
    "slot_at s \<subseteq>\<^sub>m slot_at s1"
    using build_step [OF assms(1) Cons.prems(1), of b] Cons.prems(2) by (metis list.pred_inject(2))
  obtain s2 where s2: "builds enrol bs s1 = (map (\<lambda>b. Inr (the (slot_at s2 (key_of b)))) bs, s2)" "registry_ok taken s2"
    "slot_at s1 \<subseteq>\<^sub>m slot_at s2" "key_of ` set bs \<subseteq> dom (slot_at s2)"
    using Cons.IH [OF s1(2)] Cons.prems(2) by auto
  have "slot_at s2 (key_of b) = Some i" using s1(3) s2(3) by (metis domI map_le_def)
  then show ?case using s1(1,4) s2 by (auto intro: map_le_trans)
qed simp

text \<open>C23: Metrics are never registered twice. Whatever sequence of builder calls the modules of a
  process make, starting from an empty registry, each call returns a family; two calls return the
  same one exactly when they are for the same service up to kebab or snake case, and the two
  builders together (both for data-platform) never take a series of each other. No call ever sees
  the ValueError of prometheus_client for a duplicated time series.
\<close>

theorem metrics_never_duplicated:
  assumes "registry_laws enrol taken" "taken r = {}" "list_all proper bs"
  shows "\<exists>number. fst (builds enrol bs (fresh_metrics r)) = map (\<lambda>b. Inr (number (key_of b))) bs \<and>
    inj_on number (key_of ` set bs)"
proof -
  have "registry_ok taken (fresh_metrics r)"
    using assms(2) by (simp add: registry_ok_def slot_at_fresh) (simp add: fresh_metrics_def)
  then obtain s' where s': "builds enrol bs (fresh_metrics r) = (map (\<lambda>b. Inr (the (slot_at s' (key_of b)))) bs, s')"
    "registry_ok taken s'" "key_of ` set bs \<subseteq> dom (slot_at s')"
    using builds_run [OF assms(1) _ assms(3)] by blast
  have "inj_on (\<lambda>k. the (slot_at s' k)) (dom (slot_at s'))"
  proof (rule inj_onI)
    fix k k' assume k: "k \<in> dom (slot_at s')" "k' \<in> dom (slot_at s')" "the (slot_at s' k) = the (slot_at s' k')"
    then have "slot_at s' k = slot_at s' k'" by auto
    then show "k = k'" using s'(2) k(1,2) unfolding registry_ok_def by (blast dest: inj_onD)
  qed
  then show ?thesis
    using s'(1,3) by (intro exI [of _ "\<lambda>k. the (slot_at s' k)"]) (auto intro: inj_on_subset)
qed

text \<open>A registry that is the list of the taken names, and the calls of the two spellings and of the platform.\<close>

definition list_registry :: "string list enrol" where
  "list_registry m r = (if \<exists>s\<in>set (series m). s \<in> set r then (Inl ValueError, r) else (Inr (), r @ series m))"

lemma list_registry_laws: "registry_laws list_registry set"
  by (auto simp: registry_laws_def list_registry_def)

lemma metrics_never_duplicated_witness:
  "\<exists>number. fst (builds list_registry [Service ''data-platform'', Platform, Service ''data_platform''] (fresh_metrics [])) =
     [Inr (number (Some ''data_platform'')), Inr (number None), Inr (number (Some ''data_platform''))] \<and>
   inj_on number {Some ''data_platform'', None}"
proof -
  let ?bs = "[Service ''data-platform'', Platform, Service ''data_platform'']"
  have p: "list_all proper ?bs" by code_simp
  have k: "map key_of ?bs = [Some ''data_platform'', None, Some ''data_platform'']" by code_simp
  show ?thesis using metrics_never_duplicated [OF list_registry_laws _ p, of "[]"] k by auto
qed

end
