(* ===== verification/Process_Context.thy ===== *)
theory Process_Context
  imports Settings Metrics
begin

text \<open>
  src/shortfire/ingest/context.py: the engine, settings and metrics of the process, each built on
  the first use and kept from then on. The environment may change between two calls; loading the
  settings from it is the work of pydantic-settings and an argument, as is the metric constructor.
\<close>

text \<open>The engine is known by its URL.\<close>

record 'r process_context =
  ctx_engine :: "string option"
  ctx_settings :: "data_platform_settings option"
  ctx_metrics :: "nat option"
  ctx_registry :: "'r metrics_state"

definition fill_engine :: "string \<Rightarrow> 'r process_context \<Rightarrow> 'r process_context" where
  "fill_engine u s = s\<lparr>ctx_engine := Some u\<rparr>"

definition fill_settings :: "data_platform_settings \<Rightarrow> 'r process_context \<Rightarrow> 'r process_context" where
  "fill_settings v s = s\<lparr>ctx_settings := Some v\<rparr>"

definition fill_metrics :: "nat \<Rightarrow> 'r process_context \<Rightarrow> 'r process_context" where
  "fill_metrics i s = s\<lparr>ctx_metrics := Some i\<rparr>"

definition get_engine :: "environ \<Rightarrow> 'r process_context \<Rightarrow> string res \<times> 'r process_context" where
  "get_engine e = lazily ctx_engine fill_engine (\<lambda>s. (create_engine_from_env e, s))"

definition get_settings :: "(environ \<Rightarrow> data_platform_settings res) \<Rightarrow> environ \<Rightarrow> 'r process_context \<Rightarrow> data_platform_settings res \<times> 'r process_context" where
  "get_settings load e = lazily ctx_settings fill_settings (\<lambda>s. (load e, s))"

definition get_metrics :: "'r enrol \<Rightarrow> 'r process_context \<Rightarrow> nat res \<times> 'r process_context" where
  "get_metrics enrol = lazily ctx_metrics fill_metrics
     (\<lambda>s. case build_metrics_for_service enrol ''data-platform'' (ctx_registry s) of (r, reg) \<Rightarrow> (r, s\<lparr>ctx_registry := reg\<rparr>))"

text \<open>Each slot against the two others.\<close>

interpretation engine: lazy_pair ctx_engine fill_engine ctx_settings
  by unfold_locales (simp_all add: fill_engine_def)

interpretation engine_metrics: lazy_pair ctx_engine fill_engine ctx_metrics
  by unfold_locales (simp_all add: fill_engine_def)

interpretation settings: lazy_pair ctx_settings fill_settings ctx_engine
  by unfold_locales (simp_all add: fill_settings_def)

interpretation settings_metrics: lazy_pair ctx_settings fill_settings ctx_metrics
  by unfold_locales (simp_all add: fill_settings_def)

interpretation metrics: lazy_pair ctx_metrics fill_metrics ctx_engine
  by unfold_locales (simp_all add: fill_metrics_def)

interpretation metrics_settings: lazy_pair ctx_metrics fill_metrics ctx_settings
  by unfold_locales (simp_all add: fill_metrics_def)

datatype getter = Get_Engine environ | Get_Settings environ | Get_Metrics

fun get_step :: "(environ \<Rightarrow> data_platform_settings res) \<Rightarrow> 'r enrol \<Rightarrow> getter \<Rightarrow> 'r process_context \<Rightarrow> 'r process_context" where
  "get_step load enrol (Get_Engine e) s = snd (get_engine e s)"
| "get_step load enrol (Get_Settings e) s = snd (get_settings load e s)"
| "get_step load enrol Get_Metrics s = snd (get_metrics enrol s)"

lemma step_keeps:
  "ctx_engine s = Some u \<Longrightarrow> ctx_engine (get_step load enrol g s) = Some u"
  "ctx_settings s = Some v \<Longrightarrow> ctx_settings (get_step load enrol g s) = Some v"
  "ctx_metrics s = Some i \<Longrightarrow> ctx_metrics (get_step load enrol g s) = Some i"
  by (cases g; simp add: get_engine_def get_settings_def get_metrics_def engine.filled settings.filled metrics.filled
      engine.keeps_other engine_metrics.keeps_other settings.keeps_other settings_metrics.keeps_other
      metrics.keeps_other metrics_settings.keeps_other split: prod.split)+

lemma steps_keep:
  "ctx_engine s = Some u \<Longrightarrow> ctx_engine (fold (get_step load enrol) gs s) = Some u"
  "ctx_settings s = Some v \<Longrightarrow> ctx_settings (fold (get_step load enrol) gs s) = Some v"
  "ctx_metrics s = Some i \<Longrightarrow> ctx_metrics (fold (get_step load enrol) gs s) = Some i"
  by (induction gs arbitrary: s) (simp_all add: step_keeps)

text \<open>
  The singletons never change: once a getter has returned, the same getter returns the same value
  after any sequence of calls, whatever the environment holds by then.
\<close>

lemma singletons_stay:
  "get_engine e s = (Inr u, s1) \<Longrightarrow> s2 = fold (get_step load enrol) gs s1 \<Longrightarrow> get_engine e' s2 = (Inr u, s2)"
  "get_settings load e s = (Inr v, s1) \<Longrightarrow> s2 = fold (get_step load enrol) gs s1 \<Longrightarrow> get_settings load e' s2 = (Inr v, s2)"
  "get_metrics enrol s = (Inr i, s1) \<Longrightarrow> s2 = fold (get_step load enrol) gs s1 \<Longrightarrow> get_metrics enrol s2 = (Inr i, s2)"
  unfolding get_engine_def get_settings_def get_metrics_def
  by (hypsubst, rule engine.filled settings.filled metrics.filled, rule steps_keep,
      erule engine.fills settings.fills metrics.fills)+

end
