(* ===== verification/Lifecycle.thy ===== *)
theory Lifecycle
  imports Stream_Group Jobs Backup_Keys Process_Context
begin

text \<open>
  The processes: src/shortfire/entrypoints/data_platform.py, strategy_engine.py and dashboard.py, and
  scheduler_lifespan in ingest/scheduler/bootstrap.py. A lifespan appends to the trace of what it has
  done, and returns, raises or never comes back. What the libraries answer (the scheduler, the
  exchange client, the engine) is the record \<open>outside\<close>; the websocket streams are the task group
  of mexc_ws_streams, of which \<open>outside\<close> holds the state in which it joined, if it ever does.
\<close>

section \<open>Runs\<close>

datatype failure = Exc exc | Err_Group "exc list"

datatype outcome = Normal | Raised failure | Hung

datatype effect =
    Logged string | Engine_Created | Engine_Disposed | Client_Built | Client_Closed | Scheduler_Entered |
    Job_Added string | Scheduler_Started | Scheduler_Exited | Serving

type_synonym run = "effect list \<Rightarrow> outcome \<times> effect list"

definition pass :: run where
  "pass tr = (Normal, tr)"

definition act :: "effect \<Rightarrow> unit res \<Rightarrow> run" where
  "act x r tr = (case r of Inl e \<Rightarrow> (Raised (Exc e), tr) | Inr _ \<Rightarrow> (Normal, tr @ [x]))"

definition seqR :: "run \<Rightarrow> run \<Rightarrow> run" where
  "seqR m k tr = (case m tr of (Normal, tr') \<Rightarrow> k tr' | x \<Rightarrow> x)"

text \<open>\<open>try: m / finally: k\<close>: an exception of \<open>k\<close> replaces that of \<open>m\<close>; a body that never ends is not cleaned up.\<close>

definition finallyR :: "run \<Rightarrow> run \<Rightarrow> run" where
  "finallyR m k tr =
     (case m tr of
        (Hung, tr') \<Rightarrow> (Hung, tr')
      | (x, tr') \<Rightarrow> (case k tr' of (Normal, tr'') \<Rightarrow> (x, tr'') | y \<Rightarrow> y))"

fun forR :: "'a list \<Rightarrow> ('a \<Rightarrow> run) \<Rightarrow> run" where
  "forR [] f = pass"
| "forR (x # xs) f = seqR (f x) (forR xs f)"

definition logR :: "string \<Rightarrow> run" where
  "logR name = act (Logged name) (Inr ())"

text \<open>\<open>assert_event_registered(n); log.info(n, ...)\<close>\<close>

definition eventR :: "string \<Rightarrow> run" where
  "eventR name = act (Logged name) (assert_event_registered name)"

section \<open>The lifespans\<close>

record outside =
  o_enter :: "unit res"
  o_add :: "string \<Rightarrow> unit res"
  o_start :: "unit res"
  o_exit :: "unit res"
  o_served :: "unit res"
  o_close :: "unit res"
  o_dispose :: "unit res"
  o_watch_liquidations :: bool
  o_group :: "group option"

text \<open>\<open>async with scheduler\<close> around the registration of the jobs, the start and the body\<close>

definition scheduler_lifespan :: "outside \<Rightarrow> run \<Rightarrow> run" where
  "scheduler_lifespan o' body =
     seqR (act Scheduler_Entered (o_enter o'))
       (finallyR
          (seqR (forR job_graph (\<lambda>j. act (Job_Added (sc_id j)) (o_add o' (sc_id j))))
          (seqR (act Scheduler_Started (o_start o'))
          (seqR (logR ''scheduler.started'')
             (finallyR body (logR ''scheduler.stopping'')))))
          (act Scheduler_Exited (o_exit o')))"

text \<open>\<open>symbols = []\<close> and \<open>tier1 = []\<close> at every boot.\<close>

definition boot_config :: "outside \<Rightarrow> group_config" where
  "boot_config o' = \<lparr>gc_symbols = [], gc_tier1 = [], gc_has_watch_liquidations = o_watch_liquidations o'\<rparr>"

fun is_RuntimeError :: "exc \<Rightarrow> bool" where
  "is_RuntimeError (RuntimeError _) = True"
| "is_RuntimeError NotImplementedError = True"
| "is_RuntimeError _ = False"

definition raiseR :: "failure \<Rightarrow> run" where
  "raiseR f tr = (Raised f, tr)"

text \<open>The exit of mexc_ws_streams: \<open>except* RuntimeError\<close> logs those of the group and raises them again.\<close>

definition streams_exit :: "group_exit \<Rightarrow> run" where
  "streams_exit x =
     (case x of
        Returns \<Rightarrow> pass
      | Raises_Cancelled \<Rightarrow> raiseR (Exc CancelledError)
      | Raises_Group es \<Rightarrow>
          seqR (forR (filter is_RuntimeError es) (\<lambda>_. logR ''mexc.streams.watchdog_triggered_respawn''))
               (raiseR (Err_Group es)))"

definition mexc_ws_streams :: "outside \<Rightarrow> run" where
  "mexc_ws_streams o' =
     seqR (act Serving (Inr ()))
       (case o_group o' of None \<Rightarrow> (\<lambda>tr. (Hung, tr)) | Some g \<Rightarrow> streams_exit (group_outcome g))"

definition lifespan :: "environ \<Rightarrow> data_platform_settings \<Rightarrow> outside \<Rightarrow> run" where
  "lifespan e s o' =
     seqR (eventR ''service.startup'')
    (seqR (eventR ''service.settings.loaded'')
    (seqR (act Engine_Created (map_sum id (\<lambda>_. ()) (create_engine_from_env e)))
    (seqR
       (if mexc s = None
        then seqR (logR ''service.degraded'')
               (scheduler_lifespan o' (seqR (act Serving (Inr ())) (\<lambda>tr. (case o_served o' of Inr _ \<Rightarrow> pass tr | Inl x \<Rightarrow> raiseR (Exc x) tr))))
        else seqR (act Client_Built (map_sum id (\<lambda>_. ()) (build_mexc_swap_client s)))
               (finallyR (scheduler_lifespan o' (mexc_ws_streams o'))
                  (seqR (act Client_Closed (o_close o')) (act Engine_Disposed (o_dispose o')))))
       (eventR ''service.shutdown''))))"

text \<open>The lifespan of the strategy engine and of the dashboard.\<close>

definition plain_lifespan :: "unit res \<Rightarrow> run" where
  "plain_lifespan served =
     seqR (eventR ''service.startup'')
    (seqR (eventR ''service.settings.loaded'')
    (seqR (act Serving (Inr ()))
    (seqR (\<lambda>tr. (case served of Inr _ \<Rightarrow> pass tr | Inl x \<Rightarrow> raiseR (Exc x) tr))
       (eventR ''service.shutdown''))))"

section \<open>What a run appends\<close>

definition adds :: "effect set \<Rightarrow> run \<Rightarrow> bool" where
  "adds A m \<longleftrightarrow> (\<forall>tr. \<exists>ys. snd (m tr) = tr @ ys \<and> set ys \<subseteq> A)"

definition never :: "outcome \<Rightarrow> run \<Rightarrow> bool" where
  "never out m \<longleftrightarrow> (\<forall>tr. fst (m tr) \<noteq> out)"

named_theorems runs

lemma adds_act [runs]: "x \<in> A \<Longrightarrow> adds A (act x r)"
  by (auto simp: adds_def act_def split: sum.split)

lemma adds_pass [runs]: "adds A pass" "adds A (raiseR f)" "adds A (\<lambda>tr. (out, tr))"
  by (simp_all add: adds_def pass_def raiseR_def)

lemma addsD:
  assumes "adds A m" "m tr = (out, tr')"
  obtains ys where "tr' = tr @ ys" "set ys \<subseteq> A"
  using assms unfolding adds_def by (metis snd_conv)

lemma adds_seqR [runs]:
  assumes "adds A m" "adds A k"
  shows "adds A (seqR m k)"
  unfolding adds_def
proof
  fix tr
  obtain out tr1 where m: "m tr = (out, tr1)" by fastforce
  obtain ys where ys: "tr1 = tr @ ys" "set ys \<subseteq> A" using addsD [OF assms(1) m] .
  obtain zs where zs: "snd (k tr1) = tr1 @ zs" "set zs \<subseteq> A" using assms(2) by (auto simp: adds_def)
  show "\<exists>ys. snd (seqR m k tr) = tr @ ys \<and> set ys \<subseteq> A"
    using m ys zs by (cases out) (auto simp: seqR_def)
qed

lemma adds_finallyR [runs]:
  assumes "adds A m" "adds A k"
  shows "adds A (finallyR m k)"
  unfolding adds_def
proof
  fix tr
  obtain out tr1 where m: "m tr = (out, tr1)" by fastforce
  obtain ys where ys: "tr1 = tr @ ys" "set ys \<subseteq> A" using addsD [OF assms(1) m] .
  obtain out' tr2 where k: "k tr1 = (out', tr2)" by fastforce
  obtain zs where zs: "tr2 = tr1 @ zs" "set zs \<subseteq> A" using addsD [OF assms(2) k] .
  show "\<exists>ys. snd (finallyR m k tr) = tr @ ys \<and> set ys \<subseteq> A"
    using m k ys zs by (cases out; cases out') (auto simp: finallyR_def)
qed

lemma adds_forR [runs]: "(\<And>x. x \<in> set xs \<Longrightarrow> adds A (f x)) \<Longrightarrow> adds A (forR xs f)"
  by (induction xs) (auto intro: runs)

lemma never_act [runs]: "out = Hung \<Longrightarrow> never out (act x r)"
  by (simp add: never_def act_def split: sum.split)

lemma never_pass [runs]: "out \<noteq> Normal \<Longrightarrow> never out pass" "out \<noteq> Raised f \<Longrightarrow> never out (raiseR f)"
  by (simp_all add: never_def pass_def raiseR_def)

lemma never_seqR: "never Normal k \<or> never Normal m \<Longrightarrow> never Normal (seqR m k)"
  by (auto simp: never_def seqR_def split: prod.split outcome.split) (metis fst_conv)+

lemma never_finallyR: "never Normal m \<Longrightarrow> never Normal (finallyR m k)"
  by (auto simp: never_def finallyR_def split: prod.split outcome.split) (metis fst_conv)+

lemma hung_seqR [runs]: "never Hung m \<Longrightarrow> never Hung k \<Longrightarrow> never Hung (seqR m k)"
  by (auto simp: never_def seqR_def split: prod.split outcome.split) (metis fst_conv)+

lemma hung_finallyR [runs]: "never Hung m \<Longrightarrow> never Hung k \<Longrightarrow> never Hung (finallyR m k)"
  by (auto simp: never_def finallyR_def split: prod.split outcome.split) (metis fst_conv)+

lemma hung_forR [runs]: "(\<And>x. never Hung (f x)) \<Longrightarrow> never Hung (forR xs f)"
  by (induction xs) (auto intro: runs)

text \<open>A body that does not return is the last thing a sequence does.\<close>

lemma seqR_stops: "never Normal m \<Longrightarrow> seqR m k tr = m tr"
  by (auto simp: never_def seqR_def split: prod.split outcome.split) (metis fst_conv)

lemma adds_log [runs]: "Logged n \<in> A \<Longrightarrow> adds A (logR n)" "Logged n \<in> A \<Longrightarrow> adds A (eventR n)"
  by (simp_all add: logR_def eventR_def adds_act)

lemma hung_log [runs]: "never Hung (logR n)" "never Hung (eventR n)"
  by (simp_all add: logR_def eventR_def never_act)

lemma registered_startup:
  "assert_event_registered ''service.startup'' = Inr ()" "assert_event_registered ''service.settings.loaded'' = Inr ()"
  "assert_event_registered ''service.shutdown'' = Inr ()"
  by (simp_all add: EVENTS_def)

lemma event_runs:
  "eventR ''service.startup'' tr = (Normal, tr @ [Logged ''service.startup''])"
  "eventR ''service.settings.loaded'' tr = (Normal, tr @ [Logged ''service.settings.loaded''])"
  "eventR ''service.shutdown'' tr = (Normal, tr @ [Logged ''service.shutdown''])"
  by (simp_all add: eventR_def act_def registered_startup)

section \<open>The scheduler around a body\<close>

lemma adds_scheduler:
  assumes "adds A body" "{Scheduler_Entered, Scheduler_Started, Scheduler_Exited, Logged ''scheduler.started'', Logged ''scheduler.stopping''} \<subseteq> A"
    and "range Job_Added \<subseteq> A"
  shows "adds A (scheduler_lifespan o' body)"
  unfolding scheduler_lifespan_def using assms by (intro runs) auto

lemma hung_scheduler: "never Hung body \<Longrightarrow> never Hung (scheduler_lifespan o' body)"
  unfolding scheduler_lifespan_def by (intro runs) auto

lemma never_scheduler: "never Normal body \<Longrightarrow> never Normal (scheduler_lifespan o' body)"
  unfolding scheduler_lifespan_def by (intro never_seqR disjI1 never_finallyR)

lemma forR_act: "(\<And>x. x \<in> set xs \<Longrightarrow> r x = Inr ()) \<Longrightarrow> forR xs (\<lambda>x. act (h x) (r x)) tr = (Normal, tr @ map h xs)"
  by (induction xs arbitrary: tr) (simp_all add: pass_def seqR_def act_def)

section \<open>The streams\<close>

lemma adds_streams: "adds (insert Serving (insert (Logged ''mexc.streams.watchdog_triggered_respawn'') A)) (mexc_ws_streams o')"
  unfolding mexc_ws_streams_def streams_exit_def
  by (auto intro!: runs split: option.split group_exit.split)

lemma streams_never_normal:
  assumes "\<And>g. o_group o' = Some g \<Longrightarrow> reachable (boot_config o') g \<and> g_joined g"
  shows "never Normal (mexc_ws_streams o')"
proof (cases "o_group o'")
  case None
  then show ?thesis by (auto simp: mexc_ws_streams_def never_def seqR_def act_def)
next
  case (Some g)
  then have "group_outcome g \<noteq> Returns" using group_never_returns assms by blast
  then have "never Normal (streams_exit (group_outcome g))"
    by (cases "group_outcome g") (auto simp: streams_exit_def intro!: never_seqR runs)
  then show ?thesis unfolding mexc_ws_streams_def Some by (auto intro: never_seqR)
qed

text \<open>With no symbols the funding task of a group that has joined was cancelled before its first turn.\<close>

lemma funding_cancelled:
  assumes "reachable c g" "g_joined g" "gc_symbols c = []"
  shows "(Funding_Live, Cancelled) \<in> set (g_tasks g)"
proof -
  have ok: "group_ok c g" by (rule reachable_ok [OF assms(1)])
  then have "Funding_Live \<in> fst ` set (g_tasks g)" by (auto simp: group_ok_def group_tasks_def simp flip: set_map)
  then obtain st where st: "(Funding_Live, st) \<in> set (g_tasks g)" by auto
  then have "entry_ok c (g_abort g) (Funding_Live, st)" "\<not> live st"
    using ok assms(2) by (auto simp: group_ok_def list_all_iff)
  then have "st = Cancelled" using assms(3) by (cases st) (auto simp: entry_ok_def)
  then show ?thesis using st by simp
qed

text \<open>A run that, once it serves, never comes back.\<close>

definition hangs :: "run \<Rightarrow> bool" where
  "hangs m \<longleftrightarrow> (\<forall>tr. Serving \<notin> set tr \<and> Serving \<in> set (snd (m tr)) \<longrightarrow> fst (m tr) = Hung)"

lemma adds_keeps_Serving:
  assumes "adds (- {Serving}) m" "m tr = (out, tr')"
  shows "Serving \<in> set tr' \<longleftrightarrow> Serving \<in> set tr"
proof -
  obtain ys where "tr' = tr @ ys" "set ys \<subseteq> - {Serving}" using addsD [OF assms] .
  then show ?thesis by auto
qed

lemma hangs_seqR:
  assumes "adds (- {Serving}) m" "hangs k"
  shows "hangs (seqR m k)"
  unfolding hangs_def
proof (intro allI impI)
  fix tr assume a: "Serving \<notin> set tr \<and> Serving \<in> set (snd (seqR m k tr))"
  obtain out tr1 where m: "m tr = (out, tr1)" by fastforce
  have "Serving \<notin> set tr1" using adds_keeps_Serving [OF assms(1) m] a by simp
  then show "fst (seqR m k tr) = Hung"
    using a m assms(2) by (cases out) (auto simp: seqR_def hangs_def)
qed

lemma hangs_finallyR:
  assumes "adds (- {Serving}) k" "hangs m"
  shows "hangs (finallyR m k)"
  unfolding hangs_def
proof (intro allI impI)
  fix tr assume a: "Serving \<notin> set tr \<and> Serving \<in> set (snd (finallyR m k tr))"
  obtain out tr1 where m: "m tr = (out, tr1)" by fastforce
  obtain out' tr2 where k: "k tr1 = (out', tr2)" by fastforce
  show "fst (finallyR m k tr) = Hung"
  proof (cases "Serving \<in> set tr1")
    case True
    then have "out = Hung" using assms(2) a m by (auto simp: hangs_def)
    then show ?thesis using m by (simp add: finallyR_def)
  next
    case False
    then have "Serving \<notin> set tr2" using adds_keeps_Serving [OF assms(1) k] by simp
    then show ?thesis using a m k False by (cases out; cases out') (auto simp: finallyR_def)
  qed
qed

lemma scheduler_hangs:
  assumes "hangs body"
  shows "hangs (scheduler_lifespan o' body)"
  unfolding scheduler_lifespan_def
  by (intro hangs_seqR hangs_finallyR assms runs) auto

lemma streams_hang: "o_group o' = None \<Longrightarrow> hangs (mexc_ws_streams o')"
  by (simp add: mexc_ws_streams_def hangs_def seqR_def act_def)

section \<open>The data-platform lifespan with the exchange configured\<close>

definition streaming :: "outside \<Rightarrow> run" where
  "streaming o' = finallyR (scheduler_lifespan o' (mexc_ws_streams o'))
     (seqR (act Client_Closed (o_close o')) (act Engine_Disposed (o_dispose o')))"

lemma streaming_facts:
  assumes "\<And>g. o_group o' = Some g \<Longrightarrow> reachable (boot_config o') g \<and> g_joined g"
  shows "never Normal (streaming o')" "adds (- {Logged ''service.shutdown''}) (streaming o')"
proof -
  show "never Normal (streaming o')"
    unfolding streaming_def by (intro never_finallyR never_scheduler streams_never_normal assms)
  show "adds (- {Logged ''service.shutdown''}) (streaming o')"
    unfolding streaming_def mexc_ws_streams_def streams_exit_def
    by (auto intro!: runs adds_scheduler split: option.split group_exit.split)
qed

lemma streaming_cleans_up:
  assumes "streaming o' tr = (out, tr')" "out \<noteq> Hung" "o_close o' = Inr ()" "o_dispose o' = Inr ()"
  shows "\<exists>ys. tr' = ys @ [Client_Closed, Engine_Disposed]"
  using assms by (auto simp: streaming_def finallyR_def seqR_def act_def split: prod.splits outcome.splits)

lemma lifespan_streaming:
  assumes "mexc s \<noteq> None" "never Normal (streaming o')"
  shows "lifespan e s o' [] =
    (let tr0 = [Logged ''service.startup'', Logged ''service.settings.loaded''] in
     case create_engine_from_env e of Inl x \<Rightarrow> (Raised (Exc x), tr0)
     | Inr _ \<Rightarrow> streaming o' (tr0 @ [Engine_Created, Client_Built]))"
proof -
  obtain m where m: "mexc s = Some m" using assms(1) by blast
  have "seqR (streaming o') (eventR ''service.shutdown'') tr = streaming o' tr" for tr
    using assms(2) by (rule seqR_stops)
  then show ?thesis
    unfolding lifespan_def streaming_def [symmetric]
    by (auto simp: m build_mexc_swap_client_def event_runs act_def seqR_def Let_def split: sum.split prod.split outcome.split)
qed

text \<open>C5: With the exchange configured the data platform never shuts down cleanly: whatever the scheduler,
  the client, the engine and the tasks do, its lifespan does not return and service.shutdown is
  never logged. Once it serves it comes back only if the funding task was cancelled before its
  first turn, since it is started with no symbols. When it does come back, and closing the client
  does not raise, its last acts are to close the client and dispose of the engine.
\<close>

theorem streaming_never_clean:
  assumes "mexc s \<noteq> None" "lifespan e s o' [] = (out, tr)"
    and "\<And>g. o_group o' = Some g \<Longrightarrow> reachable (boot_config o') g \<and> g_joined g"
  shows "out \<noteq> Normal \<and> Logged ''service.shutdown'' \<notin> set tr \<and>
    (Serving \<in> set tr \<and> out \<noteq> Hung \<longrightarrow> (\<exists>g. o_group o' = Some g \<and> (Funding_Live, Cancelled) \<in> set (g_tasks g))) \<and>
    (Client_Built \<in> set tr \<and> out \<noteq> Hung \<and> o_close o' = Inr () \<and> o_dispose o' = Inr () \<longrightarrow>
      (\<exists>ys. tr = ys @ [Client_Closed, Engine_Disposed]))"
proof -
  note facts = streaming_facts [OF assms(3)]
  note run = lifespan_streaming [OF assms(1) facts(1), of e, unfolded assms(2) Let_def]
  show ?thesis
  proof (cases "create_engine_from_env e")
    case (Inl x)
    then show ?thesis using run by auto
  next
    case (Inr u)
    let ?tr = "[Logged ''service.startup'', Logged ''service.settings.loaded'', Engine_Created, Client_Built]"
    have m: "streaming o' ?tr = (out, tr)" using run Inr by simp
    obtain ys where ys: "tr = ?tr @ ys" "set ys \<subseteq> - {Logged ''service.shutdown''}" using addsD [OF facts(2) m] .
    have "\<exists>g. o_group o' = Some g \<and> (Funding_Live, Cancelled) \<in> set (g_tasks g)" if "Serving \<in> set tr" "out \<noteq> Hung"
    proof (cases "o_group o'")
      case None
      then have "hangs (streaming o')"
        unfolding streaming_def by (intro hangs_finallyR scheduler_hangs streams_hang runs) auto
      then have "Serving \<notin> set ?tr \<and> Serving \<in> set (snd (streaming o' ?tr)) \<longrightarrow> fst (streaming o' ?tr) = Hung"
        unfolding hangs_def by (rule spec)
      then show ?thesis using m that by simp
    next
      case (Some g)
      then show ?thesis using funding_cancelled [of "boot_config o'" g] assms(3) by (simp add: boot_config_def)
    qed
    moreover have "out \<noteq> Normal" using facts(1) m unfolding never_def by (metis fst_conv)
    ultimately show ?thesis using ys streaming_cleans_up [OF m] by auto
  qed
qed

section \<open>Without the exchange\<close>

definition degraded :: "outside \<Rightarrow> run" where
  "degraded o' = scheduler_lifespan o' (seqR (act Serving (Inr ()))
     (\<lambda>tr. (case o_served o' of Inr _ \<Rightarrow> pass tr | Inl x \<Rightarrow> raiseR (Exc x) tr)))"

lemma degraded_facts:
  "never Hung (degraded o')" "adds (- {Logged ''service.shutdown'', Engine_Disposed, Client_Built}) (degraded o')"
  unfolding degraded_def
  by (cases "o_served o'"; auto intro!: runs adds_scheduler hung_scheduler simp: eta_contract_eq)+


lemma lifespan_degraded:
  assumes "mexc s = None" "create_engine_from_env e = Inr u"
  shows "lifespan e s o' [] = seqR (degraded o') (eventR ''service.shutdown'')
    [Logged ''service.startup'', Logged ''service.settings.loaded'', Engine_Created, Logged ''service.degraded'']"
  using assms unfolding lifespan_def degraded_def [symmetric]
  by (simp add: seqR_def event_runs) (simp add: act_def logR_def seqR_def)

lemma lifespan_no_engine:
  "create_engine_from_env e = Inl x \<Longrightarrow>
   lifespan e s o' [] = (Raised (Exc x), [Logged ''service.startup'', Logged ''service.settings.loaded''])"
  unfolding lifespan_def by (simp add: seqR_def event_runs act_def)

lemma scheduler_exits:
  assumes "scheduler_lifespan o' body tr = (out, tr')" "Scheduler_Entered \<in> set tr'" "Scheduler_Entered \<notin> set tr"
    and "out \<noteq> Hung" "o_exit o' = Inr ()"
  shows "\<exists>ys. tr' = ys @ [Scheduler_Exited]"
  using assms
  by (auto simp: scheduler_lifespan_def seqR_def [of "act Scheduler_Entered _"] finallyR_def [of _ "act Scheduler_Exited _"] act_def
      split: sum.splits prod.splits outcome.splits)

definition quiet :: "outside \<Rightarrow> bool" where
  "quiet o' \<longleftrightarrow> o_enter o' = Inr () \<and> (\<forall>i. o_add o' i = Inr ()) \<and> o_start o' = Inr () \<and> o_exit o' = Inr () \<and> o_served o' = Inr ()"

lemma degraded_quiet:
  assumes "quiet o'"
  shows "degraded o' tr = (Normal, tr @ [Scheduler_Entered] @ map (\<lambda>j. Job_Added (sc_id j)) job_graph @
    [Scheduler_Started, Logged ''scheduler.started'', Serving, Logged ''scheduler.stopping'', Scheduler_Exited])"
proof -
  have "forR job_graph (\<lambda>j. act (Job_Added (sc_id j)) (o_add o' (sc_id j))) tr' =
      (Normal, tr' @ map (\<lambda>j. Job_Added (sc_id j)) job_graph)" for tr'
    using assms by (intro forR_act) (simp add: quiet_def)
  then show ?thesis
    using assms unfolding degraded_def scheduler_lifespan_def quiet_def
    by (simp add: seqR_def finallyR_def act_def logR_def pass_def)
qed

text \<open>C39: Without the exchange the lifespan always comes back, it logs service.shutdown exactly when it
  returns, and an entered scheduler is left again. The engine it created is never disposed of: the
  finally block belongs to the other branch. When nothing outside fails the trace is the documented
  order: startup, engine, scheduler, the eleven jobs, serving, and the same in reverse.
\<close>

theorem degraded_leaks_engine:
  assumes "mexc s = None" "create_engine_from_env e = Inr u" "lifespan e s o' [] = (out, tr)"
  shows "out \<noteq> Hung \<and> Engine_Created \<in> set tr \<and> Engine_Disposed \<notin> set tr \<and>
    (out = Normal \<longleftrightarrow> Logged ''service.shutdown'' \<in> set tr) \<and>
    (Scheduler_Entered \<in> set tr \<and> o_exit o' = Inr () \<longrightarrow> Scheduler_Exited \<in> set tr) \<and>
    (quiet o' \<longrightarrow> tr = [Logged ''service.startup'', Logged ''service.settings.loaded'', Engine_Created,
       Logged ''service.degraded'', Scheduler_Entered] @ map (\<lambda>j. Job_Added (sc_id j)) job_graph @
       [Scheduler_Started, Logged ''scheduler.started'', Serving, Logged ''scheduler.stopping'', Scheduler_Exited,
        Logged ''service.shutdown''])"
proof -
  let ?tr = "[Logged ''service.startup'', Logged ''service.settings.loaded'', Engine_Created, Logged ''service.degraded'']"
  obtain x tr1 where d: "degraded o' ?tr = (x, tr1)" by fastforce
  obtain ys where ys: "tr1 = ?tr @ ys" "set ys \<subseteq> - {Logged ''service.shutdown'', Engine_Disposed, Client_Built}"
    using addsD [OF degraded_facts(2) d] .
  have x: "x \<noteq> Hung" using degraded_facts(1) d unfolding never_def by (metis fst_conv)
  have run: "(out, tr) = (case x of Normal \<Rightarrow> (Normal, tr1 @ [Logged ''service.shutdown'']) | _ \<Rightarrow> (x, tr1))"
    using assms(3) d unfolding lifespan_degraded [OF assms(1,2)] by (cases x) (auto simp: seqR_def event_runs)
  have "Scheduler_Exited \<in> set tr1" if "Scheduler_Entered \<in> set tr1" "o_exit o' = Inr ()"
    using scheduler_exits [OF d[unfolded degraded_def] that(1) _ x that(2)] by auto
  moreover have "tr1 = ?tr @ [Scheduler_Entered] @ map (\<lambda>j. Job_Added (sc_id j)) job_graph @
    [Scheduler_Started, Logged ''scheduler.started'', Serving, Logged ''scheduler.stopping'', Scheduler_Exited] \<and> x = Normal"
    if "quiet o'"
    using d unfolding degraded_quiet [OF that] by simp
  ultimately show ?thesis using run x ys by (cases x) auto
qed

section \<open>Boot and health\<close>

text \<open>What a module of entrypoints leaves behind: the settings, the metrics, the labels of build_info.\<close>

record 's app =
  app_settings :: 's
  app_metrics :: nat
  app_build_info :: "string list"

definition boot_metrics :: "'r enrol \<Rightarrow> string \<Rightarrow> environ \<Rightarrow> ('a) base_settings_scheme \<Rightarrow> 'r metrics_state \<Rightarrow>
    ('a) base_settings_scheme app res \<times> 'r metrics_state" where
  "boot_metrics enrol version e s ms =
     (case build_metrics_for_service enrol (service_name s) ms of
        (Inl x, ms') \<Rightarrow> (Inl x, ms')
      | (Inr i, ms') \<Rightarrow>
          (Inr \<lparr>app_settings = s, app_metrics = i,
             app_build_info = [version, case map_of e ''COMMIT_SHA'' of None \<Rightarrow> ''unknown'' | Some c \<Rightarrow> c, cs_env (common s)]\<rparr>, ms'))"

definition boot_plain :: "(environ \<Rightarrow> ('a) base_settings_scheme res) \<Rightarrow> 'r enrol \<Rightarrow> string \<Rightarrow> environ \<Rightarrow> 'r metrics_state \<Rightarrow>
    ('a) base_settings_scheme app res \<times> 'r metrics_state" where
  "boot_plain load enrol version e ms =
     (case load e of Inl x \<Rightarrow> (Inl x, ms) | Inr s \<Rightarrow> boot_metrics enrol version e s ms)"

definition boot_data_platform :: "(environ \<Rightarrow> data_platform_settings res) \<Rightarrow> 'r enrol \<Rightarrow> string \<Rightarrow> environ \<Rightarrow> 'r metrics_state \<Rightarrow>
    data_platform_settings app res \<times> 'r metrics_state" where
  "boot_data_platform load enrol version e ms =
     (case load e of
        Inl x \<Rightarrow> (Inl x, ms)
      | Inr s \<Rightarrow> (case assert_no_trade_env_leaked e of Inl x \<Rightarrow> (Inl x, ms) | Inr _ \<Rightarrow> boot_metrics enrol version e s ms))"

definition boot_strategy_engine :: "(environ \<Rightarrow> strategy_engine_settings res) \<Rightarrow> 'r enrol \<Rightarrow> string \<Rightarrow> environ \<Rightarrow> 'r metrics_state \<Rightarrow>
    strategy_engine_settings app res \<times> 'r metrics_state" where
  "boot_strategy_engine = boot_plain"

definition boot_dashboard :: "(environ \<Rightarrow> dashboard_settings res) \<Rightarrow> 'r enrol \<Rightarrow> string \<Rightarrow> environ \<Rightarrow> 'r metrics_state \<Rightarrow>
    dashboard_settings app res \<times> 'r metrics_state" where
  "boot_dashboard = boot_plain"

text \<open>The app of the data platform exists only if no trade key is visible; the others do not look.\<close>

lemma boot_guarded:
  assumes "boot_data_platform load enrol version e ms = (Inr a, ms')"
  shows "leaked_keys e = []" "boot_plain load enrol version e ms = (Inr a, ms')"
  using assms
  by (auto simp: boot_data_platform_def boot_plain_def assert_no_trade_env_leaked_def guardE_def split: sum.splits if_splits)

definition three :: "nat \<Rightarrow> string" where
  "three n = digit (n div 100 mod 10) # two (n mod 100)"

definition health_ts :: "civil \<Rightarrow> nat \<Rightarrow> string" where
  "health_ts now microsecond =
     four (cv_year now) @ ''-'' @ two (cv_month now) @ ''-'' @ two (cv_day now) @ ''T'' @ two (cv_hour now) @ '':'' @
     two (cv_minute now) @ '':'' @ two (cv_second now) @ ''.'' @ three (microsecond div 1000) @ ''Z''"

text \<open>The body of GET /health; the correlation id is that of the request or a fresh uuid4.\<close>

definition health_body :: "string option \<Rightarrow> string \<Rightarrow> string \<Rightarrow> ('a) base_settings_scheme \<Rightarrow> civil \<Rightarrow> nat \<Rightarrow> (string \<times> string) list" where
  "health_body correlation_id uuid4 version s now microsecond =
     [(''correlation_id'', case correlation_id of None \<Rightarrow> uuid4 | Some c \<Rightarrow> if c = '''' then uuid4 else c),
      (''env'', cs_env (common s)),
      (''service_name'', service_name s),
      (''status'', ''ok''),
      (''ts'', health_ts now microsecond),
      (''version'', version)]"

lemma health_keys_sorted: "sorted (map fst (health_body c u v s now us)) \<and> distinct (map fst (health_body c u v s now us))"
  unfolding health_body_def list.map fst_conv by code_simp

text \<open>The two services without the exchange repeat the lifespan and the route over their own settings.\<close>

definition strategy_engine_lifespan :: "unit res \<Rightarrow> run" where
  "strategy_engine_lifespan = plain_lifespan"

definition dashboard_lifespan :: "unit res \<Rightarrow> run" where
  "dashboard_lifespan = plain_lifespan"

definition strategy_engine_health ::
  "string option \<Rightarrow> string \<Rightarrow> string \<Rightarrow> strategy_engine_settings \<Rightarrow> civil \<Rightarrow> nat \<Rightarrow> (string \<times> string) list" where
  "strategy_engine_health = health_body"

definition dashboard_health ::
  "string option \<Rightarrow> string \<Rightarrow> string \<Rightarrow> dashboard_settings \<Rightarrow> civil \<Rightarrow> nat \<Rightarrow> (string \<times> string) list" where
  "dashboard_health = health_body"

text \<open>They log service.shutdown exactly when the serving ended without an exception.\<close>

lemma plain_shutdown:
  "dashboard_lifespan served [] =
     (case served of
        Inr _ \<Rightarrow> (Normal, [Logged ''service.startup'', Logged ''service.settings.loaded'', Serving, Logged ''service.shutdown''])
      | Inl x \<Rightarrow> (Raised (Exc x), [Logged ''service.startup'', Logged ''service.settings.loaded'', Serving]))"
  "strategy_engine_lifespan served = dashboard_lifespan served"
  by (simp_all add: dashboard_lifespan_def strategy_engine_lifespan_def plain_lifespan_def seqR_def event_runs act_def pass_def raiseR_def
      split: sum.split)


text \<open>The instant named by a text of that layout, and its milliseconds.\<close>

definition num_at :: "string \<Rightarrow> nat list \<Rightarrow> nat" where
  "num_at s is = foldl (\<lambda>n i. 10 * n + char_val (s ! i)) 0 is"

definition read_health_ts :: "string \<Rightarrow> civil \<times> nat" where
  "read_health_ts s =
     (\<lparr>cv_year = num_at s [0, 1, 2, 3], cv_month = num_at s [5, 6], cv_day = num_at s [8, 9], cv_hour = num_at s [11, 12],
       cv_minute = num_at s [14, 15], cv_second = num_at s [17, 18]\<rparr>, num_at s [20, 21, 22])"

lemma two_value: "n < 100 \<Longrightarrow> 10 * (n div 10 mod 10) + n mod 10 = (n :: nat)"
proof -
  assume "n < 100"
  then have "n div 10 < 10" by (simp add: less_mult_imp_div_less)
  then show ?thesis by simp
qed

lemma three_value: "n < 1000 \<Longrightarrow> 10 * (10 * (n div 100 mod 10) + n mod 100 div 10 mod 10) + n mod 100 mod 10 = (n :: nat)"
proof -
  assume "n < 1000"
  then have "n div 100 < 10" by (simp add: less_mult_imp_div_less)
  then have "10 * (10 * (n div 100 mod 10) + n mod 100 div 10 mod 10) + n mod 100 mod 10 =
      100 * (n div 100) + (10 * (n mod 100 div 10 mod 10) + n mod 100 mod 10)" by simp
  also have "\<dots> = n" by (simp only: two_value [of "n mod 100"] mod_less_divisor) simp
  finally show ?thesis .
qed

lemma four_value:
  "n < 10000 \<Longrightarrow> 10 * (10 * (10 * (n div 100 div 10 mod 10) + n div 100 mod 10) + n mod 100 div 10 mod 10) + n mod 100 mod 10 = (n :: nat)"
proof -
  assume "n < 10000"
  then have "n div 100 < 100" by (simp add: less_mult_imp_div_less)
  note two_value [OF this] two_value [of "n mod 100"]
  then show ?thesis using mult_div_mod_eq [of 100 n] by simp
qed

lemma health_ts_read:
  assumes "civil_ok c" "us < 1000000"
  shows "read_health_ts (health_ts c us) = (c, us div 1000)" "length (health_ts c us) = 24"
proof -
  have "days_in_month (cv_year c) (cv_month c) \<le> 31" by (simp add: days_in_month_def)
  then have b: "cv_year c < 10000" "cv_month c < 100" "cv_day c < 100" "cv_hour c < 100" "cv_minute c < 100" "cv_second c < 100"
    "us div 1000 < 1000"
    using assms by (auto simp: civil_ok_def)
  show "length (health_ts c us) = 24" by (simp add: health_ts_def four_def two_def three_def)
  note layout = num_at_def health_ts_def four_def two_def three_def
  have "num_at (health_ts c us) [0, 1, 2, 3] = cv_year c"
    by (rule trans [OF _ four_value [OF b(1)]]) (simp add: layout)
  moreover have "num_at (health_ts c us) [20, 21, 22] = us div 1000"
    by (rule trans [OF _ three_value [OF b(7)]]) (simp add: layout)
  moreover have "num_at (health_ts c us) [5, 6] = cv_month c" "num_at (health_ts c us) [8, 9] = cv_day c"
    "num_at (health_ts c us) [11, 12] = cv_hour c" "num_at (health_ts c us) [14, 15] = cv_minute c"
    "num_at (health_ts c us) [17, 18] = cv_second c"
    by (simp_all add: layout b(2-6) [THEN two_value])
  ultimately show "read_health_ts (health_ts c us) = (c, us div 1000)" by (simp only: read_health_ts_def) simp
qed

section \<open>Example runs\<close>

definition calm_outside :: "group option \<Rightarrow> outside" where
  "calm_outside g = \<lparr>o_enter = Inr (), o_add = \<lambda>_. Inr (), o_start = Inr (), o_exit = Inr (), o_served = Inr (),
     o_close = Inr (), o_dispose = Inr (), o_watch_liquidations = False, o_group = g\<rparr>"

lemma joined_at_boot: "\<exists>g. reachable (boot_config (calm_outside None)) g \<and> g_joined g"
  using cancelled_group_joins [OF after_failure_state(1,5,2,3)] reachable_run [OF _ after_failure_reachable] by blast

lemma streaming_never_clean_witness:
  "\<exists>g. reachable (boot_config (calm_outside (Some g))) g \<and> Logged ''service.shutdown'' \<notin> set (snd (lifespan
     [(''DATABASE_URL'', ''postgres://db/x'')] (sample_settings ''postgres://db/x'' ''k'') (calm_outside (Some g)) []))"
proof -
  obtain g where g: "reachable (boot_config (calm_outside None)) g" "g_joined g" using joined_at_boot by blast
  then have r: "reachable (boot_config (calm_outside (Some g))) g" by (simp add: boot_config_def calm_outside_def)
  have m: "mexc (sample_settings ''postgres://db/x'' ''k'') \<noteq> None" by (simp add: sample_settings_def)
  have "g' = g" if "o_group (calm_outside (Some g)) = Some g'" for g' using that by (simp add: calm_outside_def)
  then show ?thesis
    using streaming_never_clean [OF m surjective_pairing, of "calm_outside (Some g)"] r g(2) by blast
qed

lemma degraded_leaks_engine_witness:
  "Engine_Disposed \<notin> set (snd (lifespan [(''DATABASE_URL'', ''postgres://db/x'')]
     ((sample_settings ''postgres://db/x'' ''k'')\<lparr>mexc := None\<rparr>) (calm_outside None) []))"
proof -
  have e: "create_engine_from_env [(''DATABASE_URL'', ''postgres://db/x'')] = Inr (rewrite_scheme ''postgres://db/x'')"
    by (simp add: create_engine_from_env_def rewrite_url_def)
  show ?thesis by (rule degraded_leaks_engine [OF _ e surjective_pairing, THEN conjunct2, THEN conjunct2, THEN conjunct1]) simp
qed

end
