(* ===== verification/Backup.thy ===== *)
theory Backup
  imports Backup_Keys "HOL-Library.AList"
begin

text \<open>
  The retention sweep of src/shortfire/ingest/backup/pg_dump_r2.py over the objects of the bucket.
  An operation on the bucket either raises what \<open>r_fault\<close> says for that call, without an effect, or has its effect.
\<close>

section \<open>The bucket\<close>

record r2 =
  r_objs :: "(string \<times> nat) list"
  r_calls :: nat
  r_fault :: "nat \<Rightarrow> exc option"
  r_log :: "log_entry list"

type_synonym 'a s3 = "r2 \<Rightarrow> 'a res \<times> r2"

definition retS :: "'a \<Rightarrow> 'a s3" where
  "retS x = (\<lambda>s. (Inr x, s))"

definition bindS :: "'a s3 \<Rightarrow> ('a \<Rightarrow> 'b s3) \<Rightarrow> 'b s3" where
  "bindS m f = (\<lambda>s. case m s of (Inl e, s') \<Rightarrow> (Inl e, s') | (Inr x, s') \<Rightarrow> f x s')"

fun forS :: "'a list \<Rightarrow> ('a \<Rightarrow> unit s3) \<Rightarrow> unit s3" where
  "forS [] f = retS ()"
| "forS (x # xs) f = bindS (f x) (\<lambda>_. forS xs f)"

definition logS :: "string \<Rightarrow> (string \<times> wire) list \<Rightarrow> unit s3" where
  "logS name fs = (\<lambda>s. (Inr (), s\<lparr>r_log := r_log s @ [(name, fs)]\<rparr>))"

definition s3_call :: "((string \<times> nat) list \<Rightarrow> 'a res \<times> (string \<times> nat) list) \<Rightarrow> 'a s3" where
  "s3_call f = (\<lambda>s. let s' = s\<lparr>r_calls := Suc (r_calls s)\<rparr> in
     case r_fault s (r_calls s) of
       Some e \<Rightarrow> (Inl e, s')
     | None \<Rightarrow> (case f (r_objs s) of (r, objs) \<Rightarrow> (r, s'\<lparr>r_objs := objs\<rparr>)))"

text \<open>\<open>_list_sorted_desc\<close>: the keys with a prefix, latest first\<close>

definition newest_first :: "string \<Rightarrow> (string \<times> nat) list \<Rightarrow> string list" where
  "newest_first p objs = rev (sort (filter (\<lambda>k. startswith k p) (map fst objs)))"

definition list_sorted_desc :: "string \<Rightarrow> string list s3" where
  "list_sorted_desc p = s3_call (\<lambda>objs. (Inr (newest_first p objs), objs))"

definition copy_object :: "string \<Rightarrow> string \<Rightarrow> unit s3" where
  "copy_object target source =
     s3_call (\<lambda>objs. case map_of objs source of
       None \<Rightarrow> (Inl (Foreign ''NoSuchKey''), objs)
     | Some v \<Rightarrow> (Inr (), AList.update target v objs))"

definition delete_object :: "string \<Rightarrow> unit s3" where
  "delete_object k = s3_call (\<lambda>objs. (Inr (), AList.delete k objs))"

section \<open>The sweep\<close>

definition copy_to :: "string \<Rightarrow> civil \<Rightarrow> string \<Rightarrow> unit s3" where
  "copy_to newest_key dt tier =
     (let target_key = dump_key tier dt in
      bindS (list_sorted_desc target_key) (\<lambda>existing.
      if existing = []
      then bindS (copy_object target_key newest_key) (\<lambda>_.
           logS ''sundown.promoted'' [(''from_key'', WStr newest_key), (''to_key'', WStr target_key)])
      else retS ()))"

definition tiers_due :: "civil \<Rightarrow> string list" where
  "tiers_due dt =
     (if weekday dt = 0 then [''weekly/''] else []) @
     (if cv_day dt = 1 then [''monthly/''] else []) @
     (if cv_month dt = 1 \<and> cv_day dt = 1 then [''annual/''] else [])"

definition retention_counts :: "(string \<times> nat) list" where
  "retention_counts = [(''daily/'', 7), (''weekly/'', 4), (''monthly/'', 6)]"

definition sweep_tier :: "string \<times> nat \<Rightarrow> unit s3" where
  "sweep_tier pn =
     bindS (list_sorted_desc (fst pn)) (\<lambda>objs.
     forS (drop (snd pn) objs) (\<lambda>k.
       bindS (delete_object k) (\<lambda>_.
       logS ''sundown.deleted'' [(''key'', WStr k), (''prefix'', WStr (fst pn)), (''kept'', WInt (int (snd pn)))])))"

definition sundown_sweep :: "unit s3" where
  "sundown_sweep =
     bindS (list_sorted_desc ''daily/'') (\<lambda>daily_objs.
     case daily_objs of
       [] \<Rightarrow> logS ''sundown.no_daily_dumps'' []
     | newest_key # _ \<Rightarrow>
         (case parse_key_dt newest_key of
            None \<Rightarrow> logS ''sundown.key_parse_failed'' [(''key'', WStr newest_key)]
          | Some dt \<Rightarrow>
              bindS (forS (tiers_due dt) (copy_to newest_key dt)) (\<lambda>_.
              bindS (forS retention_counts sweep_tier) (\<lambda>_.
              logS ''sundown.completed''
                [(''promoted'', WList (map (\<lambda>t. WStr (dump_key t dt)) (tiers_due dt))),
                 (''retention'', WDict (map (\<lambda>(p, n). (p, WInt (int n))) retention_counts))]))))"

section \<open>What a sweep keeps, whatever fails\<close>

definition rel :: "(r2 \<Rightarrow> r2 \<Rightarrow> bool) \<Rightarrow> 'a s3 \<Rightarrow> bool" where
  "rel R m \<longleftrightarrow> (\<forall>s. R s (snd (m s)))"

named_theorems rel_intros

lemma rel_bindS [rel_intros]:
  assumes "transp R" "rel R m" "\<And>x. rel R (f x)"
  shows "rel R (bindS m f)"
  unfolding rel_def
proof
  fix s
  obtain r s1 where m: "m s = (r, s1)" by fastforce
  then have R1: "R s s1" using assms(2) unfolding rel_def by (metis snd_conv)
  show "R s (snd (bindS m f s))"
  proof (cases r)
    case (Inl e)
    then show ?thesis using m R1 by (simp add: bindS_def)
  next
    case (Inr x)
    have "R s1 (snd (f x s1))" using assms(3) by (simp add: rel_def)
    then show ?thesis using m R1 Inr assms(1) by (simp add: bindS_def transpD [OF assms(1)])
  qed
qed

lemma rel_retS [rel_intros]: "reflp R \<Longrightarrow> rel R (retS x)"
  by (simp add: rel_def retS_def reflpD)

lemma rel_forS [rel_intros]:
  "reflp R \<Longrightarrow> transp R \<Longrightarrow> (\<And>x. x \<in> set xs \<Longrightarrow> rel R (f x)) \<Longrightarrow> rel R (forS xs f)"
  by (induction xs) (auto intro!: rel_intros)

text \<open>Objects outside a set of keys are kept.\<close>

definition keeps_objs :: "(string \<Rightarrow> bool) \<Rightarrow> r2 \<Rightarrow> r2 \<Rightarrow> bool" where
  "keeps_objs K s s' \<longleftrightarrow> (\<forall>k v. K k \<longrightarrow> map_of (r_objs s) k = Some v \<longrightarrow> map_of (r_objs s') k = Some v)"

lemma keeps_objs_order: "reflp (keeps_objs K)" "transp (keeps_objs K)"
  by (auto simp: keeps_objs_def intro!: reflpI transpI)

lemma rel_simple:
  "rel (keeps_objs K) (list_sorted_desc p)" "rel (keeps_objs K) (logS name fs)"
  by (auto simp: rel_def keeps_objs_def list_sorted_desc_def s3_call_def logS_def Let_def split: option.split)

lemma rel_delete: "\<not> K k \<Longrightarrow> rel (keeps_objs K) (delete_object k)"
  by (auto simp: rel_def keeps_objs_def delete_object_def s3_call_def Let_def delete_conv split: option.split)

lemma rel_sweep_tier:
  assumes "\<And>k. startswith k p \<Longrightarrow> \<not> K k"
  shows "rel (keeps_objs K) (sweep_tier (p, n))"
  unfolding rel_def
proof
  fix s
  have "rel (keeps_objs K) (forS (drop n (newest_first p objs)) (\<lambda>k. bindS (delete_object k) (\<lambda>_.
      logS ''sundown.deleted'' [(''key'', WStr k), (''prefix'', WStr p), (''kept'', WInt (int n))])))" for objs
    using assms by (intro rel_intros keeps_objs_order rel_simple rel_delete) (auto simp: newest_first_def dest: in_set_dropD)
  then show "keeps_objs K s (snd (sweep_tier (p, n) s))"
    by (auto simp: rel_def sweep_tier_def list_sorted_desc_def s3_call_def bindS_def Let_def keeps_objs_def split: option.split)
qed

text \<open>A sweep of one tier keeps its newest objects.\<close>

lemma distinct_newest: "distinct (map fst objs) \<Longrightarrow> distinct (newest_first p objs)"
  by (simp add: newest_first_def)

lemma set_newest: "set (newest_first p objs) = {k \<in> fst ` set objs. startswith k p}"
  by (auto simp: newest_first_def)

lemma sweep_tier_newest:
  assumes "distinct (map fst (r_objs s))" "k \<in> set (take n (newest_first p (r_objs s)))"
    and "map_of (r_objs s) k = Some v"
  shows "map_of (r_objs (snd (sweep_tier (p, n) s))) k = Some v"
proof -
  let ?old = "drop n (newest_first p (r_objs s))"
  have "distinct (take n (newest_first p (r_objs s)) @ ?old)"
    using distinct_newest [OF assms(1), of p] by simp
  then have k: "k \<notin> set ?old" using assms(2) by (auto simp del: append_take_drop_id)
  have "rel (keeps_objs (\<lambda>k. k \<notin> set ?old)) (forS ?old (\<lambda>k. bindS (delete_object k) (\<lambda>_.
      logS ''sundown.deleted'' [(''key'', WStr k), (''prefix'', WStr p), (''kept'', WInt (int n))])))"
    by (intro rel_intros keeps_objs_order rel_simple rel_delete) simp
  then show ?thesis
    using assms(3) k
    by (auto simp: rel_def sweep_tier_def list_sorted_desc_def s3_call_def bindS_def Let_def keeps_objs_def split: option.split)
qed

text \<open>A promotion only adds.\<close>

definition adds_outside :: "string \<Rightarrow> r2 \<Rightarrow> r2 \<Rightarrow> bool" where
  "adds_outside p s s' \<longleftrightarrow>
     (\<forall>k v. map_of (r_objs s) k = Some v \<longrightarrow> map_of (r_objs s') k = Some v) \<and>
     newest_first p (r_objs s') = newest_first p (r_objs s) \<and>
     (distinct (map fst (r_objs s)) \<longrightarrow> distinct (map fst (r_objs s')))"

lemma adds_outside_order: "reflp (adds_outside p)" "transp (adds_outside p)"
  by (auto simp: adds_outside_def intro!: reflpI transpI)

lemma startswith_self: "startswith k k"
  by (simp add: startswith_def)

lemma put_new_object:
  assumes "newest_first t objs = []" "\<not> startswith t p"
  shows "newest_first p (AList.update t v objs) = newest_first p objs"
    and "map_of objs k = Some u \<Longrightarrow> map_of (AList.update t v objs) k = Some u"
    and "distinct (map fst objs) \<Longrightarrow> distinct (map fst (AList.update t v objs))"
proof -
  have "t \<notin> fst ` set objs"
    using assms(1) startswith_self [of t] set_newest [of t objs] by (metis (mono_tags, lifting) empty_iff empty_set mem_Collect_eq)
  moreover from this have "map_of objs t = None" by (simp add: map_of_eq_None_iff)
  ultimately show "newest_first p (AList.update t v objs) = newest_first p objs"
    "map_of objs k = Some u \<Longrightarrow> map_of (AList.update t v objs) k = Some u"
    "distinct (map fst objs) \<Longrightarrow> distinct (map fst (AList.update t v objs))"
    using assms(2)
    by (auto simp: newest_first_def update_keys update_conv distinct_update)
qed

lemma rel_copy_to:
  assumes "\<not> startswith (dump_key tier dt) p"
  shows "rel (adds_outside p) (copy_to newest dt tier)"
  unfolding rel_def
proof
  fix s
  show "adds_outside p s (snd (copy_to newest dt tier s))"
    using put_new_object [of "dump_key tier dt" "r_objs s" p] assms
    by (auto simp: copy_to_def list_sorted_desc_def copy_object_def logS_def retS_def s3_call_def bindS_def Let_def
        adds_outside_def split: option.split)
qed

lemma due_tiers_outside: "tier \<in> set (tiers_due dt) \<Longrightarrow> \<not> startswith (dump_key tier dt) ''daily/''"
  by (auto simp: tiers_due_def dump_key_def startswith_def split: if_splits)

lemma snd_bindS:
  "snd (bindS m f s) = (case m s of (Inl e, s') \<Rightarrow> s' | (Inr x, s') \<Rightarrow> snd (f x s'))"
  by (auto simp: bindS_def split: prod.split sum.split)

lemma listed: "list_sorted_desc p s = (r, s') \<Longrightarrow> r_objs s' = r_objs s \<and> (\<forall>ks. r = Inr ks \<longrightarrow> ks = newest_first p (r_objs s))"
  by (auto simp: list_sorted_desc_def s3_call_def Let_def split: option.splits)

text \<open>The promotions and the three tiers, in whatever state they stop.\<close>

lemma sweep_tiers_keep:
  assumes "distinct (map fst (r_objs s))" "map_of (r_objs s) k = Some v"
    and "(\<forall>(p, n)\<in>set retention_counts. \<not> startswith k p) \<or> k \<in> set (take 7 (newest_first ''daily/'' (r_objs s)))"
  shows "map_of (r_objs (snd (forS retention_counts sweep_tier s))) k = Some v"
proof -
  let ?K = "\<lambda>k. \<not> startswith k ''weekly/'' \<and> \<not> startswith k ''monthly/''"
  have "rel (keeps_objs ?K) (sweep_tier (''weekly/'', 4))" "rel (keeps_objs ?K) (sweep_tier (''monthly/'', 6))"
    by (rule rel_sweep_tier; simp)+
  then have rest: "rel (keeps_objs ?K) (forS [(''weekly/'', 4), (''monthly/'', 6)] sweep_tier)"
    by (intro rel_intros keeps_objs_order) auto
  have daily: "startswith x ''daily/'' \<Longrightarrow> ?K x" for x
    by (auto simp: startswith_append)
  obtain r s1 where d: "sweep_tier (''daily/'', 7) s = (r, s1)" by fastforce
  have "map_of (r_objs s1) k = Some v \<and> ?K k"
  proof (cases "k \<in> set (take 7 (newest_first ''daily/'' (r_objs s)))")
    case True
    then have "startswith k ''daily/''" by (auto simp: set_newest dest: in_set_takeD)
    then show ?thesis using sweep_tier_newest [OF assms(1) True assms(2)] d daily by simp
  next
    case False
    then have "\<not> startswith k ''daily/''" "?K k" using assms(3) by (auto simp: retention_counts_def)
    moreover have "rel (keeps_objs (\<lambda>k. \<not> startswith k ''daily/'')) (sweep_tier (''daily/'', 7))"
      by (rule rel_sweep_tier) simp
    ultimately show ?thesis using assms(2) d by (auto simp: rel_def keeps_objs_def dest!: spec [of _ s])
  qed
  moreover have "keeps_objs ?K s1 (snd (forS [(''weekly/'', 4), (''monthly/'', 6)] sweep_tier s1))"
    using rest by (simp add: rel_def)
  ultimately show ?thesis
    using d by (cases r) (auto simp: retention_counts_def snd_bindS keeps_objs_def)
qed

lemma sweep_keeps:
  assumes "distinct (map fst (r_objs s))" "map_of (r_objs s) k = Some v"
    and "(\<forall>(p, n)\<in>set retention_counts. \<not> startswith k p) \<or> k \<in> set (take 7 (newest_first ''daily/'' (r_objs s)))"
  shows "map_of (r_objs (snd (sundown_sweep s))) k = Some v"
proof -
  obtain r s1 where l: "list_sorted_desc ''daily/'' s = (r, s1)" by fastforce
  note s1 = listed [OF l]
  have log: "r_objs (snd (logS name fs t)) = r_objs t" for name fs t by (simp add: logS_def)
  have stop: ?thesis if "snd (sundown_sweep s) = s1 \<or> (\<exists>name fs. snd (sundown_sweep s) = snd (logS name fs s1))"
    using that s1 assms(2) log by auto
  show ?thesis
  proof (cases "\<exists>newest rest dt. r = Inr (newest # rest) \<and> parse_key_dt newest = Some dt")
    case False
    then show ?thesis
      by (intro stop) (auto simp: sundown_sweep_def snd_bindS l split: sum.split list.split option.split)
  next
    case True
    then obtain newest rest dt where r: "r = Inr (newest # rest)" "parse_key_dt newest = Some dt" by blast
    obtain q s2 where c: "forS (tiers_due dt) (copy_to newest dt) s1 = (q, s2)" by fastforce
    have "rel (adds_outside ''daily/'') (forS (tiers_due dt) (copy_to newest dt))"
      by (intro rel_forS adds_outside_order rel_copy_to due_tiers_outside)
    then have add: "adds_outside ''daily/'' s1 s2" using c unfolding rel_def by (metis snd_conv)
    then have s2: "distinct (map fst (r_objs s2))" "map_of (r_objs s2) k = Some v"
      "newest_first ''daily/'' (r_objs s2) = newest_first ''daily/'' (r_objs s)"
      using assms(1,2) s1 by (auto simp: adds_outside_def)
    note tiers = sweep_tiers_keep [OF s2(1,2), unfolded s2(3), OF assms(3)]
    obtain q' s3 where t: "forS retention_counts sweep_tier s2 = (q', s3)" by fastforce
    have "r_objs (snd (sundown_sweep s)) = r_objs s2 \<or> r_objs (snd (sundown_sweep s)) = r_objs s3"
      by (cases q; cases q') (simp_all add: sundown_sweep_def snd_bindS l r c t log)
    then show ?thesis using s2(2) tiers t by auto
  qed
qed


definition sample_bucket :: "(nat \<Rightarrow> exc option) \<Rightarrow> r2" where
  "sample_bucket fault =
     \<lparr>r_objs = [(dump_key ''annual/'' monday, 3), (dump_key ''daily/'' monday, 7)], r_calls = 0, r_fault = fault, r_log = []\<rparr>"

lemma sample_newest: "newest_first ''daily/'' (r_objs (sample_bucket f)) = [dump_key ''daily/'' monday]"
  by (simp add: newest_first_def sample_bucket_def dump_key_def startswith_def)

lemma sample_keys: "dump_key ''annual/'' monday \<noteq> dump_key ''daily/'' monday"
  by (simp add: dump_key_def)


section \<open>The retention policy\<close>

text \<open>What a sweep without a failing call does to the bucket: promote, then keep the newest of each tier.\<close>

definition promote :: "string \<Rightarrow> civil \<Rightarrow> string \<Rightarrow> (string \<times> nat) list \<Rightarrow> (string \<times> nat) list" where
  "promote newest dt tier objs =
     (if newest_first (dump_key tier dt) objs = []
      then AList.update (dump_key tier dt) (case map_of objs newest of Some v \<Rightarrow> v | None \<Rightarrow> 0) objs else objs)"

definition retained :: "(string \<times> nat) list \<Rightarrow> string \<Rightarrow> bool" where
  "retained objs k \<longleftrightarrow> (\<forall>(p, n)\<in>set retention_counts. startswith k p \<longrightarrow> k \<in> set (take n (newest_first p objs)))"

definition calm_r2 :: "r2 \<Rightarrow> bool" where
  "calm_r2 s \<longleftrightarrow> r_fault s = (\<lambda>_. None) \<and> distinct (map fst (r_objs s))"

text \<open>A run that succeeds on a calm bucket with the given effect.\<close>

definition does :: "'a s3 \<Rightarrow> r2 \<Rightarrow> (string \<times> nat) list \<Rightarrow> bool" where
  "does m s objs \<longleftrightarrow> (\<exists>x s'. m s = (Inr x, s') \<and> r_objs s' = objs \<and> r_fault s' = r_fault s)"

lemma does_list: "calm_r2 s \<Longrightarrow> \<exists>s'. list_sorted_desc p s = (Inr (newest_first p (r_objs s)), s') \<and>
    r_objs s' = r_objs s \<and> r_fault s' = r_fault s"
  by (auto simp: list_sorted_desc_def s3_call_def calm_r2_def Let_def)

lemma does_deletes:
  "r_fault s = (\<lambda>_. None) \<Longrightarrow> does (forS ks (\<lambda>k. bindS (delete_object k) (\<lambda>_. logS ''sundown.deleted'' (fs k)))) s
     (filter (\<lambda>(k, _). k \<notin> set ks) (r_objs s))"
proof (induction ks arbitrary: s)
  case Nil
  then show ?case by (simp add: does_def retS_def case_prod_unfold)
next
  case (Cons k ks)
  let ?s = "s\<lparr>r_calls := Suc (r_calls s), r_objs := AList.delete k (r_objs s),
    r_log := r_log s @ [(''sundown.deleted'', fs k)]\<rparr>"
  have "filter (\<lambda>(k, _). k \<notin> set ks) (r_objs ?s) = filter (\<lambda>(x, _). x \<notin> set (k # ks)) (r_objs s)"
    by (auto simp: AList.delete_eq intro!: filter_cong)
  then show ?case
    using Cons.IH [of ?s] Cons.prems
    by (auto simp: does_def bindS_def delete_object_def s3_call_def logS_def Let_def)
qed

lemma map_of_filter: "map_of (filter (\<lambda>(k, _). Q k) xs) k = (if Q k then map_of xs k else None)"
  by (induction xs) auto

lemma newest_filter: "(\<And>k. startswith k p \<Longrightarrow> Q k) \<Longrightarrow> newest_first p (filter (\<lambda>(k, _). Q k) objs) = newest_first p objs"
  unfolding newest_first_def by (induction objs) auto

lemma does_sweep_tier:
  assumes "calm_r2 s"
  shows "does (sweep_tier (p, n)) s (filter (\<lambda>(k, _). k \<notin> set (drop n (newest_first p (r_objs s)))) (r_objs s))"
proof -
  obtain s1 where s1: "list_sorted_desc p s = (Inr (newest_first p (r_objs s)), s1)" "r_objs s1 = r_objs s" "r_fault s1 = r_fault s"
    using does_list [OF assms] by blast
  show ?thesis
    using does_deletes [of s1 "drop n (newest_first p (r_objs s))"
        "\<lambda>k. [(''key'', WStr k), (''prefix'', WStr p), (''kept'', WInt (int n))]"] s1 assms
    by (simp add: does_def sweep_tier_def bindS_def calm_r2_def)
qed

lemma does_forS:
  assumes "\<And>x s. x \<in> set xs \<Longrightarrow> r_fault s = (\<lambda>_. None) \<Longrightarrow> I (r_objs s) \<Longrightarrow> does (f x) s (g x (r_objs s))"
    and "\<And>x objs. x \<in> set xs \<Longrightarrow> I objs \<Longrightarrow> I (g x objs)"
  shows "r_fault s = (\<lambda>_. None) \<Longrightarrow> I (r_objs s) \<Longrightarrow> does (forS xs f) s (fold g xs (r_objs s))"
  using assms
proof (induction xs arbitrary: s)
  case Nil
  then show ?case by (simp add: does_def retS_def)
next
  case (Cons x xs)
  from Cons.prems(3) [of x s] Cons.prems(1,2) obtain u s1 where s1: "f x s = (Inr u, s1)"
    "r_objs s1 = g x (r_objs s)" "r_fault s1 = r_fault s" by (auto simp: does_def)
  have "does (forS xs f) s1 (fold g xs (r_objs s1))"
    using Cons.prems s1 by (intro Cons.IH) auto
  then show ?case using s1 by (auto simp: does_def bindS_def)
qed

definition bucket_with :: "string \<Rightarrow> (string \<times> nat) list \<Rightarrow> bool" where
  "bucket_with newest objs \<longleftrightarrow> distinct (map fst objs) \<and> newest \<in> set (map fst objs)"

lemma promote_bucket: "bucket_with newest objs \<Longrightarrow> bucket_with newest (promote newest dt tier objs)"
  by (simp add: bucket_with_def promote_def distinct_update update_keys del: set_map)

lemma promotions_bucket: "bucket_with newest objs \<Longrightarrow> bucket_with newest (fold (promote newest dt) ts objs)"
  by (induction ts arbitrary: objs) (simp_all add: promote_bucket)

lemma does_copy_to:
  assumes "r_fault s = (\<lambda>_. None)" "bucket_with newest (r_objs s)"
  shows "does (copy_to newest dt tier) s (promote newest dt tier (r_objs s))"
proof -
  obtain v where "map_of (r_objs s) newest = Some v"
    using assms(2) by (metis bucket_with_def domD dom_map_of_conv_image_fst set_map)
  then show ?thesis
    using assms(1)
    by (simp add: does_def copy_to_def list_sorted_desc_def copy_object_def logS_def retS_def s3_call_def bindS_def Let_def promote_def)
qed

definition keep_newest :: "string \<times> nat \<Rightarrow> (string \<times> nat) list \<Rightarrow> (string \<times> nat) list" where
  "keep_newest pn objs = filter (\<lambda>(k, _). k \<notin> set (drop (snd pn) (newest_first (fst pn) objs))) objs"

lemma keep_newest_distinct: "distinct (map fst objs) \<Longrightarrow> distinct (map fst (keep_newest pn objs))"
  by (simp add: keep_newest_def distinct_map_filter)

lemma keep_newest_other:
  assumes "\<And>k. startswith k q \<Longrightarrow> \<not> startswith k (fst pn)"
  shows "newest_first q (keep_newest pn objs) = newest_first q objs"
  unfolding keep_newest_def using assms by (intro newest_filter) (auto simp: set_newest dest!: in_set_dropD)

lemma keep_newest_map_of:
  assumes "distinct (map fst objs)"
  shows "map_of (keep_newest (p, n) objs) k =
    (if startswith k p \<longrightarrow> k \<in> set (take n (newest_first p objs)) then map_of objs k else None)"
proof (cases "startswith k p \<and> k \<in> fst ` set objs")
  case True
  then have "k \<in> set (newest_first p objs)" by (simp add: set_newest)
  then have "k \<in> set (drop n (newest_first p objs)) \<longleftrightarrow> k \<notin> set (take n (newest_first p objs))"
    using distinct_newest [OF assms, of p]
    by (metis Un_iff append_take_drop_id disjoint_iff distinct_append set_append)
  then show ?thesis using True by (simp add: keep_newest_def map_of_filter)
next
  case False
  then have "k \<notin> set (drop n (newest_first p objs))" by (auto simp: set_newest dest!: in_set_dropD)
  moreover have "map_of objs k = None" if "k \<notin> fst ` set objs" using that by (simp add: map_of_eq_None_iff)
  ultimately show ?thesis using False by (auto simp: keep_newest_def map_of_filter)
qed

lemma tiers_disjoint:
  "startswith k ''weekly/'' \<Longrightarrow> \<not> startswith k ''daily/''" "startswith k ''monthly/'' \<Longrightarrow> \<not> startswith k ''daily/''"
  "startswith k ''monthly/'' \<Longrightarrow> \<not> startswith k ''weekly/''"
  by (auto simp: startswith_append)

lemma keep_all_tiers:
  assumes "distinct (map fst objs)"
  shows "map_of (fold keep_newest retention_counts objs) k = (if retained objs k then map_of objs k else None)"
  using assms
  by (auto simp: retention_counts_def keep_newest_map_of keep_newest_distinct keep_newest_other tiers_disjoint retained_def)



end
