(* ===== verification/Dsn.thy ===== *)
theory Dsn
  imports Settings Kv_State
begin

text \<open>
  \<open>_parse_dsn\<close> of src/shortfire/ingest/backup/pg_dump_r2.py over urllib.parse.urlparse, for text of
  single-byte characters. The validation of a bracketed host, which only newer Pythons make, is
  left out.
\<close>

section \<open>Splitting text\<close>

function replace_all :: "string \<Rightarrow> string \<Rightarrow> string \<Rightarrow> string" where
  "replace_all old new s =
     (if s = [] \<or> old = [] then s
      else if startswith s old then new @ replace_all old new (drop (length old) s)
      else hd s # replace_all old new (tl s))"
  by pat_completeness auto

termination by (relation "measure (\<lambda>(_, _, s). length s)") auto

declare replace_all.simps [simp del]

text \<open>\<open>s.partition(c)\<close> without the separator, and \<open>s.rpartition(c)\<close> when it is there\<close>

definition before :: "char \<Rightarrow> string \<Rightarrow> string" where
  "before c s = takeWhile (\<lambda>x. x \<noteq> c) s"

definition after :: "char \<Rightarrow> string \<Rightarrow> string" where
  "after c s = tl (dropWhile (\<lambda>x. x \<noteq> c) s)"

definition before_last :: "char \<Rightarrow> string \<Rightarrow> string" where
  "before_last c s = rev (after c (rev s))"

definition after_last :: "char \<Rightarrow> string \<Rightarrow> string" where
  "after_last c s = rev (before c (rev s))"

section \<open>urlparse\<close>

record split_url =
  su_scheme :: string
  su_netloc :: string
  su_path :: string

definition clean_url :: "string \<Rightarrow> string" where
  "clean_url s =
     filter (\<lambda>c. of_char c \<notin> {9, 10, 13 :: nat}) (dropWhile (\<lambda>c. (of_char c :: nat) \<le> 32) s)"

definition is_alpha :: "char \<Rightarrow> bool" where
  "is_alpha c \<longleftrightarrow> (let n = (of_char c :: nat) in 65 \<le> n \<and> n \<le> 90 \<or> 97 \<le> n \<and> n \<le> 122)"

definition scheme_char :: "char \<Rightarrow> bool" where
  "scheme_char c \<longleftrightarrow> is_alpha c \<or> is_digit c \<or> c \<in> {CHR ''+'', CHR ''-'', CHR ''.''}"

definition split_scheme :: "string \<Rightarrow> string \<times> string" where
  "split_scheme url =
     (let i = before CHR '':'' url in
      if i \<noteq> [] \<and> CHR '':'' \<in> set url \<and> is_alpha (hd url) \<and> list_all scheme_char i
      then (lower i, after CHR '':'' url) else ([], url))"

definition netloc_end :: "char \<Rightarrow> bool" where
  "netloc_end c \<longleftrightarrow> c \<in> {CHR ''/'', CHR ''?'', CHR ''#''}"

definition uses_params :: "string list" where
  "uses_params = ['''', ''ftp'', ''hdl'', ''prospero'', ''http'', ''https'', ''shttp'', ''rtsp'', ''rtsps'', ''rtspu'',
     ''sip'', ''sips'', ''mms'', ''sftp'', ''tel'']"

definition drop_params :: "string \<Rightarrow> string" where
  "drop_params path =
     (let last_part = after_last CHR ''/'' path
      in take (length path - length last_part) path @ before CHR '';'' last_part)"

definition urlparse :: "string \<Rightarrow> split_url res" where
  "urlparse url =
     (case split_scheme (clean_url url) of (scheme, rest) \<Rightarrow>
      let has_netloc = startswith rest ''//'';
          netloc = (if has_netloc then takeWhile (\<lambda>c. \<not> netloc_end c) (drop 2 rest) else []);
          rest' = (if has_netloc then dropWhile (\<lambda>c. \<not> netloc_end c) (drop 2 rest) else rest);
          path = before CHR ''?'' (before CHR ''#'' rest')
      in if (CHR ''['' \<in> set netloc) \<noteq> (CHR '']'' \<in> set netloc) then Inl ValueError
         else Inr \<lparr>su_scheme = scheme, su_netloc = netloc,
                   su_path = (if scheme \<in> set uses_params then drop_params path else path)\<rparr>)"

text \<open>The attributes username, password, hostname and port; an empty text stands for None.\<close>

definition url_username :: "split_url \<Rightarrow> string" where
  "url_username u =
     (if CHR ''@'' \<in> set (su_netloc u) then before CHR '':'' (before_last CHR ''@'' (su_netloc u)) else [])"

definition url_password :: "split_url \<Rightarrow> string" where
  "url_password u =
     (if CHR ''@'' \<in> set (su_netloc u) then after CHR '':'' (before_last CHR ''@'' (su_netloc u)) else [])"

definition host_info :: "split_url \<Rightarrow> string \<times> string" where
  "host_info u =
     (let h = after_last CHR ''@'' (su_netloc u) in
      if CHR ''['' \<in> set h
      then (before CHR '']'' (after CHR ''['' h), after CHR '':'' (after CHR '']'' (after CHR ''['' h)))
      else (before CHR '':'' h, after CHR '':'' h))"

definition url_hostname :: "split_url \<Rightarrow> string" where
  "url_hostname u =
     (let h = fst (host_info u) in lower (before CHR ''%'' h) @ dropWhile (\<lambda>c. c \<noteq> CHR ''%'') h)"

definition url_port :: "split_url \<Rightarrow> int option res" where
  "url_port u =
     (let p = snd (host_info u) in
      if p = [] then Inr None
      else if \<not> list_all is_digit p then Inl ValueError
      else if digits_val p \<le> 65535 then Inr (Some (digits_val p)) else Inl ValueError)"

section \<open>The DSN\<close>

definition or_else :: "string \<Rightarrow> string \<Rightarrow> string" where
  "or_else s d = (if s = [] then d else s)"

definition parse_dsn :: "string \<Rightarrow> (string \<times> string \<times> string \<times> int \<times> string) res" where
  "parse_dsn url =
     bindE (urlparse (replace_all ''postgresql+asyncpg://'' ''postgresql://'' url)) (\<lambda>u.
     bindE (url_port u) (\<lambda>port.
     Inr (url_username u, url_password u, or_else (url_hostname u) ''localhost'',
          (case port of None \<Rightarrow> 5432 | Some p \<Rightarrow> if p = 0 then 5432 else p),
          dropWhile (\<lambda>c. c = CHR ''/'') (or_else (su_path u) ''/postgres''))))"

section \<open>A well-formed DSN\<close>

lemma before_after:
  "c \<notin> set s \<Longrightarrow> before c (s @ c # t) = s" "c \<notin> set s \<Longrightarrow> after c (s @ c # t) = t"
  "c \<notin> set s \<Longrightarrow> before c s = s"
  by (auto simp: before_def after_def takeWhile_tail dropWhile_append takeWhile_eq_all_conv)

lemma last_before_after:
  "c \<notin> set t \<Longrightarrow> before_last c (s @ c # t) = s" "c \<notin> set t \<Longrightarrow> after_last c (s @ c # t) = t"
  by (simp_all add: before_last_def after_last_def before_after)

text \<open>Text without the characters that mean something in a URL, and without blanks.\<close>

definition dsn_part :: "string \<Rightarrow> bool" where
  "dsn_part s \<longleftrightarrow> (\<forall>c\<in>set s. 32 < (of_char c :: nat) \<and>
     c \<notin> {CHR ''/'', CHR ''@'', CHR ''?'', CHR ''#'', CHR ''['', CHR '']''})"

lemma dsn_part_free:
  "dsn_part s \<Longrightarrow> c \<in> {CHR ''/'', CHR ''@'', CHR ''?'', CHR ''#'', CHR ''['', CHR '']''} \<Longrightarrow> c \<notin> set s"
  unfolding dsn_part_def by blast

definition slashes :: "string \<Rightarrow> nat" where
  "slashes s = length (filter (\<lambda>c. c = CHR ''/'') s)"

lemma replace_none: "slashes s \<le> 1 \<Longrightarrow> replace_all ''postgresql+asyncpg://'' new s = s"
proof (induction s)
  case Nil
  then show ?case by (simp add: replace_all.simps)
next
  case (Cons c s)
  have "slashes (c # s) \<ge> 2" if "startswith (c # s) ''postgresql+asyncpg://''"
    using that by (auto simp: startswith_append slashes_def)
  moreover have "slashes s \<le> 1" using Cons.prems by (simp add: slashes_def split: if_splits)
  ultimately show ?case using Cons.prems Cons.IH by (subst replace_all.simps) auto
qed

lemma replace_driver:
  assumes "slashes s \<le> 1"
  shows "replace_all ''postgresql+asyncpg://'' ''postgresql://'' (''postgresql+asyncpg://'' @ s) = ''postgresql://'' @ s"
  using replace_none [OF assms] by (subst replace_all.simps) (simp add: startswith_def)

lemma replace_skip:
  "c \<noteq> CHR ''p'' \<Longrightarrow> replace_all ''postgresql+asyncpg://'' new (c # s) = c # replace_all ''postgresql+asyncpg://'' new s"
  by (subst replace_all.simps) (simp add: startswith_def)

lemma replace_plain:
  assumes "slashes s \<le> 1"
  shows "replace_all ''postgresql+asyncpg://'' new (''postgresql://'' @ s) = ''postgresql://'' @ s"
  using replace_none [OF assms] by (subst replace_all.simps) (simp add: startswith_def replace_skip)

lemma show_nat_digit: "c \<in> set (show_nat n) \<Longrightarrow> is_digit c"
proof (induction n rule: show_nat.induct)
  case (1 n)
  then show ?case by (subst (asm) show_nat.simps) (auto simp: is_digit_def split: if_splits)
qed

lemma digit_part: "is_digit c \<Longrightarrow> 32 < (of_char c :: nat) \<and>
    c \<notin> {CHR ''/'', CHR ''@'', CHR ''?'', CHR ''#'', CHR ''['', CHR '']'', CHR '':''}"
  by (auto simp: is_digit_def)

lemma dsn_part_append: "dsn_part (s @ t) \<longleftrightarrow> dsn_part s \<and> dsn_part t"
  by (auto simp: dsn_part_def)

lemma show_nat_part: "dsn_part (show_nat n)"
  using show_nat_digit digit_part by (auto simp: dsn_part_def)

lemma dsn_slashes: "dsn_part s \<Longrightarrow> slashes s = 0"
  by (auto simp: dsn_part_def slashes_def filter_empty_conv)

definition the_netloc :: "string \<Rightarrow> string \<Rightarrow> string \<Rightarrow> nat \<Rightarrow> string" where
  "the_netloc user pw host prt = user @ '':'' @ pw @ ''@'' @ host @ '':'' @ show_nat prt"

definition visible :: "string \<Rightarrow> bool" where
  "visible s \<longleftrightarrow> list_all (\<lambda>c. 32 < (of_char c :: nat)) s"

lemma visible_simps:
  "visible (s @ t) \<longleftrightarrow> visible s \<and> visible t" "dsn_part s \<Longrightarrow> visible s"
  by (auto simp: visible_def dsn_part_def list_all_iff)

lemma visible_texts: "visible ''postgresql://''" "visible ''/''" "visible '':''" "visible ''@''"
  by code_simp+

lemma clean_visible: "visible s \<Longrightarrow> clean_url s = s"
proof -
  assume v: "visible s"
  then have "filter (\<lambda>c. of_char c \<notin> {9, 10, 13 :: nat}) s = s"
    by (intro filter_True) (auto simp: visible_def list_all_iff)
  moreover have "dropWhile (\<lambda>c. (of_char c :: nat) \<le> 32) s = s"
    using v by (cases s) (auto simp: visible_def)
  ultimately show ?thesis by (simp only: clean_url_def)
qed

definition inner_char :: "char \<Rightarrow> bool" where
  "inner_char c \<longleftrightarrow> \<not> netloc_end c \<and> c \<noteq> CHR ''['' \<and> c \<noteq> CHR '']''"

lemma inner_part: "dsn_part s \<Longrightarrow> list_all inner_char s"
  by (simp add: dsn_part_def inner_char_def netloc_end_def list_all_iff)

lemma inner_texts: "list_all inner_char '':''" "list_all inner_char ''@''"
  by code_simp+

lemma inner_netloc:
  assumes "dsn_part user" "dsn_part pw" "dsn_part host"
  shows "list_all inner_char (the_netloc user pw host prt)"
  using assms show_nat_part [of prt]
  by (simp only: the_netloc_def list_all_append inner_part inner_texts simp_thms)

lemma urlparse_dsn:
  assumes "dsn_part user" "dsn_part pw" "dsn_part host" "dsn_part dbname"
  shows "urlparse (''postgresql://'' @ the_netloc user pw host prt @ ''/'' @ dbname) =
    Inr \<lparr>su_scheme = ''postgresql'', su_netloc = the_netloc user pw host prt, su_path = ''/'' @ dbname\<rparr>"
proof -
  let ?n = "the_netloc user pw host prt"
  let ?url = "''postgresql://'' @ ?n @ ''/'' @ dbname"
  have clean: "clean_url ?url = ?url"
    using assms show_nat_part [of prt]
    by (intro clean_visible) (simp only: visible_simps visible_texts the_netloc_def simp_thms)
  have letters: "lower ''postgresql'' = ''postgresql''" "list_all scheme_char ''postgresql''" "is_alpha CHR ''p''"
    by code_simp+
  have "CHR '':'' \<notin> set ''postgresql''" by code_simp
  then have parts: "before CHR '':'' ?url = ''postgresql''" "after CHR '':'' ?url = ''//'' @ ?n @ ''/'' @ dbname"
    using before_after(1,2) [of "CHR '':''" "''postgresql''" "''//'' @ ?n @ ''/'' @ dbname"] by simp_all
  have sch: "split_scheme ?url = (''postgresql'', ''//'' @ ?n @ ''/'' @ dbname)"
    unfolding split_scheme_def parts Let_def using letters by simp
  have inner: "inner_char c" if "c \<in> set ?n" for c
    using inner_netloc [OF assms(1-3), of prt] that by (simp add: list_all_iff)
  have slash: "netloc_end CHR ''/''" by (simp add: netloc_end_def)
  have net: "takeWhile (\<lambda>c. \<not> netloc_end c) (?n @ ''/'' @ dbname) = ?n"
    "dropWhile (\<lambda>c. \<not> netloc_end c) (?n @ ''/'' @ dbname) = ''/'' @ dbname"
    using inner slash by (simp_all add: takeWhile_append dropWhile_append inner_char_def)
  have br: "CHR ''['' \<notin> set ?n" "CHR '']'' \<notin> set ?n"
    using inner by (auto simp: inner_char_def)
  have path: "before CHR ''?'' (before CHR ''#'' (''/'' @ dbname)) = ''/'' @ dbname"
  proof -
    have "CHR ''#'' \<notin> set (''/'' @ dbname)" "CHR ''?'' \<notin> set (''/'' @ dbname)"
      using dsn_part_free [OF assms(4), of "CHR ''#''"] dsn_part_free [OF assms(4), of "CHR ''?''"] by simp_all
    then show ?thesis by (metis before_after(3))
  qed
  have "startswith (''//'' @ ?n @ ''/'' @ dbname) ''//''" by (simp add: startswith_def)
  then show ?thesis
    using br clean sch net path by (simp add: urlparse_def Let_def uses_params_def)
qed

lemma split_netloc:
  assumes "dsn_part user" "dsn_part pw" "dsn_part host" "CHR '':'' \<notin> set user" "CHR '':'' \<notin> set host"
  shows "before_last CHR ''@'' (the_netloc user pw host prt) = user @ CHR '':'' # pw"
    and "after_last CHR ''@'' (the_netloc user pw host prt) = host @ CHR '':'' # show_nat prt"
    and "CHR ''@'' \<in> set (the_netloc user pw host prt)"
    and "CHR ''['' \<notin> set (host @ CHR '':'' # show_nat prt)"
proof -
  have "CHR ''@'' \<notin> set (host @ CHR '':'' # show_nat prt)"
    using dsn_part_free [OF assms(3), of "CHR ''@''"] dsn_part_free [OF show_nat_part, of "CHR ''@''"] by simp
  then show "before_last CHR ''@'' (the_netloc user pw host prt) = user @ CHR '':'' # pw"
    "after_last CHR ''@'' (the_netloc user pw host prt) = host @ CHR '':'' # show_nat prt"
    using last_before_after [of "CHR ''@''" "host @ CHR '':'' # show_nat prt" "user @ CHR '':'' # pw"]
    by (simp_all add: the_netloc_def)
  show "CHR ''@'' \<in> set (the_netloc user pw host prt)" by (simp add: the_netloc_def)
  show "CHR ''['' \<notin> set (host @ CHR '':'' # show_nat prt)"
    using dsn_part_free [OF assms(3), of "CHR ''[''"] dsn_part_free [OF show_nat_part, of "CHR ''[''"] by simp
qed

text \<open>C36: A DSN is taken apart into what it was made of: driver prefix or not, user, password (colons
  included), host in lower case, port and database come back verbatim. Verbatim means that a
  percent escape in the password, which the engine's URL needs for special characters and decodes,
  reaches pg_dump undecoded.\<close>

theorem dsn_round_trip:
  assumes "dsn_part user" "dsn_part pw" "dsn_part host" "dsn_part dbname"
    and "CHR '':'' \<notin> set user" "CHR '':'' \<notin> set host" "CHR ''%'' \<notin> set host" "host \<noteq> []"
    and "0 < prt" "prt \<le> 65535" "driver \<in> {''postgresql+asyncpg://'', ''postgresql://''}"
  shows "parse_dsn (driver @ the_netloc user pw host prt @ ''/'' @ dbname) =
    Inr (user, pw, lower host, int prt, dbname)"
proof -
  let ?n = "the_netloc user pw host prt"
  let ?u = "\<lparr>su_scheme = ''postgresql'', su_netloc = ?n, su_path = ''/'' @ dbname\<rparr>"
  have "slashes (?n @ ''/'' @ dbname) = 1"
    using dsn_slashes [OF assms(1)] dsn_slashes [OF assms(2)] dsn_slashes [OF assms(3)] dsn_slashes [OF assms(4)]
      dsn_slashes [OF show_nat_part, of prt] by (simp add: slashes_def the_netloc_def)
  then have "replace_all ''postgresql+asyncpg://'' ''postgresql://'' (driver @ ?n @ ''/'' @ dbname) =
      ''postgresql://'' @ ?n @ ''/'' @ dbname"
    using assms(11) replace_driver [of "?n @ ''/'' @ dbname"] replace_plain [of "?n @ ''/'' @ dbname"] by auto
  then have url: "urlparse (replace_all ''postgresql+asyncpg://'' ''postgresql://'' (driver @ ?n @ ''/'' @ dbname)) = Inr ?u"
    using urlparse_dsn [OF assms(1-4)] by simp
  note split = split_netloc [OF assms(1-3,5,6), of prt]
  have host: "host_info ?u = (host, show_nat prt)"
    using split(2,4) before_after(1,2) [OF assms(6), of "show_nat prt"] by (simp add: host_info_def Let_def)
  have "url_username ?u = user" "url_password ?u = pw"
    using split(1,3) before_after(1,2) [OF assms(5), of pw] by (simp_all add: url_username_def url_password_def)
  moreover have "url_hostname ?u = lower host"
    using assms(7) unfolding url_hostname_def host Let_def by (auto simp: before_after(3))
  moreover have "show_nat prt \<noteq> []" by (subst show_nat.simps) simp
  then have "url_port ?u = Inr (Some (int prt))"
    using assms(10) show_nat_digit unfolding url_port_def host Let_def
    by (simp add: digits_val_show_nat list_all_iff)
  moreover have "lower host \<noteq> []" using assms(8) by (simp add: lower_def)
  moreover have "dropWhile (\<lambda>c. c = CHR ''/'') (CHR ''/'' # dbname) = dbname"
    using dsn_part_free [OF assms(4), of "CHR ''/''"] by (cases dbname) auto
  ultimately show ?thesis
    using assms(9) unfolding parse_dsn_def url or_else_def by simp
qed

lemma dsn_round_trip_witness:
  "parse_dsn (''postgresql+asyncpg://'' @ the_netloc ''app'' ''p%40ss:w'' ''DB.internal'' 6432 @ ''/'' @ ''market'') =
     Inr (''app'', ''p%40ss:w'', lower ''DB.internal'', 6432, ''market'')"
proof -
  have "dsn_part ''app''" "dsn_part ''p%40ss:w''" "dsn_part ''DB.internal''" "dsn_part ''market''"
    unfolding dsn_part_def by code_simp+
  then show ?thesis
    using dsn_round_trip [of "''app''" "''p%40ss:w''" "''DB.internal''" "''market''" 6432 "''postgresql+asyncpg://''"]
    by simp
qed

end
