(* ===== verification/Backup_Job.thy ===== *)
theory Backup_Job
  imports Backup Dsn Events
begin

text \<open>
  The dump and the daily job of src/shortfire/ingest/backup/pg_dump_r2.py, over the bucket of
  Backup and the DSN of Dsn. What starting pg_dump gives is an argument: \<open>launch argv env\<close> is the
  exception of Popen, or what the process writes, how it ends and what poll() reports of it. The
  sweep logs to the log of the process.
\<close>

section \<open>State\<close>

text \<open>\<open>pg_wait\<close> is \<open>proc.wait(timeout=3600)\<close>, \<open>pg_poll\<close> the answer of poll() when wait saw no exit.\<close>

record pg_run =
  pg_stdout :: nat
  pg_wait :: "int res"
  pg_stderr :: string
  pg_poll :: "int option"

record proc =
  pr_argv :: "string list"
  pr_env :: environ
  pr_running :: bool

record backup =
  bk_world :: world
  bk_r2 :: r2
  bk_procs :: "proc list"

type_synonym 'a bk = "backup \<Rightarrow> 'a res \<times> backup"

definition bindB :: "'a bk \<Rightarrow> ('a \<Rightarrow> 'b bk) \<Rightarrow> 'b bk" where
  "bindB m f = (\<lambda>b. case m b of (Inl e, b') \<Rightarrow> (Inl e, b') | (Inr x, b') \<Rightarrow> f x b')"

definition worldB :: "'a io \<Rightarrow> 'a bk" where
  "worldB m = (\<lambda>b. case m (bk_world b) of (r, w) \<Rightarrow> (r, b\<lparr>bk_world := w\<rparr>))"

definition s3B :: "'a s3 \<Rightarrow> 'a bk" where
  "s3B m = (\<lambda>b. case m ((bk_r2 b)\<lparr>r_log := w_log (bk_world b)\<rparr>) of
     (r, s) \<Rightarrow> (r, b\<lparr>bk_r2 := s, bk_world := (bk_world b)\<lparr>w_log := r_log s\<rparr>\<rparr>))"

definition catchB :: "'a bk \<Rightarrow> (exc \<Rightarrow> 'a bk) \<Rightarrow> 'a bk" where
  "catchB m h = (\<lambda>b. case m b of
     (Inl e, b') \<Rightarrow> if is_Exception e then h e b' else (Inl e, b')
   | (Inr x, b') \<Rightarrow> (Inr x, b'))"

section \<open>The client\<close>

record r2_client =
  cl_endpoint_url :: string
  cl_access_key :: string
  cl_secret_key :: string
  cl_region :: string
  cl_signature :: string
  cl_retries :: "nat \<times> string"

definition build_r2_client :: "data_platform_settings \<Rightarrow> r2_client res" where
  "build_r2_client s =
     (case r2_backup s of
        None \<Rightarrow> Inl AssertionError
      | Some c \<Rightarrow> Inr
          \<lparr>cl_endpoint_url = ''https://'' @ account_id c @ ''.r2.cloudflarestorage.com'',
           cl_access_key = get_secret_value (access_key_id c),
           cl_secret_key = get_secret_value (secret_access_key c),
           cl_region = ''auto'', cl_signature = ''s3v4'', cl_retries = (3, ''adaptive'')\<rparr>)"

section \<open>The dump\<close>

definition upload_fileobj :: "string \<Rightarrow> nat \<Rightarrow> unit s3" where
  "upload_fileobj key content = s3_call (\<lambda>objs. (Inr (), AList.update key content objs))"

definition kill_if_running :: "proc \<Rightarrow> proc" where
  "kill_if_running p = (if pr_running p then p\<lparr>pr_running := False\<rparr> else p)"

definition run_pg_dump_sync ::
  "(string list \<Rightarrow> environ \<Rightarrow> pg_run res) \<Rightarrow> string list \<Rightarrow> environ \<Rightarrow> string \<Rightarrow> unit bk" where
  "run_pg_dump_sync launch cmd environ key = (\<lambda>b.
     case launch cmd environ of
       Inl e \<Rightarrow> (Inl e, b)
     | Inr p \<Rightarrow>
         (case s3B (upload_fileobj key (pg_stdout p)) b of (uploaded, b') \<Rightarrow>
          let ret = bindE uploaded (\<lambda>_. pg_wait p);
              result = bindE ret (\<lambda>n.
                if n \<noteq> 0
                then Inl (RuntimeError (''pg_dump exit code '' @ show_int n @ '': '' @ take 2000 (pg_stderr p)))
                else Inr ());
              process = \<lparr>pr_argv = cmd, pr_env = environ,
                pr_running = (case ret of Inr _ \<Rightarrow> False | Inl _ \<Rightarrow> pg_poll p = None)\<rparr>
          in (result, b'\<lparr>bk_procs := bk_procs b' @ [kill_if_running process]\<rparr>)))"

section \<open>The daily job\<close>

definition pg_dump_command :: "string \<Rightarrow> int \<Rightarrow> string \<Rightarrow> string \<Rightarrow> string list" where
  "pg_dump_command host p user dbname =
     [''pg_dump'', ''--format=custom'', ''--compress=zstd:9'', ''--no-owner'', ''--no-acl'',
      ''--host'', host, ''--port'', show_int p, ''--username'', user, ''--dbname'', dbname]"

definition environ_get :: "environ \<Rightarrow> string \<Rightarrow> string res" where
  "environ_get environ k = (case map_of environ k of None \<Rightarrow> Inl (KeyError k) | Some v \<Rightarrow> Inr v)"

definition daily_pg_dump_to_r2 ::
  "(string list \<Rightarrow> environ \<Rightarrow> pg_run res) \<Rightarrow> environ \<Rightarrow> civil \<Rightarrow> data_platform_settings \<Rightarrow> int bk" where
  "daily_pg_dump_to_r2 launch environ now s =
     (case r2_backup s of
        None \<Rightarrow>
          bindB (worldB (logI ''backup.skipped'' [(''reason'', WStr ''r2_backup not configured'')])) (\<lambda>_.
          worldB (retI 0))
      | Some c \<Rightarrow>
          bindB (worldB (eventI ''backup.started'' [])) (\<lambda>_.
          bindB (worldB (liftI (environ_get environ ''DATABASE_URL''))) (\<lambda>database_url.
          bindB (worldB (liftI (parse_dsn database_url))) (\<lambda>(user, password, host, p, dbname).
          let key = dump_key ''daily/'' now in
          bindB (worldB (liftI (build_r2_client s))) (\<lambda>_.
          bindB (run_pg_dump_sync launch (pg_dump_command host p user dbname)
                   (AList.update ''PGPASSWORD'' password environ) key) (\<lambda>_.
          bindB (worldB (setI ''backup_age_seconds'' [] 0)) (\<lambda>_.
          bindB (catchB (s3B sundown_sweep) (\<lambda>e.
                   worldB (logI ''backup.sundown.failed'' [(''exc_info'', WStr (exc_name e))]))) (\<lambda>_.
          bindB (worldB (eventI ''backup.completed'' [(''key'', WStr key), (''bucket'', WStr (bucket_name c))])) (\<lambda>_.
          worldB (retI 1))))))))))"

definition backup_pg_dump_job_callable ::
  "(string list \<Rightarrow> environ \<Rightarrow> pg_run res) \<Rightarrow> environ \<Rightarrow> civil \<Rightarrow> data_platform_settings \<Rightarrow> unit bk" where
  "backup_pg_dump_job_callable launch environ now s =
     bindB (daily_pg_dump_to_r2 launch environ now s) (\<lambda>_. worldB (retI ()))"

section \<open>The process\<close>

lemma procs_kept [simp]:
  "bk_procs (snd (worldB m b)) = bk_procs b" "bk_procs (snd (s3B n b)) = bk_procs b"
  by (simp_all add: worldB_def s3B_def case_prod_unfold)

lemma worldB_liftI [simp]: "worldB (liftI r) b = (r, b)"
  by (simp add: worldB_def liftI_def)

lemma worldB_retI [simp]: "worldB (retI x) b = (Inr x, b)"
  by (simp add: worldB_def retI_def)

lemma snd_bindB: "snd (bindB m f b) = (case fst (m b) of Inl e \<Rightarrow> snd (m b) | Inr x \<Rightarrow> snd (f x (snd (m b))))"
  by (auto simp: bindB_def split: prod.split sum.split)

lemma bindB_Inr: "m b = (Inr x, b') \<Longrightarrow> bindB m f b = f x b'"
  "m b = (Inl e, b') \<Longrightarrow> bindB m f b = (Inl e, b')"
  by (simp_all add: bindB_def)

lemma catchB_procs:
  "(\<And>e b. bk_procs (snd (h e b)) = bk_procs b) \<Longrightarrow> bk_procs (snd (m b)) = bk_procs b \<Longrightarrow> bk_procs (snd (catchB m h b)) = bk_procs b"
  by (auto simp: catchB_def split: prod.split sum.split)

text \<open>Whatever follows a step on the bucket or the world starts no process.\<close>

lemma bindB_procs:
  "(\<And>x b. bk_procs (snd (f x b)) = bk_procs b) \<Longrightarrow> bk_procs (snd (bindB m f b)) = bk_procs (snd (m b))"
  by (simp add: snd_bindB split: sum.split)

definition starts :: "proc list \<Rightarrow> (proc \<Rightarrow> bool) \<Rightarrow> backup \<Rightarrow> bool" where
  "starts ps P b \<longleftrightarrow> (\<exists>new. bk_procs b = ps @ new \<and> length new \<le> 1 \<and> list_all P new)"

lemma starts_none: "bk_procs b = ps \<Longrightarrow> starts ps P b"
  by (auto simp: starts_def)

lemma starts_bindB:
  assumes "bk_procs b = ps" "bk_procs (snd (m b)) = bk_procs b"
    and "\<And>x b'. m b = (Inr x, b') \<Longrightarrow> bk_procs b' = ps \<Longrightarrow> starts ps P (snd (f x b'))"
  shows "starts ps P (snd (bindB m f b))"
  using assms by (cases "m b") (auto simp: bindB_def starts_none split: sum.split)

lemma starts_run:
  assumes "\<And>p. pr_argv p = cmd \<Longrightarrow> pr_env p = environ \<Longrightarrow> \<not> pr_running p \<Longrightarrow> P p"
  shows "starts (bk_procs b) P (snd (run_pg_dump_sync launch cmd environ key b))"
proof (cases "launch cmd environ")
  case (Inl e)
  then show ?thesis by (simp add: run_pg_dump_sync_def starts_none)
next
  case (Inr p)
  obtain r b' where u: "s3B (upload_fileobj key (pg_stdout p)) b = (r, b')" by fastforce
  then have "bk_procs b' = bk_procs b" by (metis procs_kept(2) snd_conv)
  then show ?thesis
    using Inr u assms by (auto simp: run_pg_dump_sync_def Let_def starts_def kill_if_running_def)
qed

text \<open>The process that the DSN in the environment calls for.\<close>

definition dump_process :: "environ \<Rightarrow> proc \<Rightarrow> bool" where
  "dump_process environ p \<longleftrightarrow> \<not> pr_running p \<and>
     (case bindE (environ_get environ ''DATABASE_URL'') parse_dsn of
        Inl _ \<Rightarrow> False
      | Inr (user, pw, host, prt, dbname) \<Rightarrow>
          pr_argv p = pg_dump_command host prt user dbname \<and> map_of (pr_env p) ''PGPASSWORD'' = Some pw)"

text \<open>Whatever fails, a run of the backup job starts at most one process, and it is not left running; its
  argument vector is made of the host, port, user and database of the DSN alone, so no password
  shows in the process list, and the password is in its environment as PGPASSWORD.\<close>

theorem backup_process:
  "\<exists>new. bk_procs (snd (backup_pg_dump_job_callable launch environ now s b)) = bk_procs b @ new \<and>
    length new \<le> 1 \<and> list_all (dump_process environ) new"
proof -
  have after_dump: "starts (bk_procs b) (dump_process environ) (snd (bindB (run_pg_dump_sync launch cmd env key) f b'))"
    if "environ_get environ ''DATABASE_URL'' = Inr url" "parse_dsn url = Inr (user, pw, host, prt, dbname)"
      "cmd = pg_dump_command host prt user dbname" "env = AList.update ''PGPASSWORD'' pw environ"
      "\<And>x b. bk_procs (snd (f x b)) = bk_procs b" "bk_procs b' = bk_procs b" for url user pw host prt dbname cmd env key f b'
    using that starts_run [of cmd env "dump_process environ" b' launch key] bindB_procs [of f]
    by (auto simp: starts_def dump_process_def update_conv)
  have "starts (bk_procs b) (dump_process environ) (snd (daily_pg_dump_to_r2 launch environ now s b))"
  proof (cases "r2_backup s")
    case None
    then show ?thesis by (simp add: daily_pg_dump_to_r2_def bindB_procs starts_none)
  next
    case (Some c)
    show ?thesis
      unfolding daily_pg_dump_to_r2_def Some option.case Let_def
      apply (rule starts_bindB, simp, simp)
      apply (rule starts_bindB, simp, simp)
      apply (rule starts_bindB, simp, simp)
      apply (clarsimp split: prod.split)
      apply (rule starts_bindB, simp, simp)
      apply (rule after_dump)
      apply (auto simp: bindB_procs catchB_procs)
      done
  qed
  then have "starts (bk_procs b) (dump_process environ) (snd (backup_pg_dump_job_callable launch environ now s b))"
    unfolding backup_pg_dump_job_callable_def starts_def by (subst bindB_procs) simp_all
  then show ?thesis by (simp add: starts_def)
qed

section \<open>A dump that fails\<close>

text \<open>The hypotheses a run of the job needs to reach pg_dump.\<close>

definition dsn_of :: "environ \<Rightarrow> (string \<times> string \<times> string \<times> int \<times> string) res" where
  "dsn_of environ = bindE (environ_get environ ''DATABASE_URL'') parse_dsn"

definition dump_of ::
  "(string list \<Rightarrow> environ \<Rightarrow> pg_run res) \<Rightarrow> environ \<Rightarrow> pg_run res" where
  "dump_of launch environ = bindE (dsn_of environ) (\<lambda>(user, pw, host, prt, dbname).
     launch (pg_dump_command host prt user dbname) (AList.update ''PGPASSWORD'' pw environ))"

lemma dump_of_Inr:
  assumes "dump_of launch environ = Inr p"
  obtains url user pw host prt dbname where "environ_get environ ''DATABASE_URL'' = Inr url"
    "parse_dsn url = Inr (user, pw, host, prt, dbname)"
    "launch (pg_dump_command host prt user dbname) (AList.update ''PGPASSWORD'' pw environ) = Inr p"
proof (cases "environ_get environ ''DATABASE_URL''")
  case (Inl e)
  then show ?thesis using assms by (simp add: dump_of_def dsn_of_def)
next
  case (Inr url)
  then show ?thesis
    using assms that by (cases "parse_dsn url") (auto simp: dump_of_def dsn_of_def)
qed

lemma started: "worldB (eventI ''backup.started'' []) b =
    (Inr (), b\<lparr>bk_world := (bk_world b)\<lparr>w_log := w_log (bk_world b) @ [(''backup.started'', [])]\<rparr>\<rparr>)"
  by (simp add: worldB_def eventI_def EVENTS_def io_defs logI_def)

lemma completed: "worldB (eventI ''backup.completed'' fs) b =
    (Inr (), b\<lparr>bk_world := (bk_world b)\<lparr>w_log := w_log (bk_world b) @ [(''backup.completed'', fs)]\<rparr>\<rparr>)"
  by (simp add: worldB_def eventI_def EVENTS_def io_defs logI_def)

lemma client_built: "r2_backup s \<noteq> None \<Longrightarrow> \<exists>c. build_r2_client s = Inr c"
  by (auto simp: build_r2_client_def split: option.split)

lemma uploaded:
  assumes "r_fault (bk_r2 b) (r_calls (bk_r2 b)) = None"
  shows "\<exists>b'. s3B (upload_fileobj key v) b = (Inr (), b') \<and> bk_procs b' = bk_procs b \<and>
    bk_world b' = bk_world b \<and> r_objs (bk_r2 b') = AList.update key v (r_objs (bk_r2 b)) \<and>
    r_fault (bk_r2 b') = r_fault (bk_r2 b) \<and> r_calls (bk_r2 b') = Suc (r_calls (bk_r2 b))"
  using assms by (simp add: s3B_def upload_fileobj_def s3_call_def Let_def)

text \<open>When pg_dump exits with an error the job raises a RuntimeError with the exit status and the first
  2000 characters of the error output, and neither ages the metric nor logs a completion; but what
  it had written is already in the bucket under the key of a daily dump, and stays there.\<close>

lemma failed_dump_stays:
  assumes "r2_backup s \<noteq> None" "dump_of launch environ = Inr p" "pg_wait p = Inr n" "n \<noteq> 0"
    and "r_fault (bk_r2 b) (r_calls (bk_r2 b)) = None"
  shows "\<exists>b'. backup_pg_dump_job_callable launch environ now s b =
      (Inl (RuntimeError (''pg_dump exit code '' @ show_int n @ '': '' @ take 2000 (pg_stderr p))), b') \<and>
    map_of (r_objs (bk_r2 b')) (dump_key ''daily/'' now) = Some (pg_stdout p) \<and>
    bk_world b' = (bk_world b)\<lparr>w_log := w_log (bk_world b) @ [(''backup.started'', [])]\<rparr>"
proof -
  obtain url user pw host prt dbname where d: "environ_get environ ''DATABASE_URL'' = Inr url"
    "parse_dsn url = Inr (user, pw, host, prt, dbname)"
    "launch (pg_dump_command host prt user dbname) (AList.update ''PGPASSWORD'' pw environ) = Inr p"
    using dump_of_Inr [OF assms(2)] by blast
  let ?b = "b\<lparr>bk_world := (bk_world b)\<lparr>w_log := w_log (bk_world b) @ [(''backup.started'', [])]\<rparr>\<rparr>"
  obtain b' where b': "s3B (upload_fileobj (dump_key ''daily/'' now) (pg_stdout p)) ?b = (Inr (), b')"
    "bk_world b' = bk_world ?b" "r_objs (bk_r2 b') = AList.update (dump_key ''daily/'' now) (pg_stdout p) (r_objs (bk_r2 b))"
    using uploaded [of ?b] assms(5) by auto
  obtain c cl where c: "r2_backup s = Some c" "build_r2_client s = Inr cl" using assms(1) client_built by blast
  show ?thesis
    using assms(3,4) b'
    by (simp add: backup_pg_dump_job_callable_def daily_pg_dump_to_r2_def c bindB_Inr started d Let_def
        run_pg_dump_sync_def bindB_def update_conv)
qed

section \<open>A dump that succeeds\<close>

text \<open>The exceptions a run on the bucket raises are those of its calls, or a missing source.\<close>

definition tame :: "'a s3 \<Rightarrow> bool" where
  "tame m \<longleftrightarrow> (\<forall>s. (\<forall>i e. r_fault s i = Some e \<longrightarrow> is_Exception e) \<longrightarrow>
     r_fault (snd (m s)) = r_fault s \<and> (case fst (m s) of Inl e \<Rightarrow> is_Exception e | Inr _ \<Rightarrow> True))"

named_theorems tame_intros

lemma tame_bindS [tame_intros]:
  assumes "tame m" "\<And>x. tame (f x)"
  shows "tame (bindS m f)"
  unfolding tame_def
proof (intro allI impI)
  fix s :: r2
  assume s: "\<forall>i e. r_fault s i = Some e \<longrightarrow> is_Exception e"
  obtain r s1 where m: "m s = (r, s1)" by fastforce
  note first = assms(1) [unfolded tame_def, rule_format, of s, OF s [rule_format], unfolded m, simplified]
  show "r_fault (snd (bindS m f s)) = r_fault s \<and> (case fst (bindS m f s) of Inl e \<Rightarrow> is_Exception e | Inr _ \<Rightarrow> True)"
  proof (cases r)
    case (Inl e)
    then show ?thesis using first m by (simp add: bindS_def)
  next
    case (Inr x)
    then show ?thesis
      using first m assms(2) [unfolded tame_def, rule_format, of s1 x] s by (simp add: bindS_def)
  qed
qed

lemma tame_simple [tame_intros]: "tame (retS x)" "tame (logS name fs)"
  by (simp_all add: tame_def retS_def logS_def)

lemma tame_call [tame_intros]:
  assumes "\<And>objs e. fst (f objs) = Inl e \<Longrightarrow> is_Exception e"
  shows "tame (s3_call f)"
  unfolding tame_def
proof (intro allI impI)
  fix s :: r2
  assume "\<forall>i e. r_fault s i = Some e \<longrightarrow> is_Exception e"
  then show "r_fault (snd (s3_call f s)) = r_fault s \<and> (case fst (s3_call f s) of Inl e \<Rightarrow> is_Exception e | Inr _ \<Rightarrow> True)"
    using assms [of "r_objs s"]
    by (cases "f (r_objs s)"; cases "fst (f (r_objs s))")
      (auto simp: s3_call_def Let_def split: option.split)
qed

lemma tame_forS [tame_intros]: "(\<And>x. tame (f x)) \<Longrightarrow> tame (forS xs f)"
  by (induction xs) (auto intro!: tame_intros)

lemma tame_sweep: "tame sundown_sweep"
proof -
  have "tame (list_sorted_desc p)" "tame (copy_object t u)" "tame (delete_object k)" for p t u k
    unfolding list_sorted_desc_def copy_object_def delete_object_def
    by (auto intro!: tame_call simp: is_Exception_def split: option.splits)
  then show ?thesis
    by (auto simp: sundown_sweep_def copy_to_def sweep_tier_def Let_def intro!: tame_intros split: list.split option.split)
qed

lemma newest_head:
  assumes "k \<in> set (newest_first p objs)" "\<And>x. x \<in> set (newest_first p objs) \<Longrightarrow> x \<le> k"
  shows "k \<in> set (take (Suc n) (newest_first p objs))"
proof -
  obtain x xs where x: "newest_first p objs = x # xs" using assms(1) by (cases "newest_first p objs") auto
  have "sorted (rev (newest_first p objs))" by (simp add: newest_first_def)
  then have "\<And>y. y \<in> set xs \<Longrightarrow> y \<le> x" by (simp add: x sorted_append)
  then have "k = x" using assms x by (metis antisym list.set_intros(1) set_ConsD)
  then show ?thesis using x by simp
qed

definition earlier_dumps :: "civil \<Rightarrow> (string \<times> nat) list \<Rightarrow> bool" where
  "earlier_dumps now objs \<longleftrightarrow> (\<forall>k\<in>fst ` set objs. startswith k ''daily/'' \<longrightarrow>
     (\<exists>c. civil_ok c \<and> k = dump_key ''daily/'' c \<and> civil_key c < civil_key now))"

lemma new_dump_is_newest:
  assumes "civil_ok now" "earlier_dumps now objs"
  shows "dump_key ''daily/'' now \<in> set (take 7 (newest_first ''daily/'' (AList.update (dump_key ''daily/'' now) v objs)))"
proof -
  let ?k = "dump_key ''daily/'' now"
  let ?objs = "AList.update ?k v objs"
  have "startswith ?k ''daily/''" by (simp add: dump_key_def startswith_def)
  moreover have "map_of ?objs ?k = Some v" by (simp add: update_conv)
  then have "?k \<in> fst ` set ?objs" by (metis map_of_eq_None_iff option.distinct(1))
  ultimately have here: "?k \<in> set (newest_first ''daily/'' ?objs)" by (simp add: set_newest)
  have "x \<le> ?k" if "x \<in> set (newest_first ''daily/'' ?objs)" for x
  proof -
    have "x = ?k \<or> x \<in> fst ` set objs \<and> startswith x ''daily/''"
      using that by (auto simp: set_newest update_keys simp flip: set_map split: if_splits)
    then show ?thesis
    proof
      assume x: "x \<in> fst ` set objs \<and> startswith x ''daily/''"
      then obtain c where "civil_ok c" "x = dump_key ''daily/'' c" "civil_key c < civil_key now"
        using assms(2) unfolding earlier_dumps_def by blast
      then show ?thesis using dump_keys_chronological [of c now "''daily/''"] assms(1) by simp
    qed simp
  qed
  then show ?thesis using newest_head [OF here, of 6] by simp
qed

text \<open>When pg_dump succeeds and the upload does, the job succeeds and its dump is in the bucket when it
  ends, whatever calls of the sweep that follows fail (their exceptions are only logged) and whatever
  that sweep deletes, as long as the clock is later than that of every dump in the daily tier.\<close>

lemma daily_backup_kept:
  assumes "r2_backup s = Some c" "dump_of launch environ = Inr p" "pg_wait p = Inr 0"
    and "r_fault (bk_r2 b) (r_calls (bk_r2 b)) = None" "\<And>i e. r_fault (bk_r2 b) i = Some e \<Longrightarrow> is_Exception e"
    and "distinct (map fst (r_objs (bk_r2 b)))" "civil_ok now" "earlier_dumps now (r_objs (bk_r2 b))"
  shows "\<exists>b'. backup_pg_dump_job_callable launch environ now s b = (Inr (), b') \<and>
    map_of (r_objs (bk_r2 b')) (dump_key ''daily/'' now) = Some (pg_stdout p) \<and>
    last (w_log (bk_world b')) =
      (''backup.completed'', [(''key'', WStr (dump_key ''daily/'' now)), (''bucket'', WStr (bucket_name c))])"
proof -
  let ?k = "dump_key ''daily/'' now"
  obtain url user pw host prt dbname where d: "environ_get environ ''DATABASE_URL'' = Inr url"
    "parse_dsn url = Inr (user, pw, host, prt, dbname)"
    "launch (pg_dump_command host prt user dbname) (AList.update ''PGPASSWORD'' pw environ) = Inr p"
    using dump_of_Inr [OF assms(2)] by blast
  let ?b = "b\<lparr>bk_world := (bk_world b)\<lparr>w_log := w_log (bk_world b) @ [(''backup.started'', [])]\<rparr>\<rparr>"
  obtain b1 where b1: "s3B (upload_fileobj ?k (pg_stdout p)) ?b = (Inr (), b1)"
    "r_objs (bk_r2 b1) = AList.update ?k (pg_stdout p) (r_objs (bk_r2 b))" "r_fault (bk_r2 b1) = r_fault (bk_r2 b)"
    using uploaded [of ?b] assms(4) by auto
  obtain cl where cl: "build_r2_client s = Inr cl" using assms(1) client_built [of s] by auto
  obtain b2 where b2: "run_pg_dump_sync launch (pg_dump_command host prt user dbname)
      (AList.update ''PGPASSWORD'' pw environ) ?k ?b = (Inr (), b2)" "bk_r2 b2 = bk_r2 b1"
    using b1(1) assms(3) by (simp add: run_pg_dump_sync_def d Let_def)
  obtain b3 where b3: "worldB (setI ''backup_age_seconds'' [] 0) b2 = (Inr (), b3)" "bk_r2 b3 = bk_r2 b1"
    using b2(2) by (simp add: worldB_def setI_def updI_def)
  let ?s = "(bk_r2 b3)\<lparr>r_log := w_log (bk_world b3)\<rparr>"
  have kept: "map_of (r_objs (snd (sundown_sweep ?s))) ?k = Some (pg_stdout p)"
    using b1(2) b3(2) assms(6) new_dump_is_newest [OF assms(7,8)]
    by (intro sweep_keeps) (simp_all add: distinct_update update_conv)
  have caught: "is_Exception e" if "fst (sundown_sweep ?s) = Inl e" for e
    using tame_sweep [unfolded tame_def, rule_format, of ?s] assms(5) b1(3) b3(2) that by simp
  obtain r t where sw: "sundown_sweep ?s = (r, t)" by fastforce
  obtain b4 where b4: "catchB (s3B sundown_sweep)
      (\<lambda>e. worldB (logI ''backup.sundown.failed'' [(''exc_info'', WStr (exc_name e))])) b3 = (Inr (), b4)"
    "r_objs (bk_r2 b4) = r_objs t"
    using caught sw by (cases r) (auto simp: catchB_def s3B_def worldB_def logI_def updI_def)
  show ?thesis
    using b2 b3 b4 kept sw
    by (simp add: backup_pg_dump_job_callable_def daily_pg_dump_to_r2_def assms(1) bindB_def started completed d Let_def cl)
qed

section \<open>Two runs\<close>

text \<open>A bucket with last Monday's dump, on the Monday after; each later call to the bucket fails.\<close>

definition next_monday :: civil where
  "next_monday = monday\<lparr>cv_day := 12\<rparr>"

definition sample_backup :: "world \<Rightarrow> backup" where
  "sample_backup w =
     \<lparr>bk_world = w, bk_r2 = \<lparr>r_objs = [(dump_key ''daily/'' monday, 7)], r_calls = 0,
        r_fault = (\<lambda>i. if i = 0 then None else Some TransportError), r_log = []\<rparr>, bk_procs = []\<rparr>"

definition sample_environ :: environ where
  "sample_environ = [(''DATABASE_URL'', ''postgresql+asyncpg://app:pw@db:6432/market'')]"

definition sample_launch :: "int \<Rightarrow> string list \<Rightarrow> environ \<Rightarrow> pg_run res" where
  "sample_launch n argv env = Inr \<lparr>pg_stdout = length argv, pg_wait = Inr n, pg_stderr = ''failed'', pg_poll = None\<rparr>"

definition backup_settings :: "data_platform_settings" where
  "backup_settings = (sample_settings ''a'' ''b'')
     \<lparr>r2_backup := Some \<lparr>account_id = ''acc'', access_key_id = Secret ''k'', secret_access_key = Secret ''s'', bucket_name = ''dumps''\<rparr>\<rparr>"

lemma sample_dump: "dump_of (sample_launch n) sample_environ =
    Inr \<lparr>pg_stdout = 13, pg_wait = Inr n, pg_stderr = ''failed'', pg_poll = None\<rparr>"
proof -
  have "parse_dsn ''postgresql+asyncpg://app:pw@db:6432/market'' = Inr (''app'', ''pw'', ''db'', 6432, ''market'')"
    by code_simp
  then show ?thesis
    by (simp add: dump_of_def dsn_of_def sample_environ_def environ_get_def sample_launch_def pg_dump_command_def)
qed

lemma failed_dump_stays_witness:
  "\<exists>b'. backup_pg_dump_job_callable (sample_launch 1) sample_environ next_monday backup_settings (sample_backup (calm_world 0 Map.empty)) =
      (Inl (RuntimeError ''pg_dump exit code 1: failed''), b') \<and>
    map_of (r_objs (bk_r2 b')) (dump_key ''daily/'' next_monday) = Some 13"
proof -
  have one: "show_int 1 = ''1''" by code_simp
  show ?thesis
    using failed_dump_stays [OF _ sample_dump, of backup_settings 1 1 "sample_backup (calm_world 0 Map.empty)" next_monday]
    by (auto simp: backup_settings_def sample_backup_def one)
qed

lemma daily_backup_kept_witness:
  "\<exists>b'. backup_pg_dump_job_callable (sample_launch 0) sample_environ next_monday backup_settings (sample_backup (calm_world 0 Map.empty)) =
      (Inr (), b') \<and> map_of (r_objs (bk_r2 b')) (dump_key ''daily/'' next_monday) = Some 13"
proof -
  have ok: "civil_ok next_monday" "civil_key monday < civil_key next_monday"
    by (simp_all add: next_monday_def monday_def civil_ok_def days_in_month_def civil_key_def)
  have e: "earlier_dumps next_monday (r_objs (bk_r2 (sample_backup (calm_world 0 Map.empty))))"
    using ok(2) monday_ok(1) by (auto simp: earlier_dumps_def sample_backup_def)
  have "r2_backup backup_settings = Some \<lparr>account_id = ''acc'', access_key_id = Secret ''k'', secret_access_key = Secret ''s'', bucket_name = ''dumps''\<rparr>"
    by (simp add: backup_settings_def)
  from daily_backup_kept [OF this sample_dump, of 0 "sample_backup (calm_world 0 Map.empty)" next_monday] ok(1) e
  show ?thesis by (force simp: sample_backup_def is_Exception_def split: if_splits)
qed

end
