(* ===== verification/Timescale.thy ===== *)
theory Timescale
  imports Storage Settings
begin

text \<open>
  src/shortfire/db/timescale.py: the DDL helpers of the migrations, as the statements they hand
  to \<open>op.execute\<close>. The patterns are matched as \<open>re.match\<close> does: \<open>$\<close> also matches before a newline
  that ends the text.
\<close>

section \<open>The whitelists\<close>

definition between_chars :: "nat \<Rightarrow> nat \<Rightarrow> char \<Rightarrow> bool" where
  "between_chars a b c \<longleftrightarrow> (let n = of_char c in a \<le> n \<and> n \<le> b)"

definition letter :: "char \<Rightarrow> bool" where
  "letter c \<longleftrightarrow> between_chars 65 90 c \<or> between_chars 97 122 c"

definition ident_char :: "char \<Rightarrow> bool" where
  "ident_char c \<longleftrightarrow> letter c \<or> is_digit c \<or> c = CHR ''_''"

definition ident :: "string \<Rightarrow> bool" where
  "ident s \<longleftrightarrow> s \<noteq> [] \<and> (letter (hd s) \<or> hd s = CHR ''_'') \<and> list_all ident_char (tl s) \<and> length (tl s) \<le> 62"

definition dollar :: "(string \<Rightarrow> bool) \<Rightarrow> string \<Rightarrow> bool" where
  "dollar P s \<longleftrightarrow> P s \<or> s \<noteq> [] \<and> last s = CHR 0x0A \<and> P (butlast s)"

definition safe_ident :: "string \<Rightarrow> bool" where
  "safe_ident = dollar ident"

definition interval_char :: "char \<Rightarrow> bool" where
  "interval_char c \<longleftrightarrow> letter c \<or> is_digit c \<or> c \<in> {CHR '' '', CHR '':'', CHR '','', CHR ''.''}"

definition safe_interval :: "string \<Rightarrow> bool" where
  "safe_interval = dollar (\<lambda>s. s \<noteq> [] \<and> list_all interval_char s)"

definition drop_end :: "nat \<Rightarrow> string \<Rightarrow> string" where
  "drop_end n s = take (length s - n) s"

definition endswith :: "string \<Rightarrow> string \<Rightarrow> bool" where
  "endswith s e \<longleftrightarrow> startswith (rev s) (rev e)"

definition safe_order_by :: "string \<Rightarrow> bool" where
  "safe_order_by = dollar (\<lambda>s. ident s \<or>
     endswith s '' ASC'' \<and> ident (drop_end 4 s) \<or> endswith s '' DESC'' \<and> ident (drop_end 5 s))"

definition validate_identifier :: "string \<Rightarrow> unit res" where
  "validate_identifier name = guardE (safe_ident name) ValueError"

definition validate_interval :: "string \<Rightarrow> unit res" where
  "validate_interval v = guardE (safe_interval v) ValueError"

definition validate_order_by :: "string \<Rightarrow> unit res" where
  "validate_order_by v = guardE (safe_order_by v) ValueError"

section \<open>The helpers\<close>

definition quoted :: "string \<Rightarrow> string" where
  "quoted s = CHR 0x27 # s @ [CHR 0x27]"

text \<open>A triple-quoted text: each line after a newline, with its indentation.\<close>

definition sql :: "(nat \<times> string) list \<Rightarrow> string" where
  "sql ls = concat (map (\<lambda>(n, l). CHR 0x0A # replicate n CHR '' '' @ l) ls)"

definition upper_bool :: "bool \<Rightarrow> string" where
  "upper_bool b = (if b then ''TRUE'' else ''FALSE'')"

definition hypertable_sql :: "string \<Rightarrow> string \<Rightarrow> string \<Rightarrow> bool \<Rightarrow> string" where
  "hypertable_sql table time_column chunk_interval if_not_exists =
     sql [(8, ''SELECT create_hypertable(''),
          (12, quoted table @ '',''),
          (12, quoted time_column @ '',''),
          (12, ''chunk_time_interval => INTERVAL '' @ quoted chunk_interval @ '',''),
          (12, ''if_not_exists => '' @ upper_bool if_not_exists),
          (8, '');''), (4, [])]"

definition create_hypertable :: "string \<Rightarrow> string \<Rightarrow> string \<Rightarrow> bool \<Rightarrow> string list res" where
  "create_hypertable table time_column chunk_interval if_not_exists =
     bindE (validate_identifier table) (\<lambda>_.
     bindE (validate_identifier time_column) (\<lambda>_.
     bindE (validate_interval chunk_interval) (\<lambda>_.
     Inr [hypertable_sql table time_column chunk_interval if_not_exists])))"

definition compression_sql :: "string \<Rightarrow> string \<Rightarrow> string \<Rightarrow> string" where
  "compression_sql table segment_by order_by =
     sql [(8, ''ALTER TABLE '' @ table @ '' SET (''),
          (12, ''timescaledb.compress,''),
          (12, ''timescaledb.compress_segmentby = '' @ quoted segment_by @ '',''),
          (12, ''timescaledb.compress_orderby = '' @ quoted order_by),
          (8, '');''), (4, [])]"

definition enable_compression :: "string \<Rightarrow> string \<Rightarrow> string \<Rightarrow> string list res" where
  "enable_compression table segment_by order_by =
     bindE (validate_identifier table) (\<lambda>_.
     bindE (validate_identifier segment_by) (\<lambda>_.
     bindE (validate_order_by order_by) (\<lambda>_.
     Inr [compression_sql table segment_by order_by])))"

definition policy_statement :: "string \<Rightarrow> string \<Rightarrow> string \<Rightarrow> bool \<Rightarrow> string" where
  "policy_statement f table age if_not_exists =
     sql [(8, ''SELECT '' @ f @ ''(''),
          (12, quoted table @ '',''),
          (12, ''INTERVAL '' @ quoted age @ '',''),
          (12, ''if_not_exists => '' @ upper_bool if_not_exists),
          (8, '');''), (4, [])]"

definition add_compression_policy :: "string \<Rightarrow> string \<Rightarrow> bool \<Rightarrow> string list res" where
  "add_compression_policy table after_age if_not_exists =
     bindE (validate_identifier table) (\<lambda>_.
     bindE (validate_interval after_age) (\<lambda>_.
     Inr [policy_statement ''add_compression_policy'' table after_age if_not_exists]))"

definition add_retention_policy :: "string \<Rightarrow> string \<Rightarrow> bool \<Rightarrow> string list res" where
  "add_retention_policy table drop_after if_not_exists =
     bindE (validate_identifier table) (\<lambda>_.
     bindE (validate_interval drop_after) (\<lambda>_.
     Inr [policy_statement ''add_retention_policy'' table drop_after if_not_exists]))"

definition aggregate_sql :: "string \<Rightarrow> string \<Rightarrow> string \<Rightarrow> string \<Rightarrow> string \<Rightarrow> string \<Rightarrow> string \<Rightarrow> string list" where
  "aggregate_sql view_name source_table select_columns grouping start_offset end_offset schedule_interval =
     [sql [(8, ''CREATE MATERIALIZED VIEW '' @ view_name),
           (8, ''WITH (timescaledb.continuous) AS''),
           (8, ''SELECT '' @ select_columns),
           (8, ''FROM '' @ source_table),
           (8, ''GROUP BY '' @ grouping),
           (8, ''WITH NO DATA''), (4, [])],
      sql [(8, ''SELECT add_continuous_aggregate_policy(''),
           (12, quoted view_name @ '',''),
           (12, ''start_offset   => INTERVAL '' @ quoted start_offset @ '',''),
           (12, ''end_offset     => INTERVAL '' @ quoted end_offset @ '',''),
           (12, ''schedule_interval => INTERVAL '' @ quoted schedule_interval),
           (8, '')''), (4, [])]]"

definition create_continuous_aggregate ::
  "string \<Rightarrow> string \<Rightarrow> string \<Rightarrow> string \<Rightarrow> string option \<Rightarrow> string \<Rightarrow> string \<Rightarrow> string \<Rightarrow> string list res" where
  "create_continuous_aggregate view_name source_table bucket select_columns group_by start_offset end_offset schedule_interval =
     bindE (validate_identifier view_name) (\<lambda>_.
     bindE (validate_identifier source_table) (\<lambda>_.
     bindE (validate_interval bucket) (\<lambda>_.
     bindE (validate_interval start_offset) (\<lambda>_.
     bindE (validate_interval end_offset) (\<lambda>_.
     bindE (validate_interval schedule_interval) (\<lambda>_.
     Inr (aggregate_sql view_name source_table select_columns
            (case group_by of None \<Rightarrow> ''symbol, time_bucket('' @ quoted bucket @ '', ts)'' | Some g \<Rightarrow> g)
            start_offset end_offset schedule_interval)))))))"

section \<open>No injection\<close>

text \<open>The characters by which an argument could leave its place in a statement.\<close>

definition sql_special :: "char \<Rightarrow> bool" where
  "sql_special c \<longleftrightarrow> c \<in> {CHR 0x27, CHR 0x22, CHR '';'', CHR ''('', CHR '')'', CHR 0x5C, CHR ''-'', CHR ''/'', CHR ''*'', CHR ''$''}"

definition specials :: "string \<Rightarrow> string" where
  "specials s = filter sql_special s"

lemma inert_ident_char: "ident_char c \<Longrightarrow> \<not> sql_special c"
  by (auto simp: ident_char_def letter_def between_chars_def is_digit_def sql_special_def Let_def)

lemma inert_interval_char: "interval_char c \<Longrightarrow> \<not> sql_special c"
  by (auto simp: interval_char_def letter_def between_chars_def is_digit_def sql_special_def Let_def)


lemma letters_inert:
  "list_all ident_char s \<Longrightarrow> specials s = []" "list_all interval_char s \<Longrightarrow> specials s = []"
  by (induction s) (auto simp: specials_def inert_ident_char inert_interval_char)

lemma ident_inert: "ident s \<Longrightarrow> specials s = []"
  by (cases s) (auto simp: ident_def letters_inert(1) [unfolded specials_def] specials_def ident_char_def intro!: inert_ident_char)

lemma dollar_inert:
  assumes "dollar P s" "\<And>t. P t \<Longrightarrow> specials t = []"
  shows "specials s = []"
proof (cases "P s")
  case True
  then show ?thesis by (rule assms(2))
next
  case False
  then have s: "s \<noteq> []" "last s = CHR 0x0A" "specials (butlast s) = []"
    using assms by (auto simp: dollar_def)
  have "specials (butlast s @ [last s]) = []"
    using s(2,3) by (simp add: specials_def sql_special_def)
  then show ?thesis using s(1) by simp
qed

lemma endswith_split:
  assumes "endswith s e" "n = length e"
  shows "s = drop_end n s @ e"
proof -
  obtain t where "rev s = rev e @ t" using assms(1) by (auto simp: endswith_def startswith_append)
  then have "s = rev t @ e" by (metis rev_append rev_rev_ident)
  then show ?thesis by (simp add: drop_end_def assms(2))
qed

lemma suffixed_inert:
  assumes "endswith s e" "n = length e" "ident (drop_end n s)" "specials e = []"
  shows "specials s = []"
proof -
  have "specials (drop_end n s @ e) = []"
    using ident_inert [OF assms(3)] assms(4) by (simp add: specials_def)
  then show ?thesis using endswith_split [OF assms(1,2)] by simp
qed

lemma order_inert: "safe_order_by s \<Longrightarrow> specials s = []"
  unfolding safe_order_by_def
proof (erule dollar_inert)
  fix t
  have "specials '' ASC'' = []" "specials '' DESC'' = []" by (simp_all add: specials_def sql_special_def)
  moreover assume "ident t \<or> endswith t '' ASC'' \<and> ident (drop_end 4 t) \<or> endswith t '' DESC'' \<and> ident (drop_end 5 t)"
  ultimately show "specials t = []"
    using ident_inert [of t] suffixed_inert [of t "'' ASC''" 4] suffixed_inert [of t "'' DESC''" 5] by auto
qed

lemma validated_inert:
  "validate_identifier s = Inr u \<Longrightarrow> specials s = []"
  "validate_interval s = Inr u \<Longrightarrow> specials s = []"
  "validate_order_by s = Inr u \<Longrightarrow> specials s = []"
  using dollar_inert [of ident s] dollar_inert [of "\<lambda>s. s \<noteq> [] \<and> list_all interval_char s" s]
  by (auto simp: validate_identifier_def validate_interval_def validate_order_by_def safe_ident_def safe_interval_def
      ident_inert letters_inert order_inert guardE_def split: if_splits)

text \<open>The skeleton of a statement: its special characters without those of the arguments.\<close>

lemma specials_append: "specials (s @ t) = specials s @ specials t"
  by (simp add: specials_def)

lemma specials_quoted: "specials s = [] \<Longrightarrow> specials (quoted s) = [CHR 0x27, CHR 0x27]"
  by (simp add: quoted_def specials_def sql_special_def)

lemma specials_nil: "specials [] = []"
  by (simp add: specials_def)

lemma specials_sql: "specials (sql ls) = concat (map (\<lambda>(n, l). specials l) ls)"
proof -
  have "filter sql_special (replicate n CHR '' '') = []" for n by (simp add: filter_empty_conv sql_special_def)
  then show ?thesis
    by (induction ls) (auto simp: sql_def specials_def sql_special_def)
qed

lemma specials_upper: "specials (upper_bool b) = []"
  by (simp add: upper_bool_def specials_def sql_special_def)

lemmas skeleton = specials_sql specials_append specials_upper specials_quoted specials_nil list.map prod.case

lemma statement_skeletons:
  "specials t = [] \<Longrightarrow> specials c = [] \<Longrightarrow> specials i = [] \<Longrightarrow>
   specials (hypertable_sql t c i b) = specials (hypertable_sql [] [] [] True)"
  "specials t = [] \<Longrightarrow> specials c = [] \<Longrightarrow> specials i = [] \<Longrightarrow>
   specials (compression_sql t c i) = specials (compression_sql [] [] [])"
  "specials t = [] \<Longrightarrow> specials i = [] \<Longrightarrow>
   specials (policy_statement f t i b) = specials (policy_statement f [] [] True)"
  "specials t = [] \<Longrightarrow> specials c = [] \<Longrightarrow> specials x = [] \<Longrightarrow> specials y = [] \<Longrightarrow> specials z = [] \<Longrightarrow> specials g = specials g' \<Longrightarrow>
   map specials (aggregate_sql t c cols g x y z) = map specials (aggregate_sql [] [] cols g' [] [] [])"
  by (simp_all only: hypertable_sql_def compression_sql_def policy_statement_def aggregate_sql_def skeleton)

lemma default_grouping:
  "specials i = [] \<Longrightarrow> specials (''symbol, time_bucket('' @ quoted i @ '', ts)'') = specials (''symbol, time_bucket('' @ quoted [] @ '', ts)'')"
  by (simp only: skeleton)

text \<open>No argument that the helpers accept can change the structure of the SQL they execute: the sequence of
  quotes, parentheses, semicolons and comment characters of the statements is the same for any two
  accepted calls, except for the columns and the grouping of a continuous aggregate, which are
  not checked.\<close>

lemma ddl_no_injection:
  "(create_hypertable t c i b = Inr ss \<and> create_hypertable t' c' i' b' = Inr ss' \<longrightarrow> map specials ss = map specials ss') \<and>
   (enable_compression t c s = Inr ss \<and> enable_compression t' c' s' = Inr ss' \<longrightarrow> map specials ss = map specials ss') \<and>
   (add_compression_policy t i b = Inr ss \<and> add_compression_policy t' i' b' = Inr ss' \<longrightarrow> map specials ss = map specials ss') \<and>
   (add_retention_policy t i b = Inr ss \<and> add_retention_policy t' i' b' = Inr ss' \<longrightarrow> map specials ss = map specials ss') \<and>
   (create_continuous_aggregate t c i cols None x y z = Inr ss \<and>
    create_continuous_aggregate t' c' i' cols None x' y' z' = Inr ss' \<longrightarrow> map specials ss = map specials ss')"
proof -
  have 1: "map specials ss = [specials (hypertable_sql [] [] [] True)]" if "create_hypertable t c i b = Inr ss" for t c i b ss
    using that statement_skeletons(1) by (auto simp: create_hypertable_def res_simps dest!: validated_inert)
  have 2: "map specials ss = [specials (compression_sql [] [] [])]" if "enable_compression t c s = Inr ss" for t c s ss
    using that statement_skeletons(2) by (auto simp: enable_compression_def res_simps dest!: validated_inert)
  have 3: "map specials ss = [specials (policy_statement ''add_compression_policy'' [] [] True)]"
    if "add_compression_policy t i b = Inr ss" for t i b ss
    using that statement_skeletons(3) by (auto simp: add_compression_policy_def res_simps dest!: validated_inert)
  have 4: "map specials ss = [specials (policy_statement ''add_retention_policy'' [] [] True)]"
    if "add_retention_policy t i b = Inr ss" for t i b ss
    using that statement_skeletons(3) by (auto simp: add_retention_policy_def res_simps dest!: validated_inert)
  have 5: "map specials ss = map specials (aggregate_sql [] [] cols (''symbol, time_bucket('' @ quoted [] @ '', ts)'') [] [] [])"
    if "create_continuous_aggregate t c i cols None x y z = Inr ss" for t c i x y z ss
  proof -
    have v: "specials t = []" "specials c = []" "specials i = []" "specials x = []" "specials y = []" "specials z = []"
      and ss: "ss = aggregate_sql t c cols (''symbol, time_bucket('' @ quoted i @ '', ts)'') x y z"
      using that unfolding create_continuous_aggregate_def res_simps option.case by (auto dest!: validated_inert)
    show ?thesis unfolding ss by (rule statement_skeletons(4) [OF v(1,2,4-6) default_grouping [OF v(3)]])
  qed
  show ?thesis
    by (intro conjI impI; elim conjE) (simp_all only: 1 2 3 4 5)
qed

lemma trailing_newline_accepted: "safe_ident (''symbols'' @ [CHR 0x0A])"
  by code_simp

lemma accepted_example:
  "create_hypertable ''service_event'' ''ts'' ''7 days'' True = Inr [hypertable_sql ''service_event'' ''ts'' ''7 days'' True]"
  "create_hypertable ''symbols'' ''added_at'' ''1 day'' False = Inr [hypertable_sql ''symbols'' ''added_at'' ''1 day'' False]"
proof -
  have "safe_ident ''service_event''" "safe_ident ''ts''" "safe_ident ''symbols''" "safe_ident ''added_at''"
    "safe_interval ''7 days''" "safe_interval ''1 day''"
    by code_simp+
  then show "create_hypertable ''service_event'' ''ts'' ''7 days'' True = Inr [hypertable_sql ''service_event'' ''ts'' ''7 days'' True]"
    "create_hypertable ''symbols'' ''added_at'' ''1 day'' False = Inr [hypertable_sql ''symbols'' ''added_at'' ''1 day'' False]"
    by (simp_all only: create_hypertable_def validate_identifier_def validate_interval_def guardE_def if_True bindE.simps)
qed

lemma ddl_no_injection_witness:
  "specials (hypertable_sql ''service_event'' ''ts'' ''7 days'' True) = specials (hypertable_sql ''symbols'' ''added_at'' ''1 day'' False)"
  using ddl_no_injection [THEN conjunct1, THEN mp, OF conjI, OF accepted_example] by (simp only: list.map list.inject)

lemma injection_refused: "create_hypertable ''t'' ''ts'' ''1 day; DROP TABLE t'' True = Inl ValueError"
  by code_simp

end
