(* ===== verification/Rollup.thy ===== *)
theory Rollup
  imports Timescale Candle_Store Kv_State
begin

text \<open>
  Migration 0014 (src/alembic/versions): the 5m, 15m, 1h and 4h continuous aggregates over the
  stored minute candles, with their refresh windows. A refresh rebuilds the buckets that lie
  inside the window of its policy from the minutes then stored, and leaves the others as they
  are. Buckets are aligned to midnight UTC, which each of the four widths divides.
\<close>

section \<open>The calls of the migration\<close>

definition select_columns_text :: "string \<Rightarrow> string" where
  "select_columns_text bucket =
     ''symbol,'' @ sql
       [(8, ''time_bucket('' @ quoted bucket @ '', ts) AS ts,''),
        (8, ''first(open, ts)   AS open,''),
        (8, ''max(high)         AS high,''),
        (8, ''min(low)          AS low,''),
        (8, ''last(close, ts)   AS close,''),
        (8, ''sum(volume)       AS volume,''),
        (8, ''max(quality_flag) AS quality_flag,''),
        (8, quoted ''mexc_native'' @ ''::TEXT AS source'')]"

text \<open>View, bucket, start offset, end offset and schedule interval of each aggregate.\<close>

definition aggregates :: "(string \<times> string \<times> string \<times> string \<times> string) list" where
  "aggregates =
     [(''raw_mexc_candles_5m'', ''5 minutes'', ''2 hours'', ''5 minutes'', ''5 minutes''),
      (''raw_mexc_candles_15m'', ''15 minutes'', ''4 hours'', ''15 minutes'', ''15 minutes''),
      (''raw_mexc_candles_1h'', ''1 hour'', ''12 hours'', ''1 hour'', ''1 hour''),
      (''raw_mexc_candles_4h'', ''4 hours'', ''2 days'', ''4 hours'', ''4 hours'')]"

text \<open>The microseconds of an interval text such as \<open>15 minutes\<close>.\<close>

definition unit_us :: "string \<rightharpoonup> int" where
  "unit_us = map_of [(''minute'', 60000000), (''minutes'', 60000000), (''hour'', 3600000000), (''hours'', 3600000000),
     (''day'', 86400000000), (''days'', 86400000000)]"

definition interval_us :: "string \<Rightarrow> int option" where
  "interval_us s = map_option (\<lambda>u. digits_val (takeWhile is_digit s) * u) (unit_us (drop 1 (dropWhile is_digit s)))"

record policy =
  po_width :: int
  po_start :: int
  po_end :: int

definition policy_of :: "string \<times> string \<times> string \<times> string \<times> string \<Rightarrow> policy option" where
  "policy_of a = (case a of (view, bucket, start_offset, end_offset, schedule_interval) \<Rightarrow>
     (case (interval_us bucket, interval_us start_offset, interval_us end_offset) of
        (Some w, Some s, Some e) \<Rightarrow> Some \<lparr>po_width = w, po_start = s, po_end = e\<rparr>
      | _ \<Rightarrow> None))"

section \<open>Rows of the table and of the views\<close>

record bar =
  br_symbol :: string
  br_ts :: int
  br_open :: decimal
  br_high :: decimal
  br_low :: decimal
  br_close :: decimal
  br_volume :: decimal
  br_flag :: quality_flag
  br_source :: string

definition all_flags :: "quality_flag list" where
  "all_flags = [Ok, Gap_detected, Partial_candle, Late_arrival, Ws_rest_divergence, Schema_warn, Partial_capture]"

definition flag_of :: "string \<Rightarrow> quality_flag option" where
  "flag_of q = find (\<lambda>f. flag_text f = q) all_flags"

text \<open>A stored row of raw_mexc_candles_1m\<close>

fun text_in :: "cell \<Rightarrow> string option" where
  "text_in (CText s) = Some s"
| "text_in _ = None"

fun ts_in :: "cell \<Rightarrow> int option" where
  "ts_in (CTs t) = Some t"
| "ts_in _ = None"

fun num_in :: "cell \<Rightarrow> decimal option" where
  "num_in (CNum d) = Some d"
| "num_in _ = None"

definition bar_of_row :: "cell list \<Rightarrow> bar option" where
  "bar_of_row row =
     (if length row < 9 then None
      else Option.bind (text_in (row ! 0)) (\<lambda>sy. Option.bind (ts_in (row ! 1)) (\<lambda>t.
        Option.bind (num_in (row ! 2)) (\<lambda>op. Option.bind (num_in (row ! 3)) (\<lambda>hi.
        Option.bind (num_in (row ! 4)) (\<lambda>lo. Option.bind (num_in (row ! 5)) (\<lambda>cl.
        Option.bind (num_in (row ! 6)) (\<lambda>vol. Option.bind (text_in (row ! 7)) (\<lambda>src.
        Option.bind (Option.bind (text_in (row ! 8)) flag_of) (\<lambda>f.
          Some \<lparr>br_symbol = sy, br_ts = t, br_open = op, br_high = hi, br_low = lo, br_close = cl,
            br_volume = vol, br_flag = f, br_source = src\<rparr>))))))))))"

definition minutes_of :: "db \<Rightarrow> bar list" where
  "minutes_of d = List.map_filter bar_of_row (rows_of d ''raw_mexc_candles_1m'')"

section \<open>The aggregate functions\<close>

text \<open>NUMERIC in PostgreSQL: NaN is above every number, and a sum keeps the larger scale.\<close>

fun pg_le :: "decimal \<Rightarrow> decimal \<Rightarrow> bool" where
  "pg_le _ NaN = True"
| "pg_le NaN _ = False"
| "pg_le (Infinity n) (Infinity m) = (n \<or> \<not> m)"
| "pg_le (Infinity n) _ = n"
| "pg_le _ (Infinity m) = (\<not> m)"
| "pg_le a b = (dval a \<le> dval b)"

definition pg_max :: "decimal list \<Rightarrow> decimal" where
  "pg_max ds = fold (\<lambda>d m. if pg_le d m then m else d) (tl ds) (hd ds)"

definition pg_min :: "decimal list \<Rightarrow> decimal" where
  "pg_min ds = fold (\<lambda>d m. if pg_le m d then m else d) (tl ds) (hd ds)"

fun pg_add :: "decimal \<Rightarrow> decimal \<Rightarrow> decimal" where
  "pg_add (Fin c e) (Fin d f) = Fin (c * 10 ^ nat (e - f) + d * 10 ^ nat (f - e)) (min e f)"
| "pg_add NaN _ = NaN"
| "pg_add _ NaN = NaN"
| "pg_add (Infinity n) (Infinity m) = (if n = m then Infinity n else NaN)"
| "pg_add (Infinity n) _ = Infinity n"
| "pg_add _ (Infinity m) = Infinity m"

definition pg_sum :: "decimal list \<Rightarrow> decimal" where
  "pg_sum ds = fold (\<lambda>d s. pg_add s d) (tl ds) (hd ds)"

definition flag_max :: "quality_flag list \<Rightarrow> quality_flag" where
  "flag_max fs = fold max (tl fs) (hd fs)"

section \<open>The views\<close>

definition time_bucket :: "int \<Rightarrow> int \<Rightarrow> int" where
  "time_bucket w t = t - t mod w"

definition bucket_key :: "int \<Rightarrow> bar \<Rightarrow> string \<times> int" where
  "bucket_key w r = (br_symbol r, time_bucket w (br_ts r))"

text \<open>The select list over one group of minutes; \<open>first\<close> and \<open>last\<close> go by the timestamp.\<close>

definition select_columns :: "string \<times> int \<Rightarrow> bar list \<Rightarrow> bar" where
  "select_columns k rs =
     (let by_ts = sort_key br_ts rs in
      \<lparr>br_symbol = fst k, br_ts = snd k,
       br_open = br_open (hd by_ts),
       br_high = pg_max (map br_high rs),
       br_low = pg_min (map br_low rs),
       br_close = br_close (last by_ts),
       br_volume = pg_sum (map br_volume rs),
       br_flag = flag_max (map br_flag rs),
       br_source = ''mexc_native''\<rparr>)"

definition group_of :: "int \<Rightarrow> bar list \<Rightarrow> string \<times> int \<Rightarrow> bar list" where
  "group_of w rows k = filter (\<lambda>r. bucket_key w r = k) rows"

definition aggregate_rows :: "int \<Rightarrow> bar list \<Rightarrow> bar list" where
  "aggregate_rows w rows = map (\<lambda>k. select_columns k (group_of w rows k)) (remdups (map (bucket_key w) rows))"

text \<open>One run of the refresh policy at a time \<open>now\<close>.\<close>

definition in_window :: "policy \<Rightarrow> int \<Rightarrow> int \<Rightarrow> bool" where
  "in_window p now b \<longleftrightarrow> now - po_start p \<le> b \<and> b + po_width p \<le> now - po_end p"

definition refresh :: "policy \<Rightarrow> int \<times> bar list \<Rightarrow> bar list \<Rightarrow> bar list" where
  "refresh p run view = (case run of (now, rows) \<Rightarrow>
     filter (\<lambda>r. \<not> in_window p now (br_ts r)) view @
     filter (\<lambda>r. in_window p now (br_ts r)) (aggregate_rows (po_width p) rows))"

section \<open>The aggregates are candles\<close>

definition sound_bar :: "bar \<Rightarrow> bool" where
  "sound_bar r \<longleftrightarrow> list_all is_finite [br_open r, br_high r, br_low r, br_close r, br_volume r] \<and>
     dval (br_low r) \<le> dval (br_open r) \<and> dval (br_low r) \<le> dval (br_close r) \<and>
     dval (br_open r) \<le> dval (br_high r) \<and> dval (br_close r) \<le> dval (br_high r)"

lemma finite_Fin: "is_finite d \<longleftrightarrow> (\<exists>c e. d = Fin c e)"
  by (cases d) simp_all

lemma pg_le_finite: "is_finite a \<Longrightarrow> is_finite b \<Longrightarrow> pg_le a b \<longleftrightarrow> dval a \<le> dval b"
  by (cases a; cases b) simp_all

lemma fold_least:
  fixes g :: "decimal \<Rightarrow> rat"
  shows "fold (\<lambda>d m. if g m \<le> g d then m else d) xs x \<in> set (x # xs) \<and>
    (\<forall>y\<in>set (x # xs). g (fold (\<lambda>d m. if g m \<le> g d then m else d) xs x) \<le> g y)"
proof (induction xs arbitrary: x)
  case (Cons a xs)
  show ?case
  proof (cases "g x \<le> g a")
    case True
    then show ?thesis using Cons.IH [of x] by auto
  next
    case False
    then show ?thesis using Cons.IH [of a] by auto
  qed
qed simp

lemma fold_finite:
  "is_finite x \<Longrightarrow> list_all is_finite xs \<Longrightarrow> fold (\<lambda>d m. if pg_le m d then m else d) xs x =
     fold (\<lambda>d m. if dval m \<le> dval d then m else d) xs x"
  "is_finite x \<Longrightarrow> list_all is_finite xs \<Longrightarrow> fold (\<lambda>d m. if pg_le d m then m else d) xs x =
     fold (\<lambda>d m. if - dval m \<le> - dval d then m else d) xs x"
  by (induction xs arbitrary: x) (simp_all add: pg_le_finite)

lemma pg_min_least:
  assumes "ds \<noteq> []" "list_all is_finite ds"
  shows "pg_min ds \<in> set ds \<and> (\<forall>d\<in>set ds. dval (pg_min ds) \<le> dval d)"
proof -
  obtain x xs where ds: "ds = x # xs" using assms(1) by (cases ds) auto
  have "pg_min ds = fold (\<lambda>d m. if dval m \<le> dval d then m else d) xs x"
    using assms(2) fold_finite(1) by (simp add: ds pg_min_def)
  then show ?thesis using fold_least [where g = dval and xs = xs and x = x] unfolding ds by metis
qed

lemma pg_max_greatest:
  assumes "ds \<noteq> []" "list_all is_finite ds"
  shows "pg_max ds \<in> set ds \<and> (\<forall>d\<in>set ds. dval d \<le> dval (pg_max ds))"
proof -
  obtain x xs where ds: "ds = x # xs" using assms(1) by (cases ds) auto
  have "pg_max ds = fold (\<lambda>d m. if - dval m \<le> - dval d then m else d) xs x"
    using assms(2) fold_finite(2) by (simp add: ds pg_max_def)
  then show ?thesis
    using fold_least [where g = "\<lambda>d. - dval d" and xs = xs and x = x] unfolding ds by (metis neg_le_iff_le)
qed

lemma pg_add_finite:
  assumes "is_finite a" "is_finite b"
  shows "is_finite (pg_add a b) \<and> dval (pg_add a b) = dval a + dval b"
proof -
  obtain c e d f where ab: "a = Fin c e" "b = Fin d f" using assms by (auto simp: finite_Fin)
  have "pow10 e = pow10 (min e f) * 10 ^ nat (e - f)" "pow10 f = pow10 (min e f) * 10 ^ nat (f - e)"
    using pow10_add_nat [of "min e f" "nat (e - f)"] pow10_add_nat [of "min e f" "nat (f - e)"]
    by (cases "e \<le> f"; simp)+
  then show ?thesis by (simp add: ab algebra_simps)
qed

lemma pg_sum_value:
  assumes "ds \<noteq> []" "list_all is_finite ds"
  shows "is_finite (pg_sum ds) \<and> dval (pg_sum ds) = (\<Sum>d\<leftarrow>ds. dval d)"
proof -
  have "is_finite s \<Longrightarrow> list_all is_finite xs \<Longrightarrow>
      is_finite (fold (\<lambda>d s. pg_add s d) xs s) \<and> dval (fold (\<lambda>d s. pg_add s d) xs s) = dval s + (\<Sum>d\<leftarrow>xs. dval d)" for s xs
    by (induction xs arbitrary: s) (simp_all add: pg_add_finite)
  then show ?thesis using assms by (cases ds) (simp_all add: pg_sum_def)
qed

lemma first_last_by_ts:
  assumes "rs \<noteq> []"
  shows "hd (sort_key f rs) \<in> set rs \<and> (\<forall>n\<in>set rs. f (hd (sort_key f rs)) \<le> f n)"
    and "last (sort_key f rs) \<in> set rs \<and> (\<forall>n\<in>set rs. f n \<le> f (last (sort_key f rs)))"
proof -
  have ne: "sort_key f rs \<noteq> []" using assms by (metis length_0_conv length_sort)
  have h: "hd (sort_key f rs) \<in> set rs" "last (sort_key f rs) \<in> set rs"
    using hd_in_set [OF ne] last_in_set [OF ne] by simp_all
  have "f (hd (sort_key f rs)) \<le> f n \<and> f n \<le> f (last (sort_key f rs))" if "n \<in> set rs" for n
  proof -
    let ?xs = "map f (sort_key f rs)"
    have s: "sorted ?xs" and xs: "?xs \<noteq> []" using ne by simp_all
    have "f n \<in> set ?xs" using that by simp
    then obtain i where i: "i < length ?xs" "?xs ! i = f n" unfolding in_set_conv_nth by blast
    have "?xs ! 0 \<le> ?xs ! i" "?xs ! i \<le> ?xs ! (length ?xs - 1)"
      using sorted_nth_mono [OF s, of 0 i] sorted_nth_mono [OF s, of i "length ?xs - 1"] i(1) by simp_all
    moreover have "?xs ! 0 = f (hd (sort_key f rs))" "?xs ! (length ?xs - 1) = f (last (sort_key f rs))"
      using hd_conv_nth [OF xs] last_conv_nth [OF xs] list.map_sel(1) [OF ne, of f] last_map [OF ne, of f] by (simp_all only:)
    ultimately show ?thesis by (simp only: i(2))
  qed
  then show "hd (sort_key f rs) \<in> set rs \<and> (\<forall>n\<in>set rs. f (hd (sort_key f rs)) \<le> f n)"
    "last (sort_key f rs) \<in> set rs \<and> (\<forall>n\<in>set rs. f n \<le> f (last (sort_key f rs)))" using h by blast+
qed

lemma aggregate_row_group:
  assumes "r \<in> set (aggregate_rows w rows)"
  shows "r = select_columns (br_symbol r, br_ts r) (group_of w rows (br_symbol r, br_ts r))"
    and "group_of w rows (br_symbol r, br_ts r) \<noteq> []"
proof -
  obtain k where k: "k \<in> bucket_key w ` set rows" "r = select_columns k (group_of w rows k)"
    using assms by (auto simp: aggregate_rows_def)
  have key: "(br_symbol r, br_ts r) = k" using k(2) by (simp add: select_columns_def Let_def)
  show "r = select_columns (br_symbol r, br_ts r) (group_of w rows (br_symbol r, br_ts r))"
    unfolding key by (rule k(2))
  show "group_of w rows (br_symbol r, br_ts r) \<noteq> []"
    unfolding key using k(1) by (auto simp: group_of_def filter_empty_conv)
qed

lemma aggregate_row_candle:
  assumes "r \<in> set (aggregate_rows w rows)" "list_all sound_bar rows"
    and "rs = group_of w rows (br_symbol r, br_ts r)"
  shows "sound_bar r \<and> dval (br_volume r) = (\<Sum>m\<leftarrow>rs. dval (br_volume m)) \<and>
    (\<forall>m\<in>set rs. dval (br_low r) \<le> dval (br_low m) \<and> dval (br_high m) \<le> dval (br_high r)) \<and>
    (\<exists>m\<in>set rs. br_open r = br_open m \<and> (\<forall>n\<in>set rs. br_ts m \<le> br_ts n)) \<and>
    (\<exists>m\<in>set rs. br_close r = br_close m \<and> (\<forall>n\<in>set rs. br_ts n \<le> br_ts m))"
proof -
  have r: "r = select_columns (br_symbol r, br_ts r) rs" and ne: "rs \<noteq> []"
    using aggregate_row_group [OF assms(1)] assms(3) by simp_all
  have fields: "br_open r = br_open (hd (sort_key br_ts rs))" "br_close r = br_close (last (sort_key br_ts rs))"
    "br_high r = pg_max (map br_high rs)" "br_low r = pg_min (map br_low rs)" "br_volume r = pg_sum (map br_volume rs)"
    by (subst r, simp add: select_columns_def Let_def)+
  have sound: "sound_bar m" if "m \<in> set rs" for m
    using that assms(2,3) by (auto simp: group_of_def list_all_iff)
  have fin: "list_all is_finite (map br_high rs)" "list_all is_finite (map br_low rs)" "list_all is_finite (map br_volume rs)"
    using sound by (auto simp: list_all_iff sound_bar_def)
  note ends = first_last_by_ts [OF ne, of br_ts]
  note hi = pg_max_greatest [OF _ fin(1)] and lo = pg_min_least [OF _ fin(2)] and vol = pg_sum_value [OF _ fin(3)]
  have bounds: "dval (br_low r) \<le> dval (br_low m)" "dval (br_high m) \<le> dval (br_high r)" if "m \<in> set rs" for m
    using hi lo ne that by (simp_all add: fields)
  have within: "dval (br_low r) \<le> dval (br_open m)" "dval (br_low r) \<le> dval (br_close m)"
    "dval (br_open m) \<le> dval (br_high r)" "dval (br_close m) \<le> dval (br_high r)" if "m \<in> set rs" for m
    using bounds [OF that] sound [OF that] by (auto simp: sound_bar_def)
  have "is_finite (br_high r)" "is_finite (br_low r)"
    using hi lo ne fin by (auto simp: fields list_all_iff)
  then have "sound_bar r"
    using within ends sound vol ne by (auto simp: sound_bar_def fields)
  moreover have "dval (br_volume r) = (\<Sum>m\<leftarrow>rs. dval (br_volume m))"
    using vol ne by (simp add: fields comp_def)
  ultimately show ?thesis using bounds ends fields(1,2) by blast
qed

text \<open>C16: A row of a continuous aggregate over sound minute candles is a sound candle: it opens with its earliest
  minute and closes with its latest, its high and low bound every minute of the bucket, and its volume
  is the sum of theirs.\<close>

theorem aggregate_is_candle:
  assumes "r \<in> set (aggregate_rows w rows)" "list_all sound_bar rows"
    and "rs = group_of w rows (br_symbol r, br_ts r)"
  shows "sound_bar r \<and> dval (br_volume r) = (\<Sum>m\<leftarrow>rs. dval (br_volume m)) \<and>
    (\<forall>m\<in>set rs. dval (br_low r) \<le> dval (br_low m) \<and> dval (br_high m) \<le> dval (br_high r)) \<and>
    (\<exists>m\<in>set rs. br_open r = br_open m \<and> (\<forall>n\<in>set rs. br_ts m \<le> br_ts n)) \<and>
    (\<exists>m\<in>set rs. br_close r = br_close m \<and> (\<forall>n\<in>set rs. br_ts n \<le> br_ts m))"
  by (rule aggregate_row_candle [OF assms])

section \<open>Gaps\<close>

text \<open>The order of the flags is that of their texts.\<close>

lemma flag_order: "Gap_detected \<le> Ok" "\<not> Ok \<le> Gap_detected"
  unfolding less_eq_quality_flag_def flag_text.simps by code_simp+

lemma flag_max_upper:
  assumes "\<And>f. f \<in> set fs \<Longrightarrow> f \<le> worst" "worst \<in> set fs"
  shows "flag_max fs = worst"
proof -
  obtain x xs where fs: "fs = x # xs" using assms(2) by (cases fs) auto
  have "fold max xs x = Max (set (x # xs))" by (rule Max.set_eq_fold [symmetric])
  then show ?thesis using assms by (auto simp: fs flag_max_def intro!: Max_eqI)
qed

text \<open>The bar that a synthetic row of flag_gap becomes.\<close>

definition gap_bar :: "bar \<Rightarrow> bool" where
  "gap_bar m \<longleftrightarrow> br_flag m = Gap_detected \<and> dval (br_low m) = 0 \<and> is_finite (br_low m)"

lemma zero_numeric: "to_numeric 28 10 dec_zero = Some (Fin 0 (- 10))"
  by (simp add: dec_zero_def scale_to_def)

lemma gap_row_is_gap_bar:
  assumes "gap_record sy src ms = Inr r" "stage_row x tbl_raw_mexc_candles_1m candle_columns r = Inr row"
  shows "\<exists>m. bar_of_row row = Some m \<and> gap_bar m \<and> br_symbol m = sy"
proof -
  obtain ts where "r = candle_record (CText sy) ts dec_zero dec_zero dec_zero dec_zero dec_zero src ''gap_detected''"
    using assms(1) by (auto simp: gap_record_def res_simps)
  then have "row = [CText sy, CTs ts, CNum (Fin 0 (- 10)), CNum (Fin 0 (- 10)), CNum (Fin 0 (- 10)), CNum (Fin 0 (- 10)),
      CNum (Fin 0 (- 10)), CText src, CText ''gap_detected'', CTs (tx_now x)]"
    using assms(2)
    by (auto simp: candle_record_def stage_row_def stage_cell_def candle_columns_def tbl_raw_mexc_candles_1m_def col_def zero_numeric res_simps)
  moreover have "flag_of ''gap_detected'' = Some Gap_detected" by code_simp
  ultimately show ?thesis by (simp add: bar_of_row_def gap_bar_def)
qed

lemma bars_hide_gap:
  assumes "m \<in> set rows" "gap_bar m" "n \<in> set rows" "br_flag n = Ok" "bucket_key w n = bucket_key w m"
    and "\<And>b. b \<in> set rows \<Longrightarrow> bucket_key w b = bucket_key w m \<Longrightarrow>
      sound_bar b \<and> 0 \<le> dval (br_low b) \<and> br_flag b \<in> {Ok, Gap_detected}"
  shows "\<exists>r\<in>set (aggregate_rows w rows). br_symbol r = br_symbol m \<and> br_ts r = time_bucket w (br_ts m) \<and>
    br_flag r = Ok \<and> dval (br_low r) = 0"
proof -
  let ?k = "bucket_key w m" and ?rs = "group_of w rows (bucket_key w m)"
  let ?r = "select_columns ?k ?rs"
  have mem: "m \<in> set ?rs" "n \<in> set ?rs" using assms(1,3,5) by (simp_all add: group_of_def)
  have group: "sound_bar b \<and> 0 \<le> dval (br_low b) \<and> br_flag b \<in> {Ok, Gap_detected}" if "b \<in> set ?rs" for b
    using assms(6) that by (auto simp: group_of_def)
  have "?r \<in> set (aggregate_rows w rows)" using assms(1) by (auto simp: aggregate_rows_def)
  moreover have "br_flag ?r = Ok"
  proof -
    have "flag_max (map br_flag ?rs) = Ok"
      using group mem(2) assms(4) flag_order(1) by (intro flag_max_upper) force+
    then show ?thesis by (simp add: select_columns_def Let_def)
  qed
  moreover have "dval (br_low ?r) = 0"
  proof -
    have "map br_low ?rs \<noteq> []" "list_all is_finite (map br_low ?rs)"
      using mem(1) group by (auto simp: list_all_iff sound_bar_def)
    from pg_min_least [OF this] have "dval (pg_min (map br_low ?rs)) = 0"
      using group mem(1) assms(2) by (force simp: gap_bar_def)
    then show ?thesis by (simp add: select_columns_def Let_def)
  qed
  moreover have "br_symbol ?r = br_symbol m" "br_ts ?r = time_bucket w (br_ts m)"
    by (simp_all add: select_columns_def Let_def bucket_key_def)
  ultimately show ?thesis by blast
qed

text \<open>C19: The aggregates hide gaps: in a bucket that has a minute filled by flag_gap and a genuine ok minute
  the row is marked ok, although the zeros of the synthetic minute make its low zero. The worst flag
  is meant to win, but the texts are compared and \<open>gap_detected\<close> comes before \<open>ok\<close>.\<close>

theorem aggregate_hides_gap:
  assumes "gap_record sy src ms = Inr r" "stage_row x tbl_raw_mexc_candles_1m candle_columns r = Inr row"
    and "row \<in> set (rows_of d ''raw_mexc_candles_1m'')" "bar_of_row row = Some m"
    and "n \<in> set (minutes_of d)" "br_flag n = Ok" "bucket_key w n = bucket_key w m"
    and "\<And>b. b \<in> set (minutes_of d) \<Longrightarrow> bucket_key w b = bucket_key w m \<Longrightarrow>
      sound_bar b \<and> 0 \<le> dval (br_low b) \<and> br_flag b \<in> {Ok, Gap_detected}"
  shows "\<exists>b\<in>set (aggregate_rows w (minutes_of d)). br_symbol b = sy \<and> br_ts b = time_bucket w (br_ts m) \<and>
    br_flag b = Ok \<and> dval (br_low b) = 0"
proof -
  have "gap_bar m" "br_symbol m = sy" using gap_row_is_gap_bar [OF assms(1,2)] assms(4) by auto
  moreover have "m \<in> set (minutes_of d)"
    using assms(3,4) by (force simp: minutes_of_def List.map_filter_def)
  ultimately show ?thesis using bars_hide_gap [OF _ _ assms(5-7)] assms(8) by blast
qed

section \<open>Late minutes\<close>

text \<open>The rows of a view for one bucket start.\<close>

definition view_at :: "int \<Rightarrow> bar list \<Rightarrow> bar list" where
  "view_at b view = filter (\<lambda>r. br_ts r = b) view"

lemma refresh_at:
  "view_at b (refresh p (now, rows) view) =
     (if in_window p now b then view_at b (aggregate_rows (po_width p) rows) else view_at b view)"
proof -
  have "filter (\<lambda>x. Q (br_ts x) \<and> br_ts x = b) xs = (if Q b then filter (\<lambda>x. br_ts x = b) xs else [])" for Q xs
    by (induction xs) auto
  note pick = this [of "in_window p now"] this [of "\<lambda>t. \<not> in_window p now t"]
  show ?thesis by (simp add: refresh_def view_at_def pick)
qed


section \<open>Examples\<close>

definition sample_bar :: "int \<Rightarrow> int \<Rightarrow> quality_flag \<Rightarrow> bar" where
  "sample_bar t price f =
     \<lparr>br_symbol = ''BTC'', br_ts = t, br_open = Fin price 0, br_high = Fin price 0, br_low = Fin price 0,
      br_close = Fin price 0, br_volume = Fin 1 0, br_flag = f, br_source = ''mexc_native''\<rparr>"

definition sample_minutes :: "bar list" where
  "sample_minutes = [sample_bar 0 7 Ok, sample_bar 60000000 0 Gap_detected, sample_bar 120000000 9 Ok]"

lemma sample_sound: "list_all sound_bar sample_minutes"
  by (simp add: sample_minutes_def sample_bar_def sound_bar_def)

text \<open>A table with one minute as the stream stores it and one as flag_gap does.\<close>

definition ok_row :: "cell list" where
  "ok_row = [CText ''BTC'', CTs 0, CNum (Fin 7 0), CNum (Fin 7 0), CNum (Fin 7 0), CNum (Fin 7 0), CNum (Fin 1 0),
     CText ''mexc_native'', CText ''ok'', CTs 0]"

definition gap_row :: "cell list" where
  "gap_row = [CText ''BTC'', CTs 60000000, CNum (Fin 0 (- 10)), CNum (Fin 0 (- 10)), CNum (Fin 0 (- 10)), CNum (Fin 0 (- 10)),
     CNum (Fin 0 (- 10)), CText ''mexc_native'', CText ''gap_detected'', CTs 0]"

definition gap_db :: db where
  "gap_db = [''raw_mexc_candles_1m'' \<mapsto> \<lparr>t_schema = tbl_raw_mexc_candles_1m, t_rows = [ok_row, gap_row]\<rparr>]"

definition zero_bar :: bar where
  "zero_bar =
     \<lparr>br_symbol = ''BTC'', br_ts = 60000000, br_open = Fin 0 (- 10), br_high = Fin 0 (- 10), br_low = Fin 0 (- 10),
      br_close = Fin 0 (- 10), br_volume = Fin 0 (- 10), br_flag = Gap_detected, br_source = ''mexc_native''\<rparr>"

lemma gap_db_bars:
  "bar_of_row ok_row = Some (sample_bar 0 7 Ok)" "bar_of_row gap_row = Some zero_bar"
proof -
  have "flag_of ''ok'' = Some Ok" "flag_of ''gap_detected'' = Some Gap_detected" by code_simp+
  then show "bar_of_row ok_row = Some (sample_bar 0 7 Ok)" "bar_of_row gap_row = Some zero_bar"
    by (simp_all add: bar_of_row_def ok_row_def gap_row_def sample_bar_def zero_bar_def)
qed

lemma aggregate_hides_gap_witness:
  "\<exists>b\<in>set (aggregate_rows 300000000 (minutes_of gap_db)). br_flag b = Ok \<and> dval (br_low b) = 0"
proof -
  let ?r = "candle_record (CText ''BTC'') 60000000 dec_zero dec_zero dec_zero dec_zero dec_zero ''mexc_native'' ''gap_detected''"
  have r: "gap_record ''BTC'' ''mexc_native'' 60000 = Inr ?r"
    "stage_row \<lparr>tx_now = 0, tx_uuid = 0\<rparr> tbl_raw_mexc_candles_1m candle_columns ?r = Inr gap_row"
    by (simp_all add: gap_record_def ts_from_ms_exact candle_record_def stage_row_def stage_cell_def candle_columns_def
        tbl_raw_mexc_candles_1m_def col_def zero_numeric gap_row_def)
  have minutes: "minutes_of gap_db = [sample_bar 0 7 Ok, zero_bar]"
    using gap_db_bars by (simp add: minutes_of_def gap_db_def rows_of_def List.map_filter_def)
  have rows: "gap_row \<in> set (rows_of gap_db ''raw_mexc_candles_1m'')" by (simp add: gap_db_def rows_of_def)
  have "\<exists>b\<in>set (aggregate_rows 300000000 (minutes_of gap_db)). br_symbol b = ''BTC'' \<and>
      br_ts b = time_bucket 300000000 (br_ts zero_bar) \<and> br_flag b = Ok \<and> dval (br_low b) = 0"
    by (rule aggregate_hides_gap [OF r rows gap_db_bars(2), where n = "sample_bar 0 7 Ok"])
      (auto simp: minutes sample_bar_def zero_bar_def bucket_key_def time_bucket_def sound_bar_def)
  then show ?thesis by blast
qed

lemma aggregate_is_candle_witness:
  "sound_bar (hd (aggregate_rows 300000000 sample_minutes))"
proof -
  have "hd (aggregate_rows 300000000 sample_minutes) \<in> set (aggregate_rows 300000000 sample_minutes)"
    by (rule hd_in_set) (simp add: aggregate_rows_def sample_minutes_def)
  then show ?thesis using aggregate_is_candle [OF _ sample_sound refl] by blast
qed

text \<open>The gap repair of a minute that is ten hours old, and the policy of the 5m view.\<close>

lemma policy_5m: "map_option po_start (policy_of (hd aggregates)) = Some 7200000000"
  by code_simp


end
