(* ===== verification/Migrations.thy ===== *)
theory Migrations
  imports Rollup Coingecko Coinglass Round_Robin Universe Live_Streams Backfill Dead_Letter
begin

text \<open>
  The Alembic history src/alembic/versions 0001 to 0014: what each revision creates and drops, the
  statements its helper calls execute, and the chain of revisions. The state of the server is its
  tables, its materialized views, the statements executed so far and alembic_version.
\<close>

section \<open>Revisions\<close>

record server =
  sv_db :: db
  sv_views :: "string list"
  sv_sql :: "string list"
  sv_version :: "string option"

record revision =
  rv_id :: string
  rv_down :: "string option"
  rv_sql :: "string list"
  rv_tables :: "table_schema list"
  rv_views :: "(string \<times> string \<times> string \<times> string \<times> string) list"
  rv_drop_sql :: "string list"

definition run_sql :: "string list \<Rightarrow> server \<Rightarrow> server" where
  "run_sql ss s = s\<lparr>sv_sql := sv_sql s @ ss\<rparr>"

text \<open>The helper calls after create_table\<close>

definition table_ddl :: "table_schema \<Rightarrow> string list res" where
  "table_ddl sch =
     (case tb_hyper sch of
        None \<Rightarrow> Inr []
      | Some h \<Rightarrow>
          bindE (create_hypertable (tb_name sch) (h_time_column h) (h_chunk_interval h) True) (\<lambda>create.
          case h_compress h of
            None \<Rightarrow> Inr create
          | Some (segment_by, order_by, after_age) \<Rightarrow>
              bindE (enable_compression (tb_name sch) segment_by order_by) (\<lambda>enable.
              bindE (add_compression_policy (tb_name sch) after_age True) (\<lambda>add_policy.
              Inr (create @ enable @ add_policy)))))"

definition create_table :: "table_schema \<Rightarrow> server \<Rightarrow> server res" where
  "create_table sch s =
     (if tb_name sch \<in> dom (sv_db s) then Inl (Foreign ''DuplicateTableError'')
      else bindE (table_ddl sch) (\<lambda>ss.
        Inr (run_sql ss (s\<lparr>sv_db := (sv_db s)(tb_name sch \<mapsto> \<lparr>t_schema = sch, t_rows = []\<rparr>)\<rparr>))))"

definition drop_table :: "string \<Rightarrow> server \<Rightarrow> server res" where
  "drop_table t s =
     (if t \<notin> dom (sv_db s) then Inl (DbError (UndefinedTable t)) else Inr (s\<lparr>sv_db := (sv_db s)(t := None)\<rparr>))"

definition create_view :: "string \<times> string \<times> string \<times> string \<times> string \<Rightarrow> server \<Rightarrow> server res" where
  "create_view a s = (case a of (view, bucket, start_offset, end_offset, schedule_interval) \<Rightarrow>
     bindE (create_continuous_aggregate view ''raw_mexc_candles_1m'' bucket (select_columns_text bucket) None
              start_offset end_offset schedule_interval) (\<lambda>ss.
     if view \<in> set (sv_views s) then Inl (Foreign ''DuplicateTableError'')
     else Inr (run_sql ss (s\<lparr>sv_views := sv_views s @ [view]\<rparr>))))"

definition revise :: "string option \<Rightarrow> string option \<Rightarrow> (server \<Rightarrow> server res) \<Rightarrow> server \<Rightarrow> server res" where
  "revise old new body s =
     (if sv_version s \<noteq> old then Inl (Foreign ''CommandError'')
      else bindE (body s) (\<lambda>s'. Inr (s'\<lparr>sv_version := new\<rparr>)))"

definition upgrade :: "revision \<Rightarrow> server \<Rightarrow> server res" where
  "upgrade r = revise (rv_down r) (Some (rv_id r)) (\<lambda>s.
     bindE (foldE (\<lambda>s sch. create_table sch s) (run_sql (rv_sql r) s) (rv_tables r)) (\<lambda>s.
     foldE (\<lambda>s a. create_view a s) s (rv_views r)))"

text \<open>Views go by \<open>DROP MATERIALIZED VIEW IF EXISTS\<close>, tables in the reverse order of their creation.\<close>

definition downgrade :: "revision \<Rightarrow> server \<Rightarrow> server res" where
  "downgrade r = revise (Some (rv_id r)) (rv_down r) (\<lambda>s.
     foldE (\<lambda>s sch. drop_table (tb_name sch) s)
       (run_sql (rv_drop_sql r) (s\<lparr>sv_views := filter (\<lambda>v. v \<notin> fst ` set (rv_views r)) (sv_views s)\<rparr>))
       (rev (rv_tables r)))"

section \<open>The history\<close>

definition rev_of :: "string \<Rightarrow> string \<Rightarrow> table_schema list \<Rightarrow> revision" where
  "rev_of i down ts = \<lparr>rv_id = i, rv_down = Some down, rv_sql = [], rv_tables = ts, rv_views = [], rv_drop_sql = []\<rparr>"

definition rev_0001 :: revision where
  "rev_0001 =
     \<lparr>rv_id = ''0001'', rv_down = None, rv_sql = [''CREATE EXTENSION IF NOT EXISTS timescaledb''], rv_tables = [],
      rv_views = [], rv_drop_sql = [''DROP EXTENSION IF EXISTS timescaledb'']\<rparr>"

definition rev_0002 :: revision where
  "rev_0002 = rev_of ''0002'' ''0001'' [tbl_service_event]"

definition rev_0003 :: revision where
  "rev_0003 = rev_of ''0003'' ''0002'' [tbl_raw_mexc_candles_1m, tbl_raw_mexc_candles_1d]"

definition rev_0004 :: revision where
  "rev_0004 = rev_of ''0004'' ''0003'' [tbl_raw_mexc_funding]"

definition rev_0005 :: revision where
  "rev_0005 = rev_of ''0005'' ''0004'' [tbl_raw_mexc_oi]"

definition rev_0006 :: revision where
  "rev_0006 = rev_of ''0006'' ''0005'' [tbl_raw_mexc_trades]"

definition rev_0007 :: revision where
  "rev_0007 = rev_of ''0007'' ''0006'' [tbl_raw_mexc_l2_top20]"

definition rev_0008 :: revision where
  "rev_0008 = rev_of ''0008'' ''0007'' [tbl_raw_mexc_liquidations]"

definition rev_0009 :: revision where
  "rev_0009 = rev_of ''0009'' ''0008'' [tbl_raw_coinglass_funding_agg, tbl_raw_coinglass_oi, tbl_raw_coinglass_liq, tbl_raw_coinglass_lsr]"

definition rev_0010 :: revision where
  "rev_0010 = rev_of ''0010'' ''0009'' [tbl_raw_coingecko_market]"

definition rev_0011 :: revision where
  "rev_0011 = rev_of ''0011'' ''0010'' [tbl_universe_snapshots]"

definition rev_0012 :: revision where
  "rev_0012 = rev_of ''0012'' ''0011'' [tbl_symbols]"

definition rev_0013 :: revision where
  "rev_0013 =
     (rev_of ''0013'' ''0012'' [tbl_dead_letter, tbl_ingest_runs])\<lparr>rv_sql := [''CREATE EXTENSION IF NOT EXISTS pgcrypto'']\<rparr>"

definition rev_0014 :: revision where
  "rev_0014 = (rev_of ''0014'' ''0013'' [])\<lparr>rv_views := aggregates,
     rv_drop_sql := map (\<lambda>v. ''DROP MATERIALIZED VIEW IF EXISTS '' @ v @ '' CASCADE'') (rev (map fst aggregates))\<rparr>"

definition history :: "revision list" where
  "history =
     [rev_0001, rev_0002, rev_0003, rev_0004, rev_0005, rev_0006, rev_0007, rev_0008, rev_0009, rev_0010, rev_0011,
      rev_0012, rev_0013, rev_0014]"

lemmas revisions = rev_of_def rev_0001_def rev_0002_def rev_0003_def rev_0004_def rev_0005_def rev_0006_def rev_0007_def rev_0008_def rev_0009_def rev_0010_def rev_0011_def rev_0012_def rev_0013_def rev_0014_def

definition upgrade_head :: "server \<Rightarrow> server res" where
  "upgrade_head s = foldE (\<lambda>s r. upgrade r s) s history"

definition downgrade_base :: "server \<Rightarrow> server res" where
  "downgrade_base s = foldE (\<lambda>s r. downgrade r s) s (rev history)"

definition tables :: "table_schema list" where
  "tables = concat (map rv_tables history)"


section \<open>The round trip\<close>

definition fresh :: "table_schema list \<Rightarrow> db \<Rightarrow> db" where
  "fresh ts d = fold (\<lambda>sch d. d(tb_name sch \<mapsto> \<lparr>t_schema = sch, t_rows = []\<rparr>)) ts d"

definition accepted :: "'a res \<Rightarrow> bool" where
  "accepted r = (case r of Inl _ \<Rightarrow> False | Inr _ \<Rightarrow> True)"

lemma accepted_Inr: "accepted r \<Longrightarrow> \<exists>v. r = Inr v"
  by (auto simp: accepted_def split: sum.splits)

lemma tables_accepted: "list_all (\<lambda>sch. accepted (table_ddl sch)) tables"
  by code_simp

lemma views_accepted:
  "list_all (\<lambda>(view, bucket, start_offset, end_offset, schedule_interval).
     accepted (create_continuous_aggregate view ''raw_mexc_candles_1m'' bucket (select_columns_text bucket) None
       start_offset end_offset schedule_interval)) aggregates"
  by code_simp

lemma names_distinct: "distinct (map tb_name tables)" "distinct (map fst aggregates)"
  by code_simp+

lemma fresh_simps: "fresh [] d = d" "fresh (t # ts) d = fresh ts (d(tb_name t \<mapsto> \<lparr>t_schema = t, t_rows = []\<rparr>))"
  "fresh (ts @ us) d = fresh us (fresh ts d)"
  by (simp_all add: fresh_def)

lemma dom_fresh: "dom (fresh ts d) = tb_name ` set ts \<union> dom d"
  by (induction ts arbitrary: d) (auto simp: fresh_simps)

lemma create_tables:
  assumes "distinct (map tb_name ts)" "dom (sv_db s) \<inter> tb_name ` set ts = {}" "list_all (\<lambda>sch. accepted (table_ddl sch)) ts"
  shows "\<exists>s'. foldE (\<lambda>s sch. create_table sch s) s ts = Inr s' \<and> sv_db s' = fresh ts (sv_db s) \<and>
    sv_views s' = sv_views s \<and> sv_version s' = sv_version s"
  using assms
proof (induction ts arbitrary: s)
  case (Cons t ts)
  obtain ss where "table_ddl t = Inr ss" using Cons.prems(3) accepted_Inr by fastforce
  then have c: "create_table t s = Inr (run_sql ss (s\<lparr>sv_db := (sv_db s)(tb_name t \<mapsto> \<lparr>t_schema = t, t_rows = []\<rparr>)\<rparr>))"
    using Cons.prems(2) by (auto simp: create_table_def)
  let ?s = "run_sql ss (s\<lparr>sv_db := (sv_db s)(tb_name t \<mapsto> \<lparr>t_schema = t, t_rows = []\<rparr>)\<rparr>)"
  have "dom (sv_db ?s) \<inter> tb_name ` set ts = {}" using Cons.prems(1,2) by (auto simp: run_sql_def split: if_splits)
  then obtain s' where "foldE (\<lambda>s sch. create_table sch s) ?s ts = Inr s'" "sv_db s' = fresh ts (sv_db ?s)"
    "sv_views s' = sv_views ?s" "sv_version s' = sv_version ?s"
    using Cons.IH [of ?s] Cons.prems by auto
  then show ?case by (simp add: c run_sql_def fresh_simps)
qed (simp add: fresh_simps)

lemma drop_tables:
  assumes "distinct (map tb_name ts)" "dom d \<inter> tb_name ` set ts = {}" "sv_db s = fresh ts d"
  shows "\<exists>s'. foldE (\<lambda>s sch. drop_table (tb_name sch) s) s (rev ts) = Inr s' \<and> sv_db s' = d \<and>
    sv_views s' = sv_views s \<and> sv_version s' = sv_version s"
  using assms
proof (induction ts arbitrary: s rule: rev_induct)
  case (snoc t ts)
  have "tb_name t \<notin> dom (fresh ts d)" using snoc.prems by (auto simp: dom_fresh)
  then have none: "fresh ts d (tb_name t) = None" by blast
  have "drop_table (tb_name t) s = Inr (s\<lparr>sv_db := fresh ts d\<rparr>)"
    using snoc.prems(3) fun_upd_triv [of "fresh ts d" "tb_name t"] none
    by (simp add: drop_table_def fresh_simps del: fun_upd_apply)
  then show ?case using snoc.IH [of "s\<lparr>sv_db := fresh ts d\<rparr>"] snoc.prems by simp
qed (simp add: fresh_simps)

lemma create_views:
  assumes "distinct (map fst vs)" "set (sv_views s) \<inter> fst ` set vs = {}"
    and "list_all (\<lambda>(view, bucket, start_offset, end_offset, schedule_interval).
     accepted (create_continuous_aggregate view ''raw_mexc_candles_1m'' bucket (select_columns_text bucket) None
       start_offset end_offset schedule_interval)) vs"
  shows "\<exists>s'. foldE (\<lambda>s a. create_view a s) s vs = Inr s' \<and> sv_views s' = sv_views s @ map fst vs \<and>
    sv_db s' = sv_db s \<and> sv_version s' = sv_version s"
  using assms
proof (induction vs arbitrary: s)
  case (Cons a vs)
  obtain v b x y z where a: "a = (v, b, x, y, z)" by (cases a)
  obtain ss where "create_continuous_aggregate v ''raw_mexc_candles_1m'' b (select_columns_text b) None x y z = Inr ss"
    using Cons.prems(3) accepted_Inr by (fastforce simp: a)
  then have c: "create_view a s = Inr (run_sql ss (s\<lparr>sv_views := sv_views s @ [v]\<rparr>))"
    using Cons.prems(2) by (simp add: create_view_def a)
  let ?s = "run_sql ss (s\<lparr>sv_views := sv_views s @ [v]\<rparr>)"
  have "set (sv_views ?s) \<inter> fst ` set vs = {}" using Cons.prems(1,2) by (auto simp: run_sql_def a)
  then obtain s' where "foldE (\<lambda>s a. create_view a s) ?s vs = Inr s'" "sv_views s' = sv_views ?s @ map fst vs"
    "sv_db s' = sv_db ?s" "sv_version s' = sv_version ?s"
    using Cons.IH [of ?s] Cons.prems by auto
  then show ?case using c by (simp add: run_sql_def a)
qed simp

text \<open>A revision whose helper calls are accepted, and a chain of revisions from a version on.\<close>

definition accepted_calls :: "revision \<Rightarrow> bool" where
  "accepted_calls r \<longleftrightarrow> list_all (\<lambda>sch. accepted (table_ddl sch)) (rv_tables r) \<and>
     list_all (\<lambda>(view, bucket, start_offset, end_offset, schedule_interval).
       accepted (create_continuous_aggregate view ''raw_mexc_candles_1m'' bucket (select_columns_text bucket) None
         start_offset end_offset schedule_interval)) (rv_views r)"

fun chained :: "string option \<Rightarrow> revision list \<Rightarrow> bool" where
  "chained v [] = True"
| "chained v (r # rs) = (rv_down r = v \<and> chained (Some (rv_id r)) rs)"

fun head_version :: "string option \<Rightarrow> revision list \<Rightarrow> string option" where
  "head_version v [] = v"
| "head_version v (r # rs) = head_version (Some (rv_id r)) rs"

definition tables_of :: "revision list \<Rightarrow> table_schema list" where
  "tables_of rs = concat (map rv_tables rs)"

definition views_of :: "revision list \<Rightarrow> string list" where
  "views_of rs = concat (map (\<lambda>r. map fst (rv_views r)) rs)"

text \<open>The server of a state with the revisions applied to it.\<close>

definition applied :: "revision list \<Rightarrow> server \<Rightarrow> server \<Rightarrow> bool" where
  "applied rs s s' \<longleftrightarrow> sv_db s' = fresh (tables_of rs) (sv_db s) \<and> sv_views s' = sv_views s @ views_of rs \<and>
     sv_version s' = head_version (sv_version s) rs"

definition clear_of :: "revision list \<Rightarrow> server \<Rightarrow> bool" where
  "clear_of rs s \<longleftrightarrow> dom (sv_db s) \<inter> tb_name ` set (tables_of rs) = {} \<and> set (sv_views s) \<inter> set (views_of rs) = {} \<and>
     distinct (map tb_name (tables_of rs)) \<and> distinct (views_of rs)"

lemma lists_of [simp]:
  "tables_of [] = []" "tables_of (r # rs) = rv_tables r @ tables_of rs" "tables_of (rs @ us) = tables_of rs @ tables_of us"
  "views_of [] = []" "views_of (r # rs) = map fst (rv_views r) @ views_of rs" "views_of (rs @ us) = views_of rs @ views_of us"
  by (simp_all add: tables_of_def views_of_def)

lemma chained_snoc: "chained v (rs @ [r]) \<longleftrightarrow> chained v rs \<and> rv_down r = head_version v rs"
  by (induction rs arbitrary: v) auto

lemma head_version_snoc: "head_version v (rs @ [r]) = Some (rv_id r)"
  by (induction rs arbitrary: v) auto

lemma upgrade_applied:
  assumes "sv_version s = rv_down r" "accepted_calls r" "clear_of [r] s"
  shows "\<exists>s'. upgrade r s = Inr s' \<and> applied [r] s s'"
proof -
  obtain s1 where s1: "foldE (\<lambda>s sch. create_table sch s) (run_sql (rv_sql r) s) (rv_tables r) = Inr s1"
    "sv_db s1 = fresh (rv_tables r) (sv_db s)" "sv_views s1 = sv_views s" "sv_version s1 = sv_version s"
    using create_tables [of "rv_tables r" "run_sql (rv_sql r) s"] assms(2,3)
    by (auto simp: clear_of_def accepted_calls_def run_sql_def)
  obtain s2 where s2: "foldE (\<lambda>s a. create_view a s) s1 (rv_views r) = Inr s2" "sv_views s2 = sv_views s @ map fst (rv_views r)"
    "sv_db s2 = sv_db s1" "sv_version s2 = sv_version s1"
    using create_views [of "rv_views r" s1] assms(2,3) s1(3) by (auto simp: clear_of_def accepted_calls_def)
  show ?thesis
    using assms(1) s1 s2 by (simp add: upgrade_def revise_def applied_def)
qed

lemma upgrades_applied:
  assumes "chained (sv_version s) rs" "list_all accepted_calls rs" "clear_of rs s"
  shows "\<exists>s'. foldE (\<lambda>s r. upgrade r s) s rs = Inr s' \<and> applied rs s s'"
  using assms
proof (induction rs arbitrary: s)
  case Nil
  then show ?case by (simp add: applied_def fresh_simps)
next
  case (Cons r rs)
  have "clear_of [r] s" using Cons.prems(3) by (auto simp: clear_of_def)
  then obtain s1 where s1: "upgrade r s = Inr s1" "applied [r] s s1"
    using upgrade_applied [of s r] Cons.prems(1,2) by auto
  have "clear_of rs s1"
    using Cons.prems(3) s1(2) by (auto simp: clear_of_def applied_def dom_fresh)
  then obtain s2 where "foldE (\<lambda>s r. upgrade r s) s1 rs = Inr s2" "applied rs s1 s2"
    using Cons.IH [of s1] Cons.prems(1,2) s1(2) by (auto simp: applied_def)
  then show ?case using s1 by (auto simp: applied_def fresh_simps)
qed

lemma downgrades_applied:
  assumes "applied rs s s'" "chained (sv_version s) rs" "clear_of rs s"
  shows "\<exists>t. foldE (\<lambda>s r. downgrade r s) s' (rev rs) = Inr t \<and> applied [] s t"
  using assms
proof (induction rs arbitrary: s' rule: rev_induct)
  case Nil
  then show ?case by simp
next
  case (snoc r rs)
  note app = snoc.prems(1) [unfolded applied_def, simplified]
  let ?s = "run_sql (rv_drop_sql r) (s'\<lparr>sv_views := filter (\<lambda>v. v \<notin> fst ` set (rv_views r)) (sv_views s')\<rparr>)"
  have dis: "dom (fresh (tables_of rs) (sv_db s)) \<inter> tb_name ` set (rv_tables r) = {}"
    "distinct (map tb_name (rv_tables r))" "set (sv_views s @ views_of rs) \<inter> fst ` set (rv_views r) = {}" "clear_of rs s"
    using snoc.prems(3) by (simp_all add: clear_of_def dom_fresh image_Un Int_Un_distrib Int_Un_distrib2)
  have outside: "set xs \<inter> B = {} \<Longrightarrow> filter (\<lambda>v. v \<notin> B) xs = xs" for xs B
    by (auto intro!: filter_True)
  have views: "sv_views ?s = sv_views s @ views_of rs"
    using app outside [of "sv_views s @ views_of rs" "fst ` set (rv_views r)"] dis(3) by (simp add: run_sql_def)
  obtain t1 where t1: "foldE (\<lambda>s sch. drop_table (tb_name sch) s) ?s (rev (rv_tables r)) = Inr t1"
    "sv_db t1 = fresh (tables_of rs) (sv_db s)" "sv_views t1 = sv_views ?s" "sv_version t1 = sv_version ?s"
    using drop_tables [OF dis(2,1), of ?s] app by (auto simp: run_sql_def fresh_simps)
  have "sv_version s' = Some (rv_id r)" using snoc.prems(1) by (simp add: applied_def head_version_snoc)
  then have down: "downgrade r s' = Inr (t1\<lparr>sv_version := rv_down r\<rparr>)"
    using t1(1) by (simp add: downgrade_def revise_def)
  have "applied rs s (t1\<lparr>sv_version := rv_down r\<rparr>)"
    using t1(2,3) views snoc.prems(2) by (simp add: applied_def chained_snoc)
  then show ?case
    using snoc.IH [of "t1\<lparr>sv_version := rv_down r\<rparr>"] snoc.prems(2) dis(4) by (simp add: down chained_snoc)
qed

lemma history_facts: "chained None history" "list_all accepted_calls history" "head_version None history = Some ''0014''"
proof -
  show "chained None history" "head_version None history = Some ''0014''" by code_simp+
  have "accepted_calls r" if "r \<in> set history" for r
  proof -
    have "set (rv_tables r) \<subseteq> set tables" using that by (auto simp: tables_def)
    moreover have "rv_views r = [] \<or> rv_views r = aggregates"
      using that by (auto simp: history_def revisions)
    ultimately show ?thesis
      using tables_accepted views_accepted by (auto simp: accepted_calls_def list_all_iff)
  qed
  then show "list_all accepted_calls history" by (simp add: list_all_iff)
qed

lemma history_lists: "tables_of history = tables" "views_of history = map fst aggregates"
proof -
  show "tables_of history = tables" by (simp add: tables_of_def tables_def)
  show "views_of history = map fst aggregates"
    by (simp add: history_def revisions)
qed



section \<open>The writers against the migrated schema\<close>

text \<open>Table, columns and conflict columns of every call of copy_into_hypertable\<close>

definition writers :: "(string \<times> string list \<times> string list) list" where
  "writers =
     [(''raw_mexc_candles_1m'', candle_columns, candle_conflict), (''raw_mexc_candles_1d'', candle_columns, candle_conflict),
      (''raw_mexc_funding'', funding_columns, funding_conflict), (''raw_mexc_oi'', mexc_oi_columns, mexc_oi_conflict),
      (''raw_mexc_trades'', trade_columns, trade_conflict), (''raw_mexc_l2_top20'', l2_columns, l2_conflict),
      (''raw_mexc_liquidations'', liquidation_columns, liquidation_conflict),
      (''raw_coinglass_funding_agg'', funding_agg_columns, cg_conflict), (''raw_coinglass_oi'', cg_oi_columns, cg_conflict),
      (''raw_coinglass_liq'', cg_liq_columns, cg_liq_conflict), (''raw_coinglass_lsr'', cg_lsr_columns, cg_conflict),
      (''raw_coingecko_market'', market_columns, market_conflict), (''universe_snapshots'', snapshot_columns, snapshot_conflict)]"

definition schema_named :: "string \<Rightarrow> table_schema option" where
  "schema_named t = find (\<lambda>sch. tb_name sch = t) tables"

definition covers :: "table_schema \<Rightarrow> string list \<Rightarrow> bool" where
  "covers sch cols \<longleftrightarrow> list_all (\<lambda>k. required sch k \<longrightarrow> col_default k \<noteq> NoDefault \<or> col_name k \<in> set cols) (tb_columns sch)"

definition typed_writer :: "string \<times> string list \<times> string list \<Rightarrow> bool" where
  "typed_writer w = (case w of (t, cols, conflict) \<Rightarrow>
     (case schema_named t of
        None \<Rightarrow> False
      | Some sch \<Rightarrow> undefined_column sch cols = None \<and> has_arbiter sch conflict \<and> covers sch cols))"

lemma writers_typed: "list_all typed_writer writers"
  by code_simp

lemma coerce_error:
  "coerce c ty v = Inl f \<Longrightarrow> (\<exists>c. f = NumericOutOfRange c) \<or> (\<exists>c. f = DatatypeMismatch c)"
  by (cases "(c, ty, v)" rule: coerce.cases) (auto split: option.splits if_splits)

lemma stage_cell_error:
  assumes "stage_cell x sch cols r k = Inl e"
  shows "(\<exists>c. e = NumericOutOfRange c) \<or> (\<exists>c. e = DatatypeMismatch c) \<or> (\<exists>c. e = NotNullViolation c)"
  using assms unfolding stage_cell_def bindE_eq_Inl by (auto split: if_splits dest!: coerce_error)

text \<open>A null in a required column was sent by the writer, whose other required columns have defaults.\<close>

lemma null_was_sent:
  assumes "stage_cell x sch cols r k = Inl (NotNullViolation c)" "covers sch cols" "k \<in> set (tb_columns sch)"
  shows "c \<in> set cols"
proof -
  let ?v = "case map_of (zip cols r) (col_name k) of Some v \<Rightarrow> v | None \<Rightarrow> default_cell x (col_default k)"
  have k: "coerce (col_name k) (col_type k) ?v = Inr CNull" "required sch k" "c = col_name k"
    using assms(1) coerce_error by (fastforce simp: stage_cell_def res_simps split: if_splits)+
  then have "?v = CNull" using coerce_null_iff by blast
  then have "col_name k \<in> set cols" if "col_default k \<noteq> NoDefault"
    using that by (cases "col_default k") (auto split: option.splits dest!: map_of_SomeD set_zip_leftD)
  then show ?thesis using assms(2,3) k(2,3) by (auto simp: covers_def list_all_iff)
qed



end
