(* ===== verification/Orm.thy ===== *)
theory Orm
  imports Schema
begin

text \<open>
  The SQLAlchemy models of src/shortfire/db/models (symbols.py, dead_letter.py, ingest_runs.py) and the
  naming convention of db/base.py. A model declares the columns of its table once more, with the default
  Python fills in when a row is constructed (\<open>default=\<close>) or the promise that the server has one
  (\<open>server_default=\<close>). The lemmas relate the declarations to the tables of the migrations.
\<close>

section \<open>Declarations\<close>

text \<open>What \<open>mapped_column\<close> says of a missing value: nothing, a Python value, or a default of the server.\<close>

datatype orm_default = NoOrmDefault | PyDefault cell | ServerDefault coldefault

record orm_column =
  oc_name :: string
  oc_type :: coltype
  oc_nullable :: bool
  oc_primary :: bool
  oc_default :: orm_default

record orm_model =
  om_tablename :: string
  om_args :: "(string \<times> string \<times> cell list) list"
  om_columns :: "orm_column list"

text \<open>The \<open>mapped_column\<close> calls of the models: one of the key, one of a nullable or a required column.\<close>

definition mapped_key :: "string \<Rightarrow> coltype \<Rightarrow> orm_column" where
  "mapped_key n t = \<lparr>oc_name = n, oc_type = t, oc_nullable = False, oc_primary = True, oc_default = NoOrmDefault\<rparr>"

definition mapped_column :: "string \<Rightarrow> coltype \<Rightarrow> bool \<Rightarrow> orm_default \<Rightarrow> orm_column" where
  "mapped_column n t nullable d =
     \<lparr>oc_name = n, oc_type = t, oc_nullable = nullable, oc_primary = False, oc_default = d\<rparr>"

definition Symbol :: orm_model where
  "Symbol =
    \<lparr>om_tablename = ''symbols'',
     om_args = [(''ck_symbols_tier'', ''tier'', [CInt 1, CInt 2])],
     om_columns =
      [mapped_key ''symbol'' TText,
       mapped_column ''exchange'' TText False (PyDefault (CText ''mexc'')),
       mapped_column ''market_type'' TText False (PyDefault (CText ''swap'')),
       mapped_column ''mexc_native_symbol'' TText False NoOrmDefault,
       mapped_column ''coinglass_symbol'' TText True NoOrmDefault,
       mapped_column ''coingecko_id'' TText True NoOrmDefault,
       mapped_column ''tier'' TInteger False (PyDefault (CInt 2)),
       mapped_column ''first_seen_at'' TTimestamptz False NoOrmDefault,
       mapped_column ''delisted_at'' TTimestamptz True NoOrmDefault,
       mapped_column ''listed_at'' TTimestamptz True NoOrmDefault]\<rparr>"

definition DeadLetter :: orm_model where
  "DeadLetter =
    \<lparr>om_tablename = ''dead_letter'',
     om_args =
      [(''ck_dead_letter_source'', ''source'',
        [CText ''mexc_native'', CText ''coinglass_aggregate'', CText ''coinglass_mexc_only'', CText ''coingecko'']),
       (''ck_dead_letter_quality'', ''quality_flag'',
        [CText ''ok'', CText ''gap_detected'', CText ''partial_candle'', CText ''late_arrival'',
         CText ''ws_rest_divergence'', CText ''schema_warn'', CText ''partial_capture''])],
     om_columns =
      [mapped_key ''id'' TUuid,
       mapped_key ''ts'' TTimestamptz,
       mapped_column ''source'' TText False NoOrmDefault,
       mapped_column ''endpoint'' TText False NoOrmDefault,
       mapped_column ''symbol'' TText True NoOrmDefault,
       mapped_column ''raw_payload'' TText False NoOrmDefault,
       mapped_column ''error_type'' TText False NoOrmDefault,
       mapped_column ''error_msg'' TText False NoOrmDefault,
       mapped_column ''retries_attempted'' TInteger False (PyDefault (CInt 0)),
       mapped_column ''quality_flag'' TText False (PyDefault (CText ''schema_warn''))]\<rparr>"

definition IngestRun :: orm_model where
  "IngestRun =
    \<lparr>om_tablename = ''ingest_runs'',
     om_args =
      [(''ck_ingest_runs_source'', ''source'',
        [CText ''mexc_native'', CText ''coinglass_aggregate'', CText ''coinglass_mexc_only'', CText ''coingecko'']),
       (''ck_ingest_runs_quality'', ''quality_flag'',
        [CText ''ok'', CText ''gap_detected'', CText ''partial_candle'', CText ''late_arrival'',
         CText ''ws_rest_divergence'', CText ''schema_warn'', CText ''partial_capture'']),
       (''ck_ingest_runs_status'', ''status'', [CText ''running'', CText ''succeeded'', CText ''failed''])],
     om_columns =
      [mapped_key ''id'' TUuid,
       mapped_key ''ts'' TTimestamptz,
       mapped_column ''source'' TText False NoOrmDefault,
       mapped_column ''dataset'' TText False NoOrmDefault,
       mapped_column ''job_id'' TText False NoOrmDefault,
       mapped_column ''started_at'' TTimestamptz False NoOrmDefault,
       mapped_column ''finished_at'' TTimestamptz True NoOrmDefault,
       mapped_column ''status'' TText False NoOrmDefault,
       mapped_column ''rows_written'' TInteger False (PyDefault (CInt 0)),
       mapped_column ''error_msg'' TText True NoOrmDefault,
       mapped_column ''kv_state'' TJsonb True NoOrmDefault,
       mapped_column ''quality_flag'' TText False (PyDefault (CText ''ok'')),
       mapped_column ''ingested_at'' TTimestamptz False (ServerDefault DefNow)]\<rparr>"

lemmas model_defs = Symbol_def DeadLetter_def IngestRun_def mapped_key_def mapped_column_def
  SOURCE_ENUM_def QUALITY_FLAG_ENUM_def

section \<open>Models and tables\<close>

text \<open>The structure a model shares with a table: its name, columns, primary key and CHECK constraints.\<close>

definition model_shape ::
  "orm_model \<Rightarrow> string \<times> (string \<times> coltype \<times> bool) list \<times> string list \<times> (string \<times> string \<times> cell list) list" where
  "model_shape m = (om_tablename m, map (\<lambda>c. (oc_name c, oc_type c, oc_nullable c)) (om_columns m),
     map oc_name (filter oc_primary (om_columns m)), om_args m)"

definition table_shape ::
  "table_schema \<Rightarrow> string \<times> (string \<times> coltype \<times> bool) list \<times> string list \<times> (string \<times> string \<times> cell list) list" where
  "table_shape s = (tb_name s, map (\<lambda>k. (col_name k, col_type k, col_nullable k)) (tb_columns s), tb_pk s, tb_checks s)"

text \<open>A default of the model says the same as the default of the column it stands for.\<close>

fun default_agrees :: "orm_default \<Rightarrow> coldefault \<Rightarrow> bool" where
  "default_agrees NoOrmDefault _ = True"
| "default_agrees (PyDefault v) d = (d = (case v of CText s \<Rightarrow> DefText s | CInt i \<Rightarrow> DefInt i | _ \<Rightarrow> NoDefault))"
| "default_agrees (ServerDefault e) d = (d = e)"

text \<open>The columns a caller must give a value: the model knows no default, and NULL is refused.\<close>

definition model_needs :: "orm_model \<Rightarrow> string list" where
  "model_needs m = map oc_name (filter (\<lambda>c. \<not> oc_nullable c \<and> oc_default c = NoOrmDefault) (om_columns m))"

definition table_needs :: "table_schema \<Rightarrow> string list" where
  "table_needs s = map col_name (filter (\<lambda>k. \<not> col_nullable k \<and> col_default k = NoDefault) (tb_columns s))"

definition models :: "(orm_model \<times> table_schema) list" where
  "models = [(Symbol, tbl_symbols), (DeadLetter, tbl_dead_letter), (IngestRun, tbl_ingest_runs)]"

text \<open>Every ORM model declares the table its migration creates: the same name, the same columns in
  the same order with the same types and nullability, the same primary key and the same CHECK
  constraints; and every default it declares, in Python or as the server's, is the default
  of the column in the migrated table.\<close>

lemma models_match_migrations:
  "map (model_shape \<circ> fst) models = map (table_shape \<circ> snd) models \<and>
   list_all (\<lambda>(m, s). list_all2 (\<lambda>c k. default_agrees (oc_default c) (col_default k)) (om_columns m) (tb_columns s)) models"
  by (simp add: models_def model_shape_def table_shape_def model_defs tbl_symbols_def tbl_dead_letter_def
      tbl_ingest_runs_def col_def)

text \<open>
  The models leave out a default in one direction only: what the table needs the model needs too,
  and besides it \<open>first_seen_at\<close> of a symbol and the key of the two hypertables, which the
  server would fill in.
\<close>

lemma models_need_more:
  "filter (\<lambda>n. n \<notin> set (table_needs tbl_symbols)) (model_needs Symbol) = [''first_seen_at'']"
  "filter (\<lambda>n. n \<notin> set (table_needs tbl_dead_letter)) (model_needs DeadLetter) = [''id'', ''ts'']"
  "filter (\<lambda>n. n \<notin> set (table_needs tbl_ingest_runs)) (model_needs IngestRun) = [''id'', ''ts'']"
  by (simp_all add: model_needs_def table_needs_def model_defs tbl_symbols_def tbl_dead_letter_def
      tbl_ingest_runs_def col_def)

lemma table_needs_needed: "list_all (\<lambda>(m, s). list_all (\<lambda>n. n \<in> set (model_needs m)) (table_needs s)) models"
  by code_simp

section \<open>The naming convention\<close>

text \<open>A name pattern: literal text and the placeholders SQLAlchemy fills in.\<close>

datatype name_part = Lit string | TableName | ConstraintName | Column0Name | Column0Label | ReferredTable

definition NAMING_CONVENTION :: "(string \<times> name_part list) list" where
  "NAMING_CONVENTION =
    [(''ix'', [Lit ''ix_'', Column0Label]),
     (''uq'', [Lit ''uq_'', TableName, Lit ''_'', Column0Name]),
     (''ck'', [Lit ''ck_'', TableName, Lit ''_'', ConstraintName]),
     (''fk'', [Lit ''fk_'', TableName, Lit ''_'', Column0Name, Lit ''_'', ReferredTable]),
     (''pk'', [Lit ''pk_'', TableName])]"

record name_env =
  ne_table :: string
  ne_constraint :: string
  ne_column0 :: string
  ne_referred :: string

fun part_text :: "name_env \<Rightarrow> name_part \<Rightarrow> string" where
  "part_text e (Lit s) = s"
| "part_text e TableName = ne_table e"
| "part_text e ConstraintName = ne_constraint e"
| "part_text e Column0Name = ne_column0 e"
| "part_text e Column0Label = ne_table e @ ''_'' @ ne_column0 e"
| "part_text e ReferredTable = ne_referred e"

text \<open>
  The name a constraint is rendered with. A pattern that mentions the constraint's own name is applied
  to a declared name too; any other only names what has no name.
\<close>

definition rendered_name :: "string \<Rightarrow> name_env \<Rightarrow> string option \<Rightarrow> string option" where
  "rendered_name kind e declared =
     (case (map_of NAMING_CONVENTION kind, declared) of
        (None, _) \<Rightarrow> declared
      | (Some parts, None) \<Rightarrow> (if ConstraintName \<in> set parts then None else Some (concat (map (part_text e) parts)))
      | (Some parts, Some n) \<Rightarrow>
          if ConstraintName \<in> set parts then Some (concat (map (part_text (e\<lparr>ne_constraint := n\<rparr>)) parts)) else Some n)"

definition check_name :: "string \<Rightarrow> string \<Rightarrow> string option" where
  "check_name table n = rendered_name ''ck'' \<lparr>ne_table = table, ne_constraint = '''', ne_column0 = '''', ne_referred = ''''\<rparr> (Some n)"

lemma check_name_doubled: "check_name table (''ck_'' @ table @ ''_'' @ n) = Some (''ck_'' @ table @ ''_ck_'' @ table @ ''_'' @ n)"
  by (simp add: check_name_def rendered_name_def NAMING_CONVENTION_def)

lemma check_names:
  "map (\<lambda>(n, _). check_name (om_tablename Symbol) n) (om_args Symbol) = [Some ''ck_symbols_ck_symbols_tier'']"
  by (simp add: check_name_def rendered_name_def NAMING_CONVENTION_def Symbol_def)

lemma declared_key_kept: "rendered_name ''pk'' e (Some n) = Some n"
  by (simp add: rendered_name_def NAMING_CONVENTION_def)

end
