(* ===== verification/Budgets.thy ===== *)
theory Budgets
  imports Mexc_Client
begin

text \<open>
  The time budgets of ingest/rate_limit.py and ingest/retry.py. The limiter and the retry library are not
  part of the repository; the definitions state what their documentation promises of the arguments
  the code passes, and the lemmas what these budgets come to: how many requests a limiter can
  let through in a period, and how long a call can be retried.
\<close>

section \<open>Token buckets\<close>

text \<open>
  \<open>AsyncLimiter(max_rate, time_period)\<close> is documented as a leaky bucket: a request adds one unit to the
  level, the level sinks by \<open>max_rate\<close> units per period, and a request is admitted when its unit still
  fits under \<open>max_rate\<close>. Times are in milliseconds, and a unit is \<open>1000 * time_period\<close>, so
  that \<open>max_rate\<close> of its parts leak every millisecond. \<open>admitted\<close> says that a bucket at a level since a
  time lets requests through at the given times.
\<close>

definition unit_of :: "nat \<times> nat \<Rightarrow> int" where
  "unit_of l = 1000 * int (snd l)"

definition leaked :: "nat \<times> nat \<Rightarrow> int \<Rightarrow> int \<Rightarrow> int" where
  "leaked l level elapsed = max 0 (level - int (fst l) * elapsed)"

fun admitted :: "nat \<times> nat \<Rightarrow> int \<Rightarrow> int \<Rightarrow> int list \<Rightarrow> bool" where
  "admitted l level since [] \<longleftrightarrow> True"
| "admitted l level since (t # ts) \<longleftrightarrow> since \<le> t \<and>
     leaked l level (t - since) + unit_of l \<le> int (fst l) * unit_of l \<and>
     admitted l (leaked l level (t - since) + unit_of l) t ts"

lemma admitted_bound:
  "admitted l level since ts \<Longrightarrow> level \<le> int (fst l) * unit_of l \<Longrightarrow> since \<le> b \<Longrightarrow> list_all (\<lambda>t. t \<le> b) ts \<Longrightarrow>
   level + int (length ts) * unit_of l \<le> int (fst l) * unit_of l + int (fst l) * (b - since)"
proof (induction ts arbitrary: level since)
  case (Cons t ts)
  let ?level = "leaked l level (t - since)"
  have "level \<le> ?level + int (fst l) * (t - since)" by (simp add: leaked_def)
  moreover have "?level + unit_of l + int (length ts) * unit_of l \<le> int (fst l) * unit_of l + int (fst l) * (b - t)"
    using Cons by simp
  ultimately show ?case by (simp add: algebra_simps)
qed (simp add: add_increasing2)

text \<open>At most twice the rate is admitted within one period, whatever the level at its start.\<close>

lemma admitted_in_period:
  assumes "admitted (r, p) level since ts" "0 \<le> level" "level \<le> int r * unit_of (r, p)" "0 < p"
    and "list_all (\<lambda>t. t \<le> since + 1000 * int p) ts"
  shows "length ts \<le> 2 * r"
proof -
  have "int (length ts) * unit_of (r, p) \<le> int (2 * r) * unit_of (r, p)"
    using admitted_bound [OF assms(1) _ _ assms(5)] assms(2,3) by (simp add: unit_of_def algebra_simps)
  then show ?thesis using assms(4) by (simp add: unit_of_def)
qed

text \<open>
  The bound is reached but for one request: after a burst of 28 the bucket admits one more every
  60/28 seconds, so that the Coinglass and CoinGecko limiters let 55 requests through in a minute.
\<close>

definition burst :: "int list" where
  "burst = replicate 28 0 @ map (\<lambda>k. (int k * 60000 + 27) div 28) [1..<28]"

lemma burst_admitted: "admitted COINGLASS_LIMITER 0 0 burst" "length burst = 55" "list_all (\<lambda>t. t < 60000) burst"
  by code_simp+

section \<open>Waiting between attempts\<close>

text \<open>
  \<open>wait_exponential_jitter(initial, max)\<close>: before the retry after the n-th failure, counted from
  0, the wait is the initial one doubled n times, plus a jitter, at most max. The triples are
  (initial, max, attempts) of the three decorators, in milliseconds.
\<close>

definition mexc_waits :: "nat \<times> nat \<times> nat" where "mexc_waits = (2000, 120000, 6)"
definition coinglass_waits :: "nat \<times> nat \<times> nat" where "coinglass_waits = (1000, 60000, 5)"
definition coingecko_waits :: "nat \<times> nat \<times> nat" where "coingecko_waits = (1000, 60000, 4)"

fun retry_wait :: "nat \<times> nat \<times> nat \<Rightarrow> (nat \<Rightarrow> nat) \<Rightarrow> nat \<Rightarrow> nat" where
  "retry_wait (initial, cap, _) jitter n = min cap (initial * 2 ^ n + jitter n)"

definition total_wait :: "nat \<times> nat \<times> nat \<Rightarrow> (nat \<Rightarrow> nat) \<Rightarrow> nat" where
  "total_wait p jitter = sum_list (map (retry_wait p jitter) [0..<snd (snd p) - 1])"

text \<open>
  With the library's jitter of at most a second the caps are never reached, and a call that keeps failing is
  given up after at most 67, 19 and 10 seconds of waiting.
\<close>

lemma upt_small: "[0..<3] = [0, 1, 2]" "[0..<4] = [0, 1, 2, 3]" "[0..<5] = [0, 1, 2, 3, 4::nat]"
  by (simp_all add: upt_rec)

lemma retry_waits:
  assumes "\<And>n. jitter n \<le> 1000"
  shows "total_wait mexc_waits jitter = 62000 + (\<Sum>n\<leftarrow>[0..<5]. jitter n)"
    "total_wait coinglass_waits jitter = 15000 + (\<Sum>n\<leftarrow>[0..<4]. jitter n)"
    "total_wait coingecko_waits jitter = 7000 + (\<Sum>n\<leftarrow>[0..<3]. jitter n)"
  using assms [of 0] assms [of 1] assms [of 2] assms [of 3] assms [of 4]
  by (simp_all add: total_wait_def mexc_waits_def coinglass_waits_def coingecko_waits_def upt_small min_def)

end
