(* ===== verification/Logging.thy ===== *)
theory Logging
  imports Settings
begin

text \<open>
  Process logging (src/shortfire/observability/logging.py and middleware.py): the processor chain that
  \<open>configure_logging\<close> installs, the processor of the repository and the level a logger filters by. The
  processors of structlog are parameters; what the lemmas rely on of them is stated as hypotheses.
\<close>

section \<open>Processors\<close>

type_synonym event_dict = "string \<rightharpoonup> string"
type_synonym processor = "event_dict \<Rightarrow> event_dict"

text \<open>
  The context variable of asgi-correlation-id: the package may be missing, the variable unset, or empty.
\<close>

datatype correlation = NotInstalled | Unset | Id string

definition add_correlation_id :: "correlation \<Rightarrow> processor" where
  "add_correlation_id c ev =
     (case c of NotInstalled \<Rightarrow> ev | Unset \<Rightarrow> ev
      | Id rid \<Rightarrow> if rid = '''' then ev else ev(''request_id'' \<mapsto> rid))"

record structlog =
  merge_contextvars :: processor
  add_log_level :: "string \<Rightarrow> processor"
  timestamper :: "string \<Rightarrow> processor"
  stack_info :: processor
  exc_info :: processor
  json :: "event_dict \<Rightarrow> string"

section \<open>Configuration\<close>

text \<open>The level attributes of the standard logging module.\<close>

definition logging_attrs :: "(string \<times> int) list" where
  "logging_attrs = [(''CRITICAL'', 50), (''FATAL'', 50), (''ERROR'', 40), (''WARNING'', 30), (''WARN'', 30),
     (''INFO'', 20), (''DEBUG'', 10), (''NOTSET'', 0)]"

definition level_int :: "string \<Rightarrow> int" where
  "level_int level = (case map_of logging_attrs level of Some n \<Rightarrow> n | None \<Rightarrow> 20)"

record log_config =
  lc_processors :: "string \<Rightarrow> correlation \<Rightarrow> processor list"
  lc_renderer :: "event_dict \<Rightarrow> string"
  lc_level :: int
  lc_std_level :: string

definition shared_processors :: "structlog \<Rightarrow> string \<Rightarrow> correlation \<Rightarrow> processor list" where
  "shared_processors lib meth c =
     [merge_contextvars lib, add_correlation_id c, add_log_level lib meth, timestamper lib ''ts'', stack_info lib, exc_info lib]"

definition configure_logging :: "structlog \<Rightarrow> string \<Rightarrow> log_config" where
  "configure_logging lib level =
     \<lparr>lc_processors = shared_processors lib, lc_renderer = json lib, lc_level = level_int level, lc_std_level = level\<rparr>"

text \<open>
  A call of a logger's method: dropped below the level, else the event goes through the processors in
  order and is rendered. The keyword arguments of the call are the initial event.
\<close>

definition method_level :: "string \<Rightarrow> int" where
  "method_level meth = (if meth = ''exception'' then 40 else case map_of
     [(''critical'', 50), (''error'', 40), (''warning'', 30), (''info'', 20), (''debug'', 10)] meth of
     Some n \<Rightarrow> n | None \<Rightarrow> 0)"

definition processed :: "log_config \<Rightarrow> string \<Rightarrow> correlation \<Rightarrow> event_dict \<Rightarrow> event_dict" where
  "processed cfg meth c ev = fold (\<lambda>p. p) (lc_processors cfg meth c) ev"

definition logged :: "log_config \<Rightarrow> string \<Rightarrow> correlation \<Rightarrow> event_dict \<Rightarrow> string option" where
  "logged cfg meth c ev =
     (if method_level meth < lc_level cfg then None else Some (lc_renderer cfg (processed cfg meth c ev)))"

text \<open>The middlewares of the application, outermost first.\<close>

definition install_correlation_middleware :: "string list \<Rightarrow> string list" where
  "install_correlation_middleware app = ''CorrelationIdMiddleware'' # app"

section \<open>What reaches the log\<close>

text \<open>Every level the settings accept is a name of the logging module, so the fallback is never taken.\<close>

lemma accepted_level:
  assumes "CommonSettings level e = Inr s"
  shows "log_level s = level" "level = ''DEBUG'' \<or> level = ''INFO'' \<or> level = ''WARN'' \<or> level = ''ERROR''"
proof -
  have "level \<in> {''DEBUG'', ''INFO'', ''WARN'', ''ERROR''} \<and> s = \<lparr>log_level = level, cs_env = e\<rparr>"
    using assms unfolding CommonSettings_def res_simps by (elim exE conjE, intro conjI) simp_all
  then show "log_level s = level" "level = ''DEBUG'' \<or> level = ''INFO'' \<or> level = ''WARN'' \<or> level = ''ERROR''" by auto
qed

lemma level_ints: "level_int ''DEBUG'' = 10" "level_int ''INFO'' = 20" "level_int ''WARN'' = 30" "level_int ''ERROR'' = 40"
  by code_simp+

lemma method_levels: "method_level ''error'' = 40" "method_level ''warning'' = 30" "method_level ''info'' = 20"
  by code_simp+

lemma level_accepted:
  assumes "CommonSettings level e = Inr s"
  shows "map_of logging_attrs (log_level s) = Some (level_int level)"
proof -
  have "map_of logging_attrs ''DEBUG'' = Some 10" "map_of logging_attrs ''INFO'' = Some 20"
    "map_of logging_attrs ''WARN'' = Some 30" "map_of logging_attrs ''ERROR'' = Some 40" by code_simp+
  then show ?thesis using accepted_level [OF assms] level_ints by (elim disjE) simp_all
qed

lemma logged_iff: "logged (configure_logging lib level) meth c ev \<noteq> None \<longleftrightarrow> level_int level \<le> method_level meth"
  by (simp add: logged_def configure_logging_def)

lemma level_filters:
  assumes "CommonSettings level e = Inr s"
  shows "logged (configure_logging lib level) ''error'' c ev \<noteq> None"
    "logged (configure_logging lib level) ''warning'' c ev \<noteq> None \<longleftrightarrow> level \<noteq> ''ERROR''"
    "logged (configure_logging lib level) ''info'' c ev \<noteq> None \<longleftrightarrow> level = ''DEBUG'' \<or> level = ''INFO''"
  unfolding logged_iff using accepted_level(2) [OF assms] by (elim disjE; simp add: level_ints method_levels)+

text \<open>
  A time stamp processor sets its key and nothing else, and the processors after it only touch the keys of
  stack traces and exceptions. Then the ts of an event is always the stamp, whatever the caller passed:
  the snapshot time that coingecko/universe.py logs under the same key is lost.
\<close>

definition stamps :: "structlog \<Rightarrow> string \<Rightarrow> bool" where
  "stamps lib now \<longleftrightarrow> timestamper lib ''ts'' = (\<lambda>ev. ev(''ts'' \<mapsto> now)) \<and>
     (\<forall>ev. stack_info lib ev ''ts'' = ev ''ts'' \<and> exc_info lib ev ''ts'' = ev ''ts'')"

lemma caller_ts_lost: "stamps lib now \<Longrightarrow> processed (configure_logging lib level) meth c ev ''ts'' = Some now"
  by (simp add: stamps_def processed_def configure_logging_def shared_processors_def)

text \<open>Inside a request the identifier is in every event, unless a later processor removes it.\<close>

lemma request_id_added: "rid \<noteq> '''' \<Longrightarrow> add_correlation_id (Id rid) ev ''request_id'' = Some rid"
  by (simp add: add_correlation_id_def)

lemma no_request_unchanged: "c \<in> {NotInstalled, Unset, Id ''''} \<Longrightarrow> add_correlation_id c ev = ev"
  by (auto simp: add_correlation_id_def)

definition plain_structlog :: structlog where
  "plain_structlog = \<lparr>merge_contextvars = (\<lambda>ev. [''service_name'' \<mapsto> ''data-platform''] ++ ev),
     add_log_level = (\<lambda>meth ev. ev(''level'' \<mapsto> meth)), timestamper = (\<lambda>key ev. ev(key \<mapsto> ''2026-05-22T00:05:00Z'')),
     stack_info = (\<lambda>ev. ev), exc_info = (\<lambda>ev. ev), json = (\<lambda>ev. the (ev ''ts''))\<rparr>"

lemma coingecko_fetch_logged:
  "logged (configure_logging plain_structlog ''INFO'') ''info'' Unset
     [''event'' \<mapsto> ''coingecko.universe.fetch_start'', ''ts'' \<mapsto> ''2026-05-21T00:00:00''] = Some ''2026-05-22T00:05:00Z''"
  by (simp add: logged_def processed_def configure_logging_def shared_processors_def plain_structlog_def
      add_correlation_id_def method_level_def level_int_def logging_attrs_def)

end
