(* ===== verification/Settings_Load.thy ===== *)
theory Settings_Load
  imports Coinglass
begin

text \<open>
  The construction of the settings objects of src/shortfire/settings. pydantic-settings reads the
  environment and hands over a dictionary of the fields it found, with nested blocks as
  dictionaries; here that dictionary is the argument. What follows is the code of the repository:
  the validator that fills in db, then the fields with their types and defaults. Keys that
  are no field are ignored (\<open>extra="ignore"\<close>).
\<close>

section \<open>Fields\<close>

definition optional :: "(wire \<Rightarrow> 'a res) \<Rightarrow> 'a \<Rightarrow> wdict \<Rightarrow> string \<Rightarrow> 'a res" where
  "optional parse dflt d k = (case map_of d k of None \<Rightarrow> Inr dflt | Some v \<Rightarrow> parse v)"

definition required_field :: "(wire \<Rightarrow> 'a res) \<Rightarrow> wdict \<Rightarrow> string \<Rightarrow> 'a res" where
  "required_field parse d k = bindE (field d k) parse"

definition block :: "(wdict \<Rightarrow> 'a res) \<Rightarrow> wire \<Rightarrow> 'a res" where
  "block parse v = bindE (as_dict v) parse"

definition nullable :: "(wire \<Rightarrow> 'a res) \<Rightarrow> wire \<Rightarrow> 'a option res" where
  "nullable parse v = (if v = WNone then Inr None else bindE (parse v) (\<lambda>x. Inr (Some x)))"

definition secret_str :: "wire \<Rightarrow> secret res" where
  "secret_str v = bindE (lax_str v) (\<lambda>s. Inr (Secret s))"

definition literal_str :: "string list \<Rightarrow> wire \<Rightarrow> string res" where
  "literal_str allowed v = bindE (lax_str v) (\<lambda>s. bindE (guardE (s \<in> set allowed) ValidationError) (\<lambda>_. Inr s))"

fun lax_bool :: "wire \<Rightarrow> bool res" where
  "lax_bool (WBool b) = Inr b"
| "lax_bool (WInt i) = (if i = 0 then Inr False else if i = 1 then Inr True else Inl ValidationError)"
| "lax_bool (WStr s) =
     (if lower s \<in> {''0'', ''off'', ''f'', ''false'', ''n'', ''no''} then Inr False
      else if lower s \<in> {''1'', ''on'', ''t'', ''true'', ''y'', ''yes''} then Inr True else Inl ValidationError)"
| "lax_bool _ = Inl ValidationError"

section \<open>The classes\<close>

definition load_db :: "wdict \<Rightarrow> db_settings res" where
  "load_db d =
     bindE (required_field lax_str d ''url'') (\<lambda>url.
     bindE (optional lax_int 5 d ''pool_size'') (\<lambda>size.
     bindE (optional lax_bool True d ''pool_pre_ping'') (\<lambda>ping.
     bindE (optional lax_int 1800 d ''pool_recycle'') (\<lambda>recycle.
     Inr \<lparr>db_url = url, pool_size = size, pool_pre_ping = ping, pool_recycle = recycle\<rparr>))))"

definition load_common :: "wdict \<Rightarrow> common_settings res" where
  "load_common d =
     bindE (optional (literal_str [''DEBUG'', ''INFO'', ''WARN'', ''ERROR'']) ''INFO'' d ''log_level'') (\<lambda>level.
     bindE (optional (literal_str [''local'', ''ci'', ''staging'', ''production'']) ''local'' d ''env'') (\<lambda>e.
     Inr \<lparr>log_level = level, cs_env = e\<rparr>))"

definition load_base :: "string \<Rightarrow> wdict \<Rightarrow> base_settings res" where
  "load_base name d =
     bindE (optional lax_str name d ''service_name'') (\<lambda>service.
     bindE (optional lax_int 8000 d ''port'') (\<lambda>p.
     bindE (required_field lax_str d ''database_url'') (\<lambda>url.
     bindE (optional (block load_db) (DBSettings ''placeholder'') d ''db'') (\<lambda>dbs.
     bindE (optional (block load_common) \<lparr>log_level = ''INFO'', cs_env = ''local''\<rparr> d ''common'') (\<lambda>cs.
     Inr \<lparr>service_name = service, port = p, database_url = url, db = dbs, common = cs\<rparr>)))))"

definition load_mexc_read :: "wdict \<Rightarrow> mexc_read_settings res" where
  "load_mexc_read d =
     bindE (required_field secret_str d ''read_key'') (\<lambda>key.
     bindE (required_field secret_str d ''read_secret'') (\<lambda>s. Inr \<lparr>read_key = key, read_secret = s\<rparr>))"

definition load_api_key :: "wdict \<Rightarrow> secret res" where
  "load_api_key d = required_field secret_str d ''api_key''"

definition load_telegram :: "wdict \<Rightarrow> telegram_settings res" where
  "load_telegram d =
     bindE (required_field secret_str d ''bot_token'') (\<lambda>token.
     bindE (required_field lax_str d ''operator_chat_id'') (\<lambda>chat. Inr \<lparr>bot_token = token, operator_chat_id = chat\<rparr>))"

definition load_r2_backup :: "wdict \<Rightarrow> r2_backup_settings res" where
  "load_r2_backup d =
     bindE (required_field lax_str d ''account_id'') (\<lambda>account.
     bindE (required_field secret_str d ''access_key_id'') (\<lambda>key.
     bindE (required_field secret_str d ''secret_access_key'') (\<lambda>s.
     bindE (required_field lax_str d ''bucket_name'') (\<lambda>bucket.
     Inr \<lparr>account_id = account, access_key_id = key, secret_access_key = s, bucket_name = bucket\<rparr>))))"

definition load_data_platform :: "wdict \<Rightarrow> data_platform_settings res" where
  "load_data_platform d =
     bindE (load_base ''data-platform'' d) (\<lambda>b.
     bindE (optional (nullable (block load_mexc_read)) None d ''mexc'') (\<lambda>m.
     bindE (optional (nullable (block load_api_key)) None d ''coinglass'') (\<lambda>glass.
     bindE (optional (nullable (block load_api_key)) None d ''coingecko'') (\<lambda>gecko.
     bindE (optional (nullable (block load_telegram)) None d ''telegram'') (\<lambda>tg.
     bindE (optional (nullable (block load_r2_backup)) None d ''r2_backup'') (\<lambda>r2.
     Inr (base_settings.extend b
       (data_platform_settings.fields m glass gecko tg r2))))))))"

definition load_mexc_trade :: "wdict \<Rightarrow> mexc_trade_settings res" where
  "load_mexc_trade d =
     bindE (required_field secret_str d ''trade_key'') (\<lambda>key.
     bindE (required_field secret_str d ''trade_secret'') (\<lambda>s. Inr \<lparr>trade_key = key, trade_secret = s\<rparr>))"

definition load_strategy_engine :: "wdict \<Rightarrow> strategy_engine_settings res" where
  "load_strategy_engine d =
     bindE (load_base ''strategy-engine'' d) (\<lambda>b.
     bindE (optional (nullable lax_str) None d ''mlflow_tracking_uri'') (\<lambda>uri.
     bindE (optional (nullable (block load_mexc_trade)) None d ''mexc_trade'') (\<lambda>m.
     Inr (base_settings.extend b (strategy_engine_settings.fields uri m)))))"

definition load_dash_telegram :: "wdict \<Rightarrow> secret res" where
  "load_dash_telegram d = required_field secret_str d ''bot_token''"

definition load_dashboard :: "wdict \<Rightarrow> dashboard_settings res" where
  "load_dashboard d =
     bindE (load_base ''dashboard'' d) (\<lambda>b.
     bindE (optional (nullable (block load_dash_telegram)) None d ''telegram'') (\<lambda>tg.
     Inr (base_settings.extend b (dashboard_settings.fields tg))))"

definition load_risk_guard :: "wdict \<Rightarrow> base_settings res" where
  "load_risk_guard = load_base ''risk-guard''"

text \<open>\<open>Settings()\<close>: the validator, then the fields.\<close>

definition construct_settings :: "(wdict \<Rightarrow> 'a res) \<Rightarrow> wdict \<Rightarrow> 'a res" where
  "construct_settings load d = block load (build_db (WDict d))"

definition DataPlatformSettings :: "wdict \<Rightarrow> data_platform_settings res" where
  "DataPlatformSettings = construct_settings load_data_platform"

definition StrategyEngineSettings :: "wdict \<Rightarrow> strategy_engine_settings res" where
  "StrategyEngineSettings = construct_settings load_strategy_engine"

definition DashboardSettings :: "wdict \<Rightarrow> dashboard_settings res" where
  "DashboardSettings = construct_settings load_dashboard"

definition RiskGuardSettings :: "wdict \<Rightarrow> base_settings res" where
  "RiskGuardSettings = construct_settings load_risk_guard"

section \<open>What is loaded\<close>

lemma block_Inr: "block load v = Inr x \<longleftrightarrow> (\<exists>b. v = WDict b \<and> load b = Inr x)"
  by (cases v) (simp_all add: block_def)

lemma optional_Inr:
  "optional parse dflt d k = Inr x \<longleftrightarrow> (map_of d k = None \<and> x = dflt) \<or> (\<exists>v. map_of d k = Some v \<and> parse v = Inr x)"
  by (auto simp: optional_def split: option.split)

lemma required_Inr: "required_field parse d k = Inr x \<longleftrightarrow> (\<exists>v. map_of d k = Some v \<and> parse v = Inr x)"
  by (auto simp: required_field_def field_def res_simps split: option.split)

lemma lax_str_Inr: "lax_str v = Inr s \<longleftrightarrow> v = WStr s"
  by (cases v) auto

lemma literal_Inr: "literal_str allowed v = Inr s \<longleftrightarrow> v = WStr s \<and> s \<in> set allowed"
  by (auto simp: literal_str_def res_simps lax_str_Inr)

lemmas loaded = block_Inr optional_Inr required_Inr lax_str_Inr literal_Inr res_simps

text \<open>The dictionary after the validator, for keys as pydantic-settings hands them over, in lower case.\<close>

lemma extract_lower:
  "list_all (\<lambda>(k, _). lower k = k) d \<Longrightarrow> map_of d ''database_url'' = Some (WStr u) \<Longrightarrow> extract_db_url d = Some u"
proof (induction d)
  case (Cons kv d)
  obtain k v where kv: "kv = (k, v)" by (cases kv)
  have "lower k = k" using Cons.prems(1) kv by simp
  then show ?case using Cons kv by (cases "k = ''database_url''") (auto split: wire.split)
qed simp

definition validated_data :: "wdict \<Rightarrow> string \<Rightarrow> wdict" where
  "validated_data d u =
     (case map_of d ''db'' of Some (WDict _) \<Rightarrow> d | _ \<Rightarrow> AList.update ''db'' (WDict [(''url'', WStr u)]) d)"

lemma construct_lower:
  assumes "list_all (\<lambda>(k, _). lower k = k) d" "map_of d ''database_url'' = Some (WStr u)"
  shows "construct_settings load d = load (validated_data d u)"
  using extract_lower [OF assms]
  by (auto simp: construct_settings_def build_db_def validated_data_def block_def split: option.split wire.split)

lemma validated_lookup:
  "map_of (validated_data d u) k = (if k = ''db'' then
     (case map_of d ''db'' of Some (WDict b) \<Rightarrow> Some (WDict b) | _ \<Rightarrow> Some (WDict [(''url'', WStr u)])) else map_of d k)"
  by (auto simp: validated_data_def update_conv' split: option.split wire.split)

text \<open>The base fields of a loaded object are those of its base class.\<close>

lemma data_platform_base:
  "load_data_platform d = Inr s \<Longrightarrow> \<exists>b. load_base ''data-platform'' d = Inr b \<and> database_url s = database_url b \<and>
     db s = db b \<and> common s = common b \<and> service_name s = service_name b \<and> port s = port b"
  by (auto simp: load_data_platform_def res_simps base_settings.defs data_platform_settings.defs)

lemma optional_literal: "optional (literal_str allowed) dflt d k = Inr s \<Longrightarrow> s = dflt \<or> s \<in> set allowed"
  by (auto simp: optional_Inr literal_Inr)

lemma load_db_url: "load_db d = Inr x \<Longrightarrow> map_of d ''url'' = Some (WStr (db_url x))"
  by (auto simp: load_db_def required_Inr lax_str_Inr res_simps)

lemma load_common_typed:
  assumes "load_common d = Inr c"
  shows "log_level c \<in> {''DEBUG'', ''INFO'', ''WARN'', ''ERROR''}" "cs_env c \<in> {''local'', ''ci'', ''staging'', ''production''}"
proof -
  obtain l e where le: "optional (literal_str [''DEBUG'', ''INFO'', ''WARN'', ''ERROR'']) ''INFO'' d ''log_level'' = Inr l"
    "optional (literal_str [''local'', ''ci'', ''staging'', ''production'']) ''local'' d ''env'' = Inr e"
    "c = \<lparr>log_level = l, cs_env = e\<rparr>"
    using assms unfolding load_common_def res_simps by (elim exE conjE) simp
  show "log_level c \<in> {''DEBUG'', ''INFO'', ''WARN'', ''ERROR''}"
    using optional_literal [OF le(1)] by (elim disjE) (simp_all only: le(3) common_settings.simps set_simps, simp)
  show "cs_env c \<in> {''local'', ''ci'', ''staging'', ''production''}"
    using optional_literal [OF le(2)] by (elim disjE) (simp_all only: le(3) common_settings.simps set_simps, simp)
qed

lemma base_loaded:
  assumes "load_base name d = Inr b"
  shows "map_of d ''database_url'' = Some (WStr (database_url b))"
    and "optional (block load_db) (DBSettings ''placeholder'') d ''db'' = Inr (db b)"
    and "optional (block load_common) \<lparr>log_level = ''INFO'', cs_env = ''local''\<rparr> d ''common'' = Inr (common b)"
proof -
  obtain service p url dbs cs where fields: "required_field lax_str d ''database_url'' = Inr url"
    "optional (block load_db) (DBSettings ''placeholder'') d ''db'' = Inr dbs"
    "optional (block load_common) \<lparr>log_level = ''INFO'', cs_env = ''local''\<rparr> d ''common'' = Inr cs"
    "Inr \<lparr>service_name = service, port = p, database_url = url, db = dbs, common = cs\<rparr> = (Inr b :: base_settings res)"
    using assms unfolding load_base_def bindE_eq_Inr by (elim exE conjE) (rule that, assumption+)
  have b: "database_url b = url" "db b = dbs" "common b = cs" using fields(4) by (auto simp only: sum.inject base_settings.simps)
  show "map_of d ''database_url'' = Some (WStr (database_url b))"
    using fields(1) unfolding required_Inr lax_str_Inr b by (elim exE conjE) (simp only:)
  show "optional (block load_db) (DBSettings ''placeholder'') d ''db'' = Inr (db b)" unfolding b by (rule fields(2))
  show "optional (block load_common) \<lparr>log_level = ''INFO'', cs_env = ''local''\<rparr> d ''common'' = Inr (common b)"
    unfolding b by (rule fields(3))
qed

lemma common_typed:
  assumes "optional (block load_common) \<lparr>log_level = ''INFO'', cs_env = ''local''\<rparr> d k = Inr c"
  shows "log_level c \<in> {''DEBUG'', ''INFO'', ''WARN'', ''ERROR''} \<and> cs_env c \<in> {''local'', ''ci'', ''staging'', ''production''}"
  using assms unfolding optional_Inr block_Inr
proof (elim disjE exE conjE)
  assume "c = \<lparr>log_level = ''INFO'', cs_env = ''local''\<rparr>"
  then show ?thesis by simp
next
  fix m
  assume "load_common m = Inr c"
  from load_common_typed [OF this] show ?thesis ..
qed

text \<open>Settings that load are well-formed: the level and the environment are among the allowed ones, the
  database_url is the DATABASE_URL that was found, and the url of the db block is the same unless
  the environment has a db block of its own, whose url it is then.\<close>

lemma loaded_settings_typed:
  assumes "list_all (\<lambda>(k, _). lower k = k) d" "map_of d ''database_url'' = Some (WStr u)" "DataPlatformSettings d = Inr s"
  shows "database_url s = u \<and> log_level (common s) \<in> {''DEBUG'', ''INFO'', ''WARN'', ''ERROR''} \<and>
    cs_env (common s) \<in> {''local'', ''ci'', ''staging'', ''production''} \<and>
    (case map_of d ''db'' of
       Some (WDict m) \<Rightarrow> map_of m ''url'' = Some (WStr (db_url (db s)))
     | _ \<Rightarrow> db_url (db s) = u)"
proof -
  have "load_data_platform (validated_data d u) = Inr s"
    using assms(3) construct_lower [OF assms(1,2), of load_data_platform] by (simp add: DataPlatformSettings_def)
  then obtain b where b: "load_base ''data-platform'' (validated_data d u) = Inr b" "database_url s = database_url b"
    "db s = db b" "common s = common b" using data_platform_base by blast
  note facts = base_loaded [OF b(1)]
  have "database_url s = u" using facts(1) assms(2) b(2) by (simp add: validated_lookup)
  moreover have "case map_of d ''db'' of Some (WDict m) \<Rightarrow> map_of m ''url'' = Some (WStr (db_url (db s)))
     | _ \<Rightarrow> db_url (db s) = u"
    using facts(2) load_db_url b(3)
    by (auto simp: optional_Inr block_Inr validated_lookup split: option.splits wire.splits dest!: load_db_url)
  ultimately show ?thesis using common_typed [OF facts(3)] b(4) by simp
qed

definition sample_data :: wdict where
  "sample_data = [(''database_url'', WStr ''postgres://u:p@h/x''), (''common'', WDict [(''log_level'', WStr ''WARN'')]),
     (''mexc_trade'', WDict [(''trade_key'', WStr ''t'')])]"

lemma sample_data_loads: "\<exists>s. DataPlatformSettings sample_data = Inr s"
proof -
  have "case DataPlatformSettings sample_data of Inl _ \<Rightarrow> False | Inr _ \<Rightarrow> True" by code_simp
  then show ?thesis by (cases "DataPlatformSettings sample_data") simp_all
qed

lemma loaded_settings_typed_witness: "\<exists>s. DataPlatformSettings sample_data = Inr s \<and> db_url (db s) = ''postgres://u:p@h/x''"
proof -
  obtain s where s: "DataPlatformSettings sample_data = Inr s" using sample_data_loads by blast
  have "list_all (\<lambda>(k, _). lower k = k) sample_data" by code_simp
  then show ?thesis using loaded_settings_typed [OF _ _ s] s by (simp add: sample_data_def)
qed

text \<open>
  A db block that comes from the environment is not given the url: a pool size set with DB__POOL_SIZE next to
  DATABASE_URL is refused.
\<close>

lemma partial_db_block_refused:
  assumes "list_all (\<lambda>(k, _). lower k = k) d" "map_of d ''database_url'' = Some (WStr u)"
    and "map_of d ''db'' = Some (WDict m)" "map_of m ''url'' = None"
  shows "DataPlatformSettings d \<noteq> Inr s"
  using loaded_settings_typed [OF assms(1,2), of s] assms(3,4) by auto

section \<open>Undeclared keys\<close>

text \<open>The fields of the class, as \<open>extra="ignore"\<close> leaves them\<close>

definition data_platform_fields :: "string list" where
  "data_platform_fields = [''service_name'', ''port'', ''database_url'', ''db'', ''common'', ''mexc'', ''coinglass'',
     ''coingecko'', ''telegram'', ''r2_backup'']"

lemma map_of_declared: "map_of (filter (\<lambda>(k, _). k \<in> set ks) d) k = (if k \<in> set ks then map_of d k else None)"
  by (induction d) auto

lemma same_lookup_same_settings:
  "(\<And>k. k \<in> set data_platform_fields \<Longrightarrow> map_of d k = map_of d' k) \<Longrightarrow> load_data_platform d = load_data_platform d'"
  by (simp add: data_platform_fields_def load_data_platform_def load_base_def optional_def required_field_def field_def)

lemma extract_declared:
  "list_all (\<lambda>(k, _). lower k = k) d \<Longrightarrow> ''database_url'' \<in> set ks \<Longrightarrow>
   extract_db_url (filter (\<lambda>(k, _). k \<in> set ks) d) = extract_db_url d"
proof (induction d)
  case (Cons kv d)
  obtain k v where kv: "kv = (k, v)" by (cases kv)
  then show ?case using Cons by (auto split: wire.split)
qed simp

lemma built_lookup:
  "\<exists>b. build_db (WDict d) = WDict b \<and>
    (\<forall>k. map_of b k = (if k = ''db'' then
       (case (extract_db_url d, map_of d ''db'') of
          (Some u, Some (WDict m)) \<Rightarrow> Some (WDict m)
        | (Some u, _) \<Rightarrow> Some (WDict [(''url'', WStr u)])
        | (None, v) \<Rightarrow> v) else map_of d k))"
  by (auto simp: build_db_def update_conv' split: option.split wire.split)



end
