(* ===== verification/Alembic_Env.thy ===== *)
theory Alembic_Env
  imports Migrations Settings
begin

text \<open>
  src/alembic/env.py: the run of the migrations that a deployment makes. It resolves the database URL, refuses
  the offline mode and upgrades from the version of the server to the head with
  \<open>transaction_per_migration=True\<close>, so that a revision whose statements fail leaves the server as the
  revision before it did. Which revisions fail, and how, is an argument.
\<close>

section \<open>The run\<close>

text \<open>The revisions after the current one.\<close>

fun after_revision :: "string \<Rightarrow> revision list \<Rightarrow> revision list option" where
  "after_revision v [] = None"
| "after_revision v (r # rs) = (if rv_id r = v then Some rs else after_revision v rs)"

definition pending :: "server \<Rightarrow> revision list res" where
  "pending s =
     (case sv_version s of
        None \<Rightarrow> Inr history
      | Some v \<Rightarrow> (case after_revision v history of None \<Rightarrow> Inl (Foreign ''CommandError'') | Some rs \<Rightarrow> Inr rs))"

type_synonym outage = "string \<Rightarrow> exc option"

text \<open>One transaction: a failing statement, of the server or of the revision, rolls it back.\<close>

definition migrate_one :: "outage \<Rightarrow> revision \<Rightarrow> server \<Rightarrow> unit res \<times> server" where
  "migrate_one out r s =
     (case out (rv_id r) of
        Some e \<Rightarrow> (Inl e, s)
      | None \<Rightarrow> (case upgrade r s of Inl e \<Rightarrow> (Inl e, s) | Inr s' \<Rightarrow> (Inr (), s')))"

fun migrate_all :: "outage \<Rightarrow> revision list \<Rightarrow> server \<Rightarrow> unit res \<times> server" where
  "migrate_all out [] s = (Inr (), s)"
| "migrate_all out (r # rs) s =
     (case migrate_one out r s of (Inl e, s') \<Rightarrow> (Inl e, s') | (Inr _, s') \<Rightarrow> migrate_all out rs s')"

definition do_run_migrations :: "outage \<Rightarrow> server \<Rightarrow> unit res \<times> server" where
  "do_run_migrations out s = (case pending s of Inl e \<Rightarrow> (Inl e, s) | Inr rs \<Rightarrow> migrate_all out rs s)"

definition run_async_migrations :: "environ \<Rightarrow> (string \<Rightarrow> unit res) \<Rightarrow> outage \<Rightarrow> server \<Rightarrow> unit res \<times> server" where
  "run_async_migrations env connect out s =
     (case bindE (resolved_url env) connect of Inl e \<Rightarrow> (Inl e, s) | Inr _ \<Rightarrow> do_run_migrations out s)"

definition env_py :: "bool \<Rightarrow> environ \<Rightarrow> (string \<Rightarrow> unit res) \<Rightarrow> outage \<Rightarrow> server \<Rightarrow> unit res \<times> server" where
  "env_py offline env connect out s =
     (if offline then (Inl (RuntimeError ''Offline migrations are not supported''), s)
      else run_async_migrations env connect out s)"

section \<open>Interrupted deployments\<close>

lemma upgrade_version: "upgrade r s = Inr s' \<Longrightarrow> sv_version s = rv_down r \<and> sv_version s' = Some (rv_id r)"
  by (auto simp: upgrade_def revise_def res_simps split: if_splits)

lemma migrate_all_undisturbed: "migrate_all (\<lambda>_. None) rs s = (Inr (), t) \<longleftrightarrow> foldE (\<lambda>s r. upgrade r s) s rs = Inr t"
  by (induction rs arbitrary: s) (auto simp: migrate_one_def split: sum.split)

text \<open>A run that is cut short has applied a prefix of the revisions.\<close>

lemma migrate_all_prefix:
  "\<exists>k\<le>length rs. foldE (\<lambda>s r. upgrade r s) s (take k rs) = Inr (snd (migrate_all out rs s))"
proof (induction rs arbitrary: s)
  case (Cons r rs)
  show ?case
  proof (cases "migrate_one out r s")
    case (Pair x s')
    show ?thesis
    proof (cases x)
      case (Inl e)
      then have "s' = s" using Pair by (auto simp: migrate_one_def split: option.splits sum.splits)
      then show ?thesis using Pair Inl by (intro exI [of _ 0]) simp
    next
      case (Inr u)
      then have up: "upgrade r s = Inr s'" using Pair by (auto simp: migrate_one_def split: option.splits sum.splits)
      obtain k where "k \<le> length rs" "foldE (\<lambda>s r. upgrade r s) s' (take k rs) = Inr (snd (migrate_all out rs s'))"
        using Cons.IH by blast
      then show ?thesis using Pair Inr up by (intro exI [of _ "Suc k"]) simp
    qed
  qed
qed simp

lemma after_append: "r \<notin> rv_id ` set rs \<Longrightarrow> rv_id x = r \<Longrightarrow> after_revision r (rs @ x # us) = Some us"
  by (induction rs) auto

lemma after_suffix: "after_revision v rs = Some us \<Longrightarrow> \<exists>ps x. rs = ps @ x # us \<and> rv_id x = v"
proof (induction rs)
  case (Cons r rs)
  show ?case
  proof (cases "rv_id r = v")
    case True
    then show ?thesis using Cons.prems by (intro exI [of _ "[]"]) auto
  next
    case False
    then obtain ps x where "rs = ps @ x # us" "rv_id x = v" using Cons by auto
    then show ?thesis by (intro exI [of _ "r # ps"]) auto
  qed
qed simp

lemma history_ids: "distinct (map rv_id history)"
  by code_simp

lemma after_prefix_run:
  assumes "foldE (\<lambda>s r. upgrade r s) s ps = Inr t" "ps \<noteq> []"
  shows "sv_version t = Some (rv_id (last ps))"
  using assms
proof (induction ps arbitrary: s)
  case (Cons r ps)
  obtain s1 where s1: "upgrade r s = Inr s1" "foldE (\<lambda>s r. upgrade r s) s1 ps = Inr t"
    using Cons.prems(1) by (auto simp: res_simps)
  then show ?case using Cons.IH [OF s1(2)] upgrade_version [OF s1(1)] by (cases "ps = []") auto
qed simp

text \<open>After a prefix of the pending revisions the rest of them is pending.\<close>

lemma pending_after_prefix:
  assumes "pending s = Inr (ps @ us)" "foldE (\<lambda>s r. upgrade r s) s ps = Inr t"
  shows "pending t = Inr us"
proof (cases "ps = []")
  case True
  then show ?thesis using assms by simp
next
  case False
  then obtain ps' x where ps: "ps = ps' @ [x]" by (cases ps rule: rev_cases) auto
  have version: "sv_version t = Some (rv_id x)" using after_prefix_run [OF assms(2) False] ps by simp
  obtain qs where h: "history = qs @ ps @ us"
    using assms(1) after_suffix [of _ history "ps @ us"]
    by (auto simp: pending_def split: option.splits) (metis append_Cons append_Nil append_assoc)
  have "rv_id x \<notin> rv_id ` set (qs @ ps')" using history_ids unfolding h ps by auto
  then have "after_revision (rv_id x) history = Some us" using after_append [of "rv_id x" "qs @ ps'" x us] unfolding h ps by simp
  then show ?thesis using version by (simp add: pending_def)
qed


text \<open>An empty server can be upgraded, and is, whatever interrupts the first attempts.\<close>

lemma clear_server_upgrades:
  assumes "sv_version s = None" "clear_of history s"
  shows "\<exists>t. do_run_migrations (\<lambda>_. None) s = (Inr (), t) \<and> applied history s t"
  using upgrades_applied [OF _ history_facts(2) assms(2)] history_facts(1) assms(1)
  by (auto simp: do_run_migrations_def pending_def migrate_all_undisturbed)

definition bare_server :: server where
  "bare_server = \<lparr>sv_db = Map.empty, sv_views = [], sv_sql = [], sv_version = None\<rparr>"

lemma bare_server_clear: "clear_of history bare_server"
  using names_distinct by (simp add: clear_of_def history_lists bare_server_def)


text \<open>Offline runs and runs without the variable do nothing to the server.\<close>

lemma env_refuses:
  "env_py True env connect out s = (Inl (RuntimeError ''Offline migrations are not supported''), s)"
  "map_of env ''DATABASE_URL'' = None \<Longrightarrow> env_py False env connect out s = (Inl (KeyError ''DATABASE_URL''), s)"
  by (simp_all add: env_py_def run_async_migrations_def resolved_url_def)

end
