(* ===== verification/Clients.thy ===== *)
theory Clients
  imports Logging Telegram
begin

text \<open>
  The clients of the external services as objects: the protocols of src/shortfire/clients against the methods of
  the concrete classes, the constructors of the two HTTP clients with their headers, and the
  secret of the Telegram client, whose token is part of the URL of every request.
\<close>

section \<open>Protocols\<close>

text \<open>A method: its name and parameters after self, with whether the parameter has a default.\<close>

type_synonym signature = "string \<times> (string \<times> bool) list"

definition proto_MexcClient :: "signature list" where
  "proto_MexcClient =
    [(''fetch_ohlcv'', [(''symbol'', False), (''timeframe'', False), (''since'', False), (''until'', False)]),
     (''fetch_funding_rate_history'', [(''symbol'', False), (''since'', False), (''until'', False)]),
     (''fetch_order_book'', [(''symbol'', False), (''depth'', True)]),
     (''place_order'', [(''order'', False)]),
     (''cancel_order'', [(''client_order_id'', False)])]"

definition proto_CoinglassClient :: "signature list" where
  "proto_CoinglassClient =
    [(''fetch_funding_aggregate'', [(''symbol'', False), (''since'', False), (''until'', False)]),
     (''fetch_open_interest'', [(''symbol'', False), (''since'', False), (''until'', False)]),
     (''fetch_liquidations'', [(''symbol'', False), (''since'', False), (''until'', False)])]"

definition proto_CoinGeckoClient :: "signature list" where
  "proto_CoinGeckoClient =
    [(''fetch_coins_markets'', [(''vs_currency'', True), (''per_page'', True), (''page'', True)]),
     (''fetch_coin_detail'', [(''coin_id'', False)]),
     (''close'', [])]"

definition proto_CandleRepo :: "signature list" where
  "proto_CandleRepo =
    [(''insert'', [(''candles'', False)]),
     (''fetch_by_symbol'', [(''symbol'', False)]),
     (''fetch_by_time_range'', [(''symbol'', False), (''since'', False), (''until'', False)])]"

text \<open>The public methods of the concrete classes of src/shortfire/ingest\<close>

definition class_MexcClient :: "signature list" where
  "class_MexcClient =
    [(''fetch_ohlcv'', [(''symbol'', False), (''timeframe'', False), (''since'', False), (''until'', False)]),
     (''fetch_funding_rate_history'', [(''symbol'', False), (''since'', False), (''until'', False)]),
     (''fetch_open_interest_history'', [(''symbol'', False), (''timeframe'', True)]),
     (''fetch_order_book'', [(''symbol'', False), (''depth'', True)]),
     (''place_order'', [(''order'', False)]),
     (''cancel_order'', [(''client_order_id'', False)]),
     (''close'', [])]"

definition class_CoinglassClient :: "signature list" where
  "class_CoinglassClient =
    [(''fetch_funding_rate_list'', []),
     (''fetch_open_interest_history'', [(''symbol'', False), (''interval'', True)]),
     (''fetch_liquidation_coin_history'', [(''symbol'', False), (''interval'', True)]),
     (''fetch_long_short_account_ratio'', [(''symbol'', False), (''interval'', True)]),
     (''close'', [])]"

definition class_CoinGeckoClient :: "signature list" where
  "class_CoinGeckoClient =
    [(''fetch_coins_markets'', [(''vs_currency'', True), (''per_page'', True), (''page'', True)]),
     (''fetch_coin_detail'', [(''coin_id'', False)]),
     (''close'', [])]"

text \<open>\<open>isinstance\<close> with a runtime-checkable protocol asks for the names; a type checker for the parameters too.\<close>

definition is_instance :: "signature list \<Rightarrow> signature list \<Rightarrow> bool" where
  "is_instance cls proto \<longleftrightarrow> list_all (\<lambda>(n, _). n \<in> set (map fst cls)) proto"

definition conforms :: "signature list \<Rightarrow> signature list \<Rightarrow> bool" where
  "conforms cls proto \<longleftrightarrow> list_all (\<lambda>(n, ps). map_of cls n = Some ps) proto"

lemma conforms_instance: "conforms cls proto \<Longrightarrow> is_instance cls proto"
  by (induction proto) (auto simp: conforms_def is_instance_def dest!: map_of_SomeD intro: rev_image_eqI)

lemma mexc_conforms: "conforms class_MexcClient proto_MexcClient" "conforms class_CoinGeckoClient proto_CoinGeckoClient"
  by (simp_all add: conforms_def class_MexcClient_def proto_MexcClient_def class_CoinGeckoClient_def proto_CoinGeckoClient_def)

text \<open>The Coinglass client has none of the methods of its protocol.\<close>

lemma coinglass_unrelated: "set (map fst class_CoinglassClient) \<inter> set (map fst proto_CoinglassClient) = {}"
  by (simp add: class_CoinglassClient_def proto_CoinglassClient_def)

section \<open>Construction\<close>

record http_client =
  hc_base :: string
  hc_headers :: "(string \<times> string) list"
  hc_http2 :: bool
  hc_timeout :: rat
  hc_max_connections :: nat
  hc_max_keepalive :: nat

definition CoinglassClient :: "data_platform_settings \<Rightarrow> http_client res" where
  "CoinglassClient s =
     (case coinglass s of
        None \<Rightarrow> Inl (RuntimeError ''DataPlatformSettings.coinglass must be configured for ingest. Set COINGLASS__API_KEY environment variable.'')
      | Some key \<Rightarrow> Inr \<lparr>hc_base = ''https://open-api-v4.coinglass.com'',
          hc_headers = [(''CG-API-KEY'', get_secret_value key), (''Accept'', ''application/json'')],
          hc_http2 = True, hc_timeout = 10, hc_max_connections = 20, hc_max_keepalive = 10\<rparr>)"

definition CoinGeckoClient :: "data_platform_settings \<Rightarrow> http_client res" where
  "CoinGeckoClient s =
     (case coingecko s of
        None \<Rightarrow> Inl (RuntimeError ''DataPlatformSettings.coingecko must be configured for CoinGecko ingest'')
      | Some key \<Rightarrow> Inr \<lparr>hc_base = ''https://api.coingecko.com/api/v3'',
          hc_headers = [(''x-cg-demo-api-key'', get_secret_value key), (''accept'', ''application/json'')],
          hc_http2 = True, hc_timeout = 10, hc_max_connections = 20, hc_max_keepalive = 10\<rparr>)"

definition request_url :: "http_client \<Rightarrow> string \<Rightarrow> string" where
  "request_url c endpoint = hc_base c @ endpoint"

text \<open>Neither key gets into a URL: with another key the same call requests the same URL.\<close>

lemma key_not_in_url:
  assumes "CoinglassClient s = Inr c" "CoinglassClient (s\<lparr>coinglass := Some key\<rparr>) = Inr c'"
  shows "request_url c endpoint = request_url c' endpoint" "map fst (hc_headers c) = map fst (hc_headers c')"
  using assms by (auto simp: CoinglassClient_def request_url_def split: option.splits)

section \<open>The token of the alerts\<close>

definition telegram_url :: "telegram_settings \<Rightarrow> string" where
  "telegram_url tg = ''https://api.telegram.org/bot'' @ get_secret_value (bot_token tg) @ ''/sendMessage''"

text \<open>The event of a failed alert; exc_info carries the exception, here the text it prints.\<close>

definition send_failed :: "string \<Rightarrow> string \<Rightarrow> event_dict" where
  "send_failed severity exc_text =
     [''event'' \<mapsto> ''telegram.send.failed'', ''severity'' \<mapsto> severity, ''exc_info'' \<mapsto> exc_text]"

text \<open>
  What the chain relies on: the processors before it leave exc_info alone, and \<open>format_exc_info\<close> puts a
  rendering of the exception, its text included, under the key exception.
\<close>

definition passes_exc_info :: "structlog \<Rightarrow> bool" where
  "passes_exc_info lib \<longleftrightarrow>
     (\<forall>ev meth. merge_contextvars lib ev ''exc_info'' = ev ''exc_info'' \<and> add_log_level lib meth ev ''exc_info'' = ev ''exc_info'' \<and>
       timestamper lib ''ts'' ev ''exc_info'' = ev ''exc_info'' \<and> stack_info lib ev ''exc_info'' = ev ''exc_info'')"

definition formats_exc_info :: "structlog \<Rightarrow> bool" where
  "formats_exc_info lib \<longleftrightarrow>
     (\<forall>ev m. ev ''exc_info'' = Some m \<longrightarrow> (\<exists>t. exc_info lib ev ''exception'' = Some t \<and> sublist m t))"


definition trace_prefix :: string where
  "trace_prefix = ''Traceback: ''"

definition tracing_structlog :: structlog where
  "tracing_structlog = plain_structlog\<lparr>exc_info := (\<lambda>ev. case ev ''exc_info'' of None \<Rightarrow> ev
     | Some m \<Rightarrow> ev(''exc_info'' := None, ''exception'' \<mapsto> trace_prefix @ m))\<rparr>"


end
