(* ===== verification/Sound_Minutes.thy ===== *)
theory Sound_Minutes
  imports Gap_Final Rollup Divergence
begin

text \<open>
  The soundness of the stored minutes as an invariant of everything that writes them: the trade stream
  (ingest/mexc/live_candles.py), gap flagging (ingest/gap.py) and the daily repair
  (ingest/mexc/backfill.py). A record is sound before it is written, the NUMERIC(28,10) columns round
  monotonically, and the merge keeps what is there; so the continuous aggregates are built
  from sound candles only.
\<close>

section \<open>Rounding to a NUMERIC column is monotone\<close>

text \<open>Half away from zero, on rationals\<close>

definition round_away :: "rat \<Rightarrow> int" where
  "round_away x = (if x < 0 then - \<lfloor>- x + 1 / 2\<rfloor> else \<lfloor>x + 1 / 2\<rfloor>)"

lemma round_away_sign: "x < 0 \<Longrightarrow> round_away x \<le> 0" "0 \<le> x \<Longrightarrow> 0 \<le> round_away x"
  by (simp_all add: round_away_def)

lemma round_away_mono:
  assumes "x \<le> y"
  shows "round_away x \<le> round_away y"
proof (cases "x < 0")
  case True
  show ?thesis
  proof (cases "y < 0")
    case True
    have "\<lfloor>- y + 1 / 2\<rfloor> \<le> \<lfloor>- x + 1 / 2\<rfloor>" using assms by (intro floor_mono) simp
    then show ?thesis using \<open>x < 0\<close> True by (simp add: round_away_def)
  next
    case False
    then show ?thesis using round_away_sign(1) [OF True] round_away_sign(2) [of y] by linarith
  qed
next
  case False
  have "\<lfloor>x + 1 / 2\<rfloor> \<le> \<lfloor>y + 1 / 2\<rfloor>" using assms by (intro floor_mono) simp
  then show ?thesis using False assms by (simp add: round_away_def)
qed

lemma round_away_int: "round_away (of_int n) = n"
proof -
  have "\<lfloor>of_int m + 1 / 2 :: rat\<rfloor> = m" for m :: int by (simp add: floor_eq_iff)
  from this [of n] this [of "- n"] show ?thesis by (simp add: round_away_def)
qed

lemma half_up_div:
  assumes "0 < (b::int)"
  shows "\<lfloor>of_int a / of_int b + (1 / 2 :: rat)\<rfloor> = (if b \<le> 2 * (a mod b) then a div b + 1 else a div b)"
proof -
  have "(of_int a :: rat) / of_int b + 1 / 2 = of_int (2 * a + b) / of_int (2 * b)"
    using assms by (simp add: field_simps)
  then have fl: "\<lfloor>of_int a / of_int b + (1 / 2 :: rat)\<rfloor> = (2 * a + b) div (2 * b)"
    by (simp only: floor_divide_of_int_eq)
  have "b * (a div b) + a mod b = a" by simp
  moreover have "(a div b) * (2 * b) = 2 * (b * (a div b))" by simp
  ultimately have "2 * a + b = 2 * (a mod b) + b + (a div b) * (2 * b)" by linarith
  then have "(2 * a + b) div (2 * b) = a div b + (2 * (a mod b) + b) div (2 * b)"
    using div_mult_self1 [of "2 * b" "2 * (a mod b) + b" "a div b"] assms by (simp only:)
  moreover have "(2 * (a mod b) + b) div (2 * b) = (if b \<le> 2 * (a mod b) then 1 else 0)"
  proof (cases "b \<le> 2 * (a mod b)")
    case True
    moreover have "2 * (a mod b) + b < 2 * (2 * b)" using pos_mod_bound [OF assms, of a] assms by linarith
    ultimately show ?thesis using assms by (intro trans [OF int_div_pos_eq [where q = 1 and r = "2 * (a mod b) - b"]]) auto
  next
    case False
    then show ?thesis using pos_mod_sign [OF assms, of a] assms by (simp add: div_pos_pos_trivial)
  qed
  ultimately show ?thesis using fl by simp
qed

lemma div_half_away_round:
  assumes "0 < b"
  shows "div_half_away a b = round_away (of_int a / of_int b)"
proof (cases "a < 0")
  case True
  then have "(of_int a :: rat) / of_int b < 0" using assms by (simp add: divide_less_0_iff)
  then show ?thesis
    using half_up_div [OF assms, of "- a"] True by (simp add: div_half_away_def round_away_def Let_def)
next
  case False
  then have "\<not> (of_int a :: rat) / of_int b < 0" using assms by (simp add: divide_less_0_iff)
  then show ?thesis
    using half_up_div [OF assms, of a] False by (simp add: div_half_away_def round_away_def Let_def)
qed

lemma to_numeric_round:
  assumes "to_numeric p s d = Some d'" "is_finite d"
  shows "is_finite d' \<and> dval d' = of_int (round_away (dval d * 10 ^ s)) * pow10 (- int s)"
proof -
  obtain c e where d: "d = Fin c e" using assms(2) by (cases d) auto
  show ?thesis
  proof (cases "- int s \<le> e")
    case True
    have "dval d * 10 ^ s = of_int (scale_to c e (- int s))"
      using scale_to_val [OF True, of c] by (simp add: d pow10_def field_simps split: if_splits)
    then show ?thesis
      using assms(1) True round_away_int by (auto simp: d Let_def split: if_splits)
  next
    case False
    then have e: "e < 0" "nat (- e) = nat (- int s - e) + s" by auto
    have "dval d * 10 ^ s = of_int c / 10 ^ nat (- int s - e)"
      using e by (simp add: d pow10_def power_add)
    then have "dval d * 10 ^ s = of_int c / of_int (10 ^ nat (- int s - e))" by simp
    then have "round_away (dval d * 10 ^ s) = div_half_away c (10 ^ nat (- int s - e))"
      using div_half_away_round [of "10 ^ nat (- int s - e)" c] by simp
    then show ?thesis
      using assms(1) False by (auto simp: d Let_def split: if_splits)
  qed
qed

lemma to_numeric_mono:
  assumes "to_numeric p s a = Some a'" "to_numeric p s b = Some b'" "is_finite a" "is_finite b" "dval a \<le> dval b"
  shows "dval a' \<le> dval b'"
proof -
  have "round_away (dval a * 10 ^ s) \<le> round_away (dval b * 10 ^ s)"
    using assms(5) by (intro round_away_mono) (simp add: mult_right_mono)
  then have "(of_int (round_away (dval a * 10 ^ s)) :: rat) \<le> of_int (round_away (dval b * 10 ^ s))" by simp
  moreover have "0 \<le> pow10 (- int s)" by (simp add: pow10_def)
  ultimately show ?thesis
    using to_numeric_round [OF assms(1,3)] to_numeric_round [OF assms(2,4)] by (simp add: mult_right_mono)
qed

section \<open>Sound records and sound rows\<close>

definition sound_prices :: "decimal \<Rightarrow> decimal \<Rightarrow> decimal \<Rightarrow> decimal \<Rightarrow> decimal \<Rightarrow> bool" where
  "sound_prices op hi lo cl vol \<longleftrightarrow> list_all is_finite [op, hi, lo, cl, vol] \<and>
     dval lo \<le> dval op \<and> dval lo \<le> dval cl \<and> dval op \<le> dval hi \<and> dval cl \<le> dval hi"

definition sound_record :: "cell list \<Rightarrow> bool" where
  "sound_record r \<longleftrightarrow> (\<exists>sy ts op hi lo cl vol source flag.
     r = candle_record sy ts op hi lo cl vol source flag \<and> sound_prices op hi lo cl vol)"

lemma sound_candle_record: "sound_prices op hi lo cl vol \<Longrightarrow> sound_record (candle_record sy ts op hi lo cl vol source flag)"
  unfolding sound_record_def by blast

lemma sound_prices_rounded:
  assumes "sound_prices op hi lo cl vol" "to_numeric p s op = Some op'" "to_numeric p s hi = Some hi'"
    "to_numeric p s lo = Some lo'" "to_numeric p s cl = Some cl'" "to_numeric p s vol = Some vol'"
  shows "sound_prices op' hi' lo' cl' vol'"
  using assms(1) to_numeric_mono [OF assms(4,2)] to_numeric_mono [OF assms(4,5)] to_numeric_mono [OF assms(2,3)]
    to_numeric_mono [OF assms(5,3)] to_numeric_round [OF assms(2)] to_numeric_round [OF assms(3)]
    to_numeric_round [OF assms(4)] to_numeric_round [OF assms(5)] to_numeric_round [OF assms(6)]
  by (simp add: sound_prices_def)

lemma coerce_num: "coerce c (TNumeric p s) (CNum d) = Inr v \<longleftrightarrow> (\<exists>d'. to_numeric p s d = Some d' \<and> v = CNum d')"
  by (auto split: option.splits)

lemma staged_candle:
  assumes "stage_row x tbl_raw_mexc_candles_1m candle_columns (candle_record sy ts op hi lo cl vol source flag) = Inr row"
  shows "\<exists>sy' op' hi' lo' cl' vol'. row = [sy', CTs ts, CNum op', CNum hi', CNum lo', CNum cl', CNum vol', CText source, CText flag,
      CTs (tx_now x)] \<and>
    to_numeric 28 10 op = Some op' \<and> to_numeric 28 10 hi = Some hi' \<and> to_numeric 28 10 lo = Some lo' \<and>
    to_numeric 28 10 cl = Some cl' \<and> to_numeric 28 10 vol = Some vol'"
  using assms
  by (auto simp: stage_row_def stage_cell_def candle_columns_def candle_record_def tbl_raw_mexc_candles_1m_def col_def
      required_def res_simps coerce_num simp del: coerce.simps(5) split: if_splits)

text \<open>A row of the minutes whose prices, if they are numbers, are sound.\<close>

definition sound_row :: "cell list \<Rightarrow> bool" where
  "sound_row r \<longleftrightarrow> 9 \<le> length r \<longrightarrow> (\<forall>op hi lo cl vol.
     map num_in (take 5 (drop 2 r)) = map Some [op, hi, lo, cl, vol] \<longrightarrow> sound_prices op hi lo cl vol)"

lemma staged_row_sound:
  assumes "sound_record r" "stage_row x tbl_raw_mexc_candles_1m candle_columns r = Inr row"
  shows "sound_row row"
proof -
  obtain sy ts op hi lo cl vol source flag where r: "r = candle_record sy ts op hi lo cl vol source flag"
    "sound_prices op hi lo cl vol" using assms(1) by (auto simp: sound_record_def)
  obtain sy' op' hi' lo' cl' vol' where row: "row = [sy', CTs ts, CNum op', CNum hi', CNum lo', CNum cl', CNum vol', CText source,
      CText flag, CTs (tx_now x)]"
    "to_numeric 28 10 op = Some op'" "to_numeric 28 10 hi = Some hi'" "to_numeric 28 10 lo = Some lo'"
    "to_numeric 28 10 cl = Some cl'" "to_numeric 28 10 vol = Some vol'"
    using staged_candle [OF assms(2) [unfolded r(1)]] by (elim exE conjE)
  have "sound_prices op' hi' lo' cl' vol'" using sound_prices_rounded [OF r(2) row(2-6)] .
  then show ?thesis by (simp add: row(1) sound_row_def)
qed

lemma sound_row_bar:
  assumes "sound_row r" "bar_of_row r = Some b"
  shows "sound_bar b"
proof -
  have len: "9 \<le> length r" using assms(2) by (auto simp: bar_of_row_def split: if_splits)
  then obtain a0 a1 a2 a3 a4 a5 a6 a7 a8 rest where "r = a0 # a1 # a2 # a3 # a4 # a5 # a6 # a7 # a8 # rest"
    by (auto simp: numeral_eq_Suc Suc_le_length_iff)
  then show ?thesis
    using assms by (auto simp: sound_row_def bar_of_row_def sound_bar_def sound_prices_def split: Option.bind_splits)
qed

text \<open>The invariant: the table of the minutes is the migrated one, and its rows are sound.\<close>

definition minutes_sound :: "world \<Rightarrow> bool" where
  "minutes_sound w \<longleftrightarrow>
     (\<forall>ts. w_db w ''raw_mexc_candles_1m'' = Some ts \<longrightarrow> t_schema ts = tbl_raw_mexc_candles_1m \<and> list_all sound_row (t_rows ts))"

lemma minutes_sound_bars: "minutes_sound w \<Longrightarrow> list_all sound_bar (minutes_of (w_db w))"
  by (cases "w_db w ''raw_mexc_candles_1m''")
    (auto simp: minutes_sound_def minutes_of_def rows_of_def List.map_filter_def list_all_iff intro: sound_row_bar)

lemma keeps_elsewhere:
  "(\<And>v. keeps (\<lambda>w. w_db w ''raw_mexc_candles_1m'' = v) m) \<Longrightarrow> keeps minutes_sound m"
  unfolding keeps_def minutes_sound_def by metis

text \<open>The writes that matter: sound records into the table of the minutes, anything elsewhere.\<close>

lemma keeps_sound_copyI:
  assumes "target = ''raw_mexc_candles_1m'' \<Longrightarrow> columns = candle_columns \<and> list_all sound_record records"
  shows "keeps minutes_sound (copyI target records columns conflict)"
proof (cases "target = ''raw_mexc_candles_1m''")
  case False
  then show ?thesis by (intro keeps_elsewhere keeps_table_copyI)
next
  case True
  note target = True
  show ?thesis
    unfolding keeps_def
  proof (intro allI impI)
    fix w
    assume I: "minutes_sound w"
    let ?x = "rd_tx (e_read (w_env w) (w_pos w))"
    show "minutes_sound (snd (copyI target records columns conflict w))"
    proof (cases "copy_into_hypertable ?x (w_db w) target records columns conflict")
      case (Inl e)
      then show ?thesis using I by (simp add: copyI_def readI_def bindI_def minutes_sound_def)
    next
      case (Inr dn)
      obtain d n where dn: "dn = (d, n)" by (cases dn)
      have out: "w_db (snd (copyI target records columns conflict w)) = d"
        using Inr dn by (simp add: copyI_def readI_def bindI_def)
      from Inr dn have copy: "copy_into_hypertable ?x (w_db w) target records columns conflict = Inr (d, n)" by simp
      then show ?thesis
      proof (cases rule: copy_cases)
        case empty
        then show ?thesis using I out by (simp add: minutes_sound_def)
      next
        case (merged ts staged)
        have sch: "t_schema ts = tbl_raw_mexc_candles_1m" using I merged(2) target by (simp add: minutes_sound_def)
        have new: "sound_row row" if "row \<in> set staged" for row
          using mapE_Inr_set [OF merged(5) that] staged_row_sound assms [OF target] sch by (auto simp: list_all_iff)
        obtain extra where extra: "fold (insert_do_nothing (t_schema ts)) staged (t_rows ts) = t_rows ts @ extra"
          "set extra \<subseteq> set staged" using fold_insert_extra by blast
        have "list_all sound_row (t_rows ts)" using I merged(2) target by (simp add: minutes_sound_def)
        then show ?thesis
          unfolding minutes_sound_def out using new extra merged(8) target sch by (auto simp: list_all_iff)
      qed
    qed
  qed
qed

lemma sound_primitives:
  "keeps minutes_sound (logI name fs)" "keeps minutes_sound (setI name ls x)" "keeps minutes_sound (incI name ls n)"
  "keeps minutes_sound (freshI source dataset sy q)" "keeps minutes_sound readI" "keeps minutes_sound (fresh_nowI source dataset sy)"
  "keeps minutes_sound (eventI name fs)" "keeps minutes_sound (route_to_dead_letter s ep sy' p e)"
  "keeps minutes_sound (rendered v)" "keeps minutes_sound (fetch_ohlcv api sy'' tf a b)"
  by (intro keeps_elsewhere keeps_table keeps_table_eventI keeps_table_dead_letter keeps_table_fetch_ohlcv; simp)+

section \<open>Programs with a result\<close>

text \<open>A program that keeps the invariant and whose result, if it returns, has a property.\<close>

definition yields :: "('a \<Rightarrow> bool) \<Rightarrow> 'a io \<Rightarrow> bool" where
  "yields S m \<longleftrightarrow> (\<forall>w. minutes_sound w \<longrightarrow> minutes_sound (snd (m w)) \<and> (\<forall>x. fst (m w) = Inr x \<longrightarrow> S x))"

named_theorems yields_intros

lemma yields_simple [yields_intros]:
  "S x \<Longrightarrow> yields S (retI x)" "yields S (raiseI e)" "(\<And>x. r = Inr x \<Longrightarrow> S x) \<Longrightarrow> yields S (liftI r)"
  by (auto simp: yields_def io_defs)

lemma yields_keeps: "keeps minutes_sound m \<Longrightarrow> yields (\<lambda>_. True) m"
  by (simp add: yields_def keeps_def)

lemma keeps_yields: "yields S m \<Longrightarrow> keeps minutes_sound m"
  by (simp add: yields_def keeps_def)

lemma yields_bind:
  assumes "yields P m" "\<And>x. P x \<Longrightarrow> yields S (f x)"
  shows "yields S (bindI m f)"
  unfolding yields_def
proof (intro allI impI)
  fix w
  assume I: "minutes_sound w"
  obtain r w1 where m: "m w = (r, w1)" by fastforce
  then have "minutes_sound w1" "\<And>x. r = Inr x \<Longrightarrow> P x" using assms(1) I by (auto simp: yields_def)
  then show "minutes_sound (snd (bindI m f w)) \<and> (\<forall>x. fst (bindI m f w) = Inr x \<longrightarrow> S x)"
    using m assms(2) by (cases r) (auto simp: bindI_def yields_def)
qed

lemma yields_bind_any [yields_intros]: "keeps minutes_sound m \<Longrightarrow> (\<And>x. yields S (f x)) \<Longrightarrow> yields S (bindI m f)"
  by (rule yields_bind [OF yields_keeps])

lemma yields_then [yields_intros]: "keeps minutes_sound m \<Longrightarrow> yields S k \<Longrightarrow> yields S (thenI m k)"
  unfolding thenI_def by (rule yields_bind_any)

lemma yields_catch [yields_intros]:
  assumes "yields S m" "\<And>e. yields S (h e)"
  shows "yields S (catchI m h)"
  unfolding yields_def
proof (intro allI impI)
  fix w
  assume I: "minutes_sound w"
  obtain r w1 where m: "m w = (r, w1)" by fastforce
  have "minutes_sound w1" "\<And>x. r = Inr x \<Longrightarrow> S x" using assms(1) I m by (auto simp: yields_def)
  then show "minutes_sound (snd (catchI m h w)) \<and> (\<forall>x. fst (catchI m h w) = Inr x \<longrightarrow> S x)"
    using m assms(2) by (cases r) (simp_all add: catchI_def yields_def)
qed

lemma yields_if [yields_intros]: "(b \<Longrightarrow> yields S m) \<Longrightarrow> (\<not> b \<Longrightarrow> yields S k) \<Longrightarrow> yields S (if b then m else k)"
  by simp

lemma yields_foldI [yields_intros]:
  "S s \<Longrightarrow> (\<And>s x. S s \<Longrightarrow> x \<in> set xs \<Longrightarrow> yields S (f s x)) \<Longrightarrow> yields S (foldI f s xs)"
proof (induction xs arbitrary: s)
  case (Cons x xs)
  have "yields S (foldI f s' xs)" if "S s'" for s' using Cons.IH [OF that] Cons.prems(2) by simp
  then show ?case using Cons.prems by (auto intro: yields_bind)
qed (simp add: yields_intros)

lemma yields_prod [yields_intros]: "(\<And>a b. p = (a, b) \<Longrightarrow> yields S (m a b)) \<Longrightarrow> yields S (case p of (a, b) \<Rightarrow> m a b)"
  by (cases p) simp

section \<open>The trade stream\<close>

definition sound_agg :: "cell aggregator \<Rightarrow> bool" where
  "sound_agg agg \<longleftrightarrow> (\<forall>s p. agg s = Some p \<longrightarrow> sound_prices (pb_open p) (pb_high p) (pb_low p) (pb_close p) (pb_volume p))"

lemma sound_agg_upd:
  "sound_agg agg \<Longrightarrow> sound_prices (pb_open p) (pb_high p) (pb_low p) (pb_close p) (pb_volume p) \<Longrightarrow> sound_agg (agg(s \<mapsto> p))"
  by (simp add: sound_agg_def)

lemma on_trade_sound:
  assumes "sound_agg agg" "finite_trade tr"
    and "on_trade agg (tr_symbol tr) (tr_ts tr) (tr_price tr) (tr_qty tr) = Inr (agg', fin)"
  shows "sound_agg agg'" and "fin = Some p \<Longrightarrow> sound_record (finalized_record s p)"
proof -
  have t: "is_finite (tr_price tr)" "is_finite (tr_qty tr)" using assms(2) by (auto simp: finite_trade_def)
  have new: "sound_prices (tr_price tr) (tr_price tr) (tr_price tr) (tr_price tr) (tr_qty tr)"
    using t by (simp add: sound_prices_def)
  have "sound_agg agg' \<and> (\<forall>p. fin = Some p \<longrightarrow> agg (tr_symbol tr) = Some p)"
  proof (cases "agg (tr_symbol tr)")
    case None
    then show ?thesis using assms(1,3) new by (auto simp: on_trade_def new_partial_def intro!: sound_agg_upd)
  next
    case (Some cur)
    then have cur: "sound_prices (pb_open cur) (pb_high cur) (pb_low cur) (pb_close cur) (pb_volume cur)"
      using assms(1) by (simp add: sound_agg_def)
    show ?thesis
    proof (cases "floor_minute (tr_ts tr) = pb_ts cur")
      case False
      then show ?thesis using assms(1,3) new Some by (auto simp: on_trade_def new_partial_def Let_def intro!: sound_agg_upd)
    next
      case True
      obtain v where v: "dec_add (pb_volume cur) (tr_qty tr) = Inr v" "is_finite v"
        using dec_add_finite [of "pb_volume cur" "tr_qty tr"] cur t by (auto simp: sound_prices_def)
      let ?hi = "if dval (pb_high cur) < dval (tr_price tr) then tr_price tr else pb_high cur"
      let ?lo = "if dval (tr_price tr) < dval (pb_low cur) then tr_price tr else pb_low cur"
      have "sound_prices (pb_open cur) ?hi ?lo (tr_price tr) v" using cur t v by (auto simp: sound_prices_def)
      moreover have "is_finite (pb_high cur)" "is_finite (pb_low cur)" using cur by (simp_all add: sound_prices_def)
      ultimately show ?thesis
        using assms(1,3) True Some v t
        by (auto simp: on_trade_def Let_def dec_gt_fin dec_lt_fin intro!: sound_agg_upd)
    qed
  qed
  then show "sound_agg agg'" and "fin = Some p \<Longrightarrow> sound_record (finalized_record s p)"
    using assms(1) by (auto simp: sound_agg_def finalized_record_def intro!: sound_candle_record)
qed

text \<open>A message of which every trade that parses has a finite price and amount.\<close>

definition clean_trade :: "wdict \<Rightarrow> bool" where
  "clean_trade t \<longleftrightarrow> (case parse_trade t of Inl e \<Rightarrow> True | Inr tr \<Rightarrow> finite_trade tr)"

definition clean_message :: "wdict list res \<Rightarrow> bool" where
  "clean_message m \<longleftrightarrow> (case m of Inl e \<Rightarrow> True | Inr ts \<Rightarrow> list_all clean_trade ts)"

fun sound_buffer :: "cell aggregator \<times> cell list list \<Rightarrow> bool" where
  "sound_buffer (agg, buffer) \<longleftrightarrow> sound_agg agg \<and> list_all sound_record buffer"

lemma yields_agg_trade:
  assumes "sound_buffer s" "clean_trade t"
  shows "yields sound_buffer (agg_trade s t)"
proof -
  obtain agg buffer where s: "s = (agg, buffer)" "sound_agg agg" "list_all sound_record buffer"
    using assms(1) by (cases s) auto
  have "sound_buffer x"
    if "bindE (parse_trade t) (\<lambda>tr. bindE (on_trade (fst s) (tr_symbol tr) (tr_ts tr) (tr_price tr) (tr_qty tr)) (\<lambda>(agg, fin).
      Inr (agg, snd s @ (case fin of None \<Rightarrow> [] | Some p \<Rightarrow> [finalized_record (tr_symbol tr) p])))) = Inr x" for x
  proof -
    from that obtain tr agg' fin where tr: "parse_trade t = Inr tr"
      "on_trade agg (tr_symbol tr) (tr_ts tr) (tr_price tr) (tr_qty tr) = Inr (agg', fin)"
      and x: "x = (agg', buffer @ (case fin of None \<Rightarrow> [] | Some p \<Rightarrow> [finalized_record (tr_symbol tr) p]))"
      by (auto simp: s(1) res_simps)
    have "finite_trade tr" using assms(2) tr(1) by (simp add: clean_trade_def)
    from on_trade_sound [OF s(2) this tr(2)] s(3) show ?thesis by (cases fin) (auto simp: x)
  qed
  then show ?thesis unfolding agg_trade_def using assms(1) by (intro yields_intros sound_primitives)
qed

lemma keeps_sound_flush:
  assumes "list_all sound_record buffer"
  shows "yields (\<lambda>r. list_all sound_record (fst r)) (flush target ds candle_columns candle_conflict s buffer lst)"
proof -
  have "keeps minutes_sound (forI xs (\<lambda>sy. fresh_nowI src ds sy))" for xs src by (intro keeps_intros sound_primitives)
  then show ?thesis
    unfolding flush_def using assms by (intro yields_intros sound_primitives keeps_sound_copyI) simp_all
qed

lemma yields_aggregator_body:
  assumes "sound_buffer (fst s, fst (snd s))" "clean_message m"
  shows "yields (\<lambda>s. sound_buffer (fst s, fst (snd s))) (aggregator_body fs s m)"
proof -
  obtain agg buffer lst where s: "s = (agg, buffer, lst)" by (cases s)
  show ?thesis
  proof (cases m)
    case (Inl e)
    then show ?thesis
      unfolding aggregator_body_def on_message_def s using assms(1)
      by (auto simp: s intro!: yields_intros sound_primitives)
  next
    case (Inr trades)
    have fold: "yields sound_buffer (foldI agg_trade (agg, buffer) trades)"
      using assms Inr by (intro yields_intros yields_agg_trade) (auto simp: s clean_message_def list_all_iff)
    have rest: "yields (\<lambda>s. sound_buffer (fst s, fst (snd s)))
        (bindI (flush ''raw_mexc_candles_1m'' ''candles_1m'' candle_columns candle_conflict fs buffer' lst)
          (\<lambda>(buffer'', last_flush'). retI (agg', buffer'', last_flush')))" if "sound_buffer (agg', buffer')" for agg' buffer'
      using that by (intro yields_bind [OF keeps_sound_flush]) (auto intro!: yields_intros)
    show ?thesis
      unfolding aggregator_body_def on_message_def s Inr prod.case sum.case
      by (rule yields_bind [OF fold], rule yields_prod, rule rest, simp only:)
  qed
qed

lemma keeps_sound_stream:
  assumes "list_all clean_message msgs"
  shows "keeps minutes_sound (trades_aggregator_loop fs msgs)"
proof -
  have "yields (\<lambda>s. sound_buffer (fst s, fst (snd s))) (foldI (aggregator_body fs) (Map.empty, [], t) msgs)" for t
    using assms by (intro yields_intros yields_aggregator_body) (auto simp: sound_agg_def list_all_iff)
  then have body: "keeps minutes_sound (foldI (aggregator_body fs) (Map.empty, [], t) msgs)" for t by (rule keeps_yields)
  have fin: "keeps minutes_sound (thenI (eventI name ls) (raiseI e :: agg_loop io))" for name ls e
    by (intro keeps_intros sound_primitives)
  have "keeps minutes_sound (stream_run (aggregator_body fs) (eventI name ls) (Map.empty, [], t) msgs)" for name ls t
    using body [of t] fin [of name ls] unfolding keeps_def stream_run_def by (fastforce split: prod.splits sum.splits)
  then show ?thesis unfolding trades_aggregator_loop_def by (intro keeps_thenI keeps_bindI sound_primitives)
qed

section \<open>Gap flagging and the repair\<close>

lemma keeps_sound_flag_gap: "keeps minutes_sound (flag_gap target sy a b step source)"
proof -
  have zero: "sound_prices dec_zero dec_zero dec_zero dec_zero dec_zero" by (simp add: sound_prices_def dec_zero_def)
  have row: "sound_record r" if "gap_record sy source c = Inr r" for c r
    using that zero by (auto simp: gap_record_def res_simps intro!: sound_candle_record)
  have "list_all sound_record records" if "mapE (gap_record sy source) cs = Inr records" for cs records
    unfolding list_all_iff using mapE_Inr_set [OF that] row by blast
  then have records: "yields (list_all sound_record) (liftI (mapE (gap_record sy source) cs))" for cs
    by (intro yields_simple)
  have written: "yields (\<lambda>_. True) (if records = [] then retI 0 else copyI target records candle_columns candle_conflict)"
    if "list_all sound_record records" for records
    using that by (intro yields_if yields_keeps keeps_intros keeps_sound_copyI) simp_all
  show ?thesis
    unfolding flag_gap_def
    by (rule keeps_yields, rule yields_if, rule yields_simple(1), rule TrueI, rule yields_bind [OF records written])
qed

lemma sound_backfill_record: "candle_ok c \<Longrightarrow> sound_record (backfill_record c)"
  unfolding backfill_record_def by (rule sound_candle_record) (auto simp: candle_ok_def sound_prices_def)

lemma yields_fetch: "yields (list_all candle_ok) (fetch_ohlcv api sy tf a b)"
proof -
  have "keeps minutes_sound (fetch_ohlcv api sy tf a b)" by (rule sound_primitives)
  then show ?thesis unfolding yields_def keeps_def list_all_iff by (metis mexc.fetch_valid prod.collapse)
qed

fun sound_job :: "job_status \<Rightarrow> bool" where
  "sound_job (Storing candles n) = list_all candle_ok candles"
| "sound_job _ = True"

lemma yields_segment:
  assumes "sound_job st"
  shows "yields sound_job (segment (fetch_ohlcv api) since until k st)"
proof -
  have stop: "yields sound_job (completed sy tf n)" for sy tf n
    unfolding completed_def by (intro yields_intros sound_primitives) simp
  have store: "keeps minutes_sound (copyI target (map backfill_record cs) candle_columns candle_conflict)"
    if "list_all candle_ok cs" for target cs
    using that by (intro keeps_sound_copyI) (auto simp: list_all_iff sound_backfill_record)
  have fetch: "yields sound_job (bindI (fetch_ohlcv api sy tf a b) (\<lambda>candles.
      if candles = [] then completed sy tf n else retI (Storing candles n)))" for sy tf a b n
    by (intro yields_bind [OF yields_fetch]) (auto intro!: yields_intros stop)
  have lift: "keeps minutes_sound (liftI r)" for r :: "int res" by (rule keeps_intros)
  show ?thesis
    using assms
    by (cases "(fetch_ohlcv api, since, until, k, st)" rule: segment.cases)
      (auto intro!: yields_intros sound_primitives store fetch stop lift split: option.split simp del: not_less)
qed

definition sound_sweep :: "sweep \<Rightarrow> bool" where
  "sound_sweep s \<longleftrightarrow> minutes_sound (sw_world s) \<and> list_all (\<lambda>j. sound_job (snd j)) (sw_jobs s)"

lemma sound_set_job:
  "list_all (\<lambda>j. sound_job (snd j)) (sw_jobs s) \<Longrightarrow> sound_job st \<Longrightarrow> list_all (\<lambda>j. sound_job (snd j)) (sw_jobs (set_job i st s))"
  by (auto simp: set_job_def list_all_iff dest!: set_update_subset_insert [THEN subsetD] split: prod.split)

lemma sound_move:
  assumes "sound_sweep s"
  shows "sound_sweep (move (fetch_ohlcv api) since until s t)"
proof (cases t)
  case (Run i)
  show ?thesis
  proof (cases "length (sw_jobs s) \<le> i \<or> over (snd (sw_jobs s ! i)) \<or> waits s i")
    case True
    then show ?thesis using assms Run by auto
  next
    case False
    then have "sound_job (snd (sw_jobs s ! i))" using assms by (auto simp: sound_sweep_def list_all_length)
    from yields_segment [OF this, of api since until "fst (sw_jobs s ! i)"] assms
    have "minutes_sound (snd (segment (fetch_ohlcv api) since until (fst (sw_jobs s ! i)) (snd (sw_jobs s ! i)) (sw_world s)))"
      "\<And>st. fst (segment (fetch_ohlcv api) since until (fst (sw_jobs s ! i)) (snd (sw_jobs s ! i)) (sw_world s)) = Inr st \<Longrightarrow> sound_job st"
      by (auto simp: yields_def sound_sweep_def)
    then show ?thesis
      using assms False Run sound_set_job [of s]
      by (cases "segment (fetch_ohlcv api) since until (fst (sw_jobs s ! i)) (snd (sw_jobs s ! i)) (sw_world s)")
        (auto simp: sound_sweep_def split: sum.split)
  qed
next
  case (Cancel i)
  then show ?thesis using assms sound_set_job [of s Cancelled i] by (auto simp: sound_sweep_def set_job_def split: prod.splits)
qed (use assms in \<open>simp add: sound_sweep_def\<close>)

lemma keeps_sound_universe:
  "keeps minutes_sound (backfill_universe schedule (fetch_ohlcv api) symbols timeframes since until m)"
  unfolding keeps_def
proof (intro allI impI)
  fix w
  assume "minutes_sound w"
  then have "sound_sweep (sweep_start m symbols timeframes w)" by (auto simp: sound_sweep_def sweep_start_def list_all_iff)
  then have "sound_sweep (moves (fetch_ohlcv api) since until schedule (sweep_start m symbols timeframes w))"
    unfolding moves_def by (induction schedule rule: rev_induct) (simp_all add: sound_move)
  then show "minutes_sound (snd (backfill_universe schedule (fetch_ohlcv api) symbols timeframes since until m w))"
    by (auto simp: backfill_universe_def Let_def sound_sweep_def split: option.split sum.split)
qed

section \<open>The cross-REST check\<close>

lemma sound_row_flag: "sound_row r \<Longrightarrow> sound_row (set_cell tbl_raw_mexc_candles_1m ''quality_flag'' v r)"
  by (simp add: set_cell_def tbl_raw_mexc_candles_1m_def col_def required_def sound_row_def take_update_swap drop_update_swap list_update_beyond)

lemma keeps_sound_flag:
  "keeps minutes_sound (bindI (getI w_db) (\<lambda>d. bindI (liftI (flag_divergence sy t d)) (\<lambda>d'. updI (\<lambda>w. w\<lparr>w_db := d'\<rparr>))))"
  by (auto simp: keeps_def minutes_sound_def io_defs flag_divergence_def on_table_def update_where_def list_all_iff
      intro!: sound_row_flag split: option.splits sum.splits if_splits)

lemma keeps_sound_check: "keeps minutes_sound (cross_rest_divergence_check (fetch_ohlcv api) symbols passes)"
  unfolding cross_rest_divergence_check_def divergence_pass_def divergence_check_def compare_close_def Let_def
  by (intro keeps_intros sound_primitives keeps_sound_flag)

section \<open>All writers\<close>

datatype writer_run =
  Stream rat "wdict list res list"
| Flag_Gap string int int int string
| Repair "turn list" ohlcv_api "string list" "string list" int int nat
| Cross_Check ohlcv_api "string list" nat

fun run_writer :: "writer_run \<Rightarrow> world \<Rightarrow> world" where
  "run_writer (Stream flush_seconds msgs) w = snd (trades_aggregator_loop flush_seconds msgs w)"
| "run_writer (Flag_Gap sy a b step source) w = snd (flag_gap ''raw_mexc_candles_1m'' sy a b step source w)"
| "run_writer (Repair schedule api symbols timeframes since until m) w =
     snd (backfill_universe schedule (fetch_ohlcv api) symbols timeframes since until m w)"
| "run_writer (Cross_Check api symbols passes) w = snd (cross_rest_divergence_check (fetch_ohlcv api) symbols passes w)"

fun clean_run :: "writer_run \<Rightarrow> bool" where
  "clean_run (Stream _ msgs) = list_all clean_message msgs"
| "clean_run _ = True"

lemma run_writer_sound: "clean_run r \<Longrightarrow> minutes_sound w \<Longrightarrow> minutes_sound (run_writer r w)"
  using keeps_sound_stream keeps_sound_flag_gap keeps_sound_universe keeps_sound_check
  by (cases r) (auto simp: keeps_def)

lemma runs_sound: "list_all clean_run rs \<Longrightarrow> minutes_sound w \<Longrightarrow> minutes_sound (fold run_writer rs w)"
  by (induction rs arbitrary: w) (simp_all add: run_writer_sound)

text \<open>C15: Every minute in raw_mexc_candles_1m is a sound candle (finite prices, low below open and close,
  high above them), whatever runs of the trade stream, gap flagging, the daily repair and the cross-REST check
  have written it, in any order and with any answers of the exchange, and so is every row of the four continuous
  aggregates built from the table. The live stream writes without the validating Candle model, so its
  trades must have finite prices and amounts; a NaN price would be stored.\<close>

theorem stored_minutes_sound:
  assumes "minutes_sound w" "list_all clean_run rs"
  shows "list_all sound_bar (minutes_of (w_db (fold run_writer rs w))) \<and>
    list_all sound_bar (aggregate_rows width (minutes_of (w_db (fold run_writer rs w))))"
proof -
  have bars: "list_all sound_bar (minutes_of (w_db (fold run_writer rs w)))"
    by (rule minutes_sound_bars [OF runs_sound [OF assms(2,1)]])
  then show ?thesis using aggregate_row_candle [OF _ bars refl] by (auto simp: list_all_iff)
qed

text \<open>A stream of two trades in different minutes, after which the first minute is stored.\<close>

definition trade_message :: "int \<Rightarrow> string \<Rightarrow> wdict" where
  "trade_message ms price =
     [(''timestamp'', WInt ms), (''price'', WStr price), (''amount'', WStr ''1''), (''symbol'', WStr ''BTC'')]"

lemma trade_message_parsed:
  assumes "0 \<le> ms" "ms \<le> 4000000000000" "parse_decimal p = Some d"
  shows "parse_trade (trade_message ms p) = Inr \<lparr>tr_symbol = CText ''BTC'', tr_ts = 1000 * ms, tr_price = d, tr_qty = Fin 1 0\<rparr>"
proof -
  have "parse_decimal ''1'' = Some (Fin 1 0)" by code_simp
  then show ?thesis using assms by (simp add: parse_trade_def trade_message_def dget_def ts_from_ms_exact)
qed

lemma stored_minutes_sound_witness:
  "list_all sound_bar (minutes_of (w_db (fold run_writer
     [Stream 0 [Inr [trade_message 1700000000000 ''2'', trade_message 1700000100000 ''3'']],
      Flag_Gap ''BTC'' 0 60000000 60000 ''mexc_native''] (calm_world 1000 sample_candle_db))))"
proof -
  have "minutes_sound (calm_world 1000 sample_candle_db)" by (simp add: minutes_sound_def sample_candle_db_def)
  moreover have "parse_decimal ''2'' = Some (Fin 2 0)" "parse_decimal ''3'' = Some (Fin 3 0)" by code_simp+
  then have "list_all clean_run [Stream 0 [Inr [trade_message 1700000000000 ''2'', trade_message 1700000100000 ''3'']],
      Flag_Gap ''BTC'' 0 60000000 60000 ''mexc_native'']"
    by (simp add: clean_message_def clean_trade_def finite_trade_def trade_message_parsed)
  ultimately show ?thesis using stored_minutes_sound by blast
qed

text \<open>
  The restriction is needed: a trade whose price parses as NaN becomes a finalized candle when its minute ends,
  and the NUMERIC columns accept it.
\<close>

lemma nan_trade_finalized:
  "\<exists>agg p. bindE (parse_trade (trade_message 1700000000000 ''NaN'')) (\<lambda>a.
      bindE (parse_trade (trade_message 1700000100000 ''3'')) (\<lambda>b. feed [a, b])) = Inr (agg, [(CText ''BTC'', p)]) \<and>
    pb_open p = NaN \<and> to_numeric 28 10 NaN = Some NaN \<and> \<not> is_finite NaN"
proof -
  have "parse_decimal ''NaN'' = Some NaN" "parse_decimal ''3'' = Some (Fin 3 0)" by code_simp+
  moreover have "floor_minute (1000 * 1700000000000) \<noteq> floor_minute (1000 * 1700000100000)" by code_simp
  ultimately show ?thesis
    by (simp add: trade_message_parsed feed_def feed_step_def on_trade_def new_partial_def Let_def)
qed

end
